(* ===== verification/TT_Prelude.thy ===== *)
theory TT_Prelude
  imports Main "HOL-Library.Multiset" "HOL-Library.AList"
begin

text \<open>
  Shared vocabulary of the development: Go maps as association lists with the lookup,
  store and delete operations the sources use, the iteration order of a Go
  \<^verbatim>\<open>range\<close> statement as a type of permutations, Go error values, the text
  functions of \<^verbatim>\<open>fmt\<close> and \<^verbatim>\<open>strings\<close> the sources call, and a locale for
  invariants of step relations.
\<close>

named_theorems gomap_simps \<open>lookups after stores, deletes and loops over Go maps\<close>

section \<open>Go maps\<close>

text \<open>
  A Go map is an association list; \<^const>\<open>map_of\<close> is the comma-ok lookup
  \<^verbatim>\<open>v, ok := m[k]\<close>, \<^const>\<open>AList.update\<close> the store \<^verbatim>\<open>m[k] = v\<close> and
  \<^const>\<open>AList.delete\<close> the built-in \<^verbatim>\<open>delete(m, k)\<close>. A list stands for a Go map
  when its keys are distinct.
\<close>

type_synonym ('k, 'v) gomap = "('k \<times> 'v) list"

abbreviation gomap_ok :: "('k, 'v) gomap \<Rightarrow> bool" where
  "gomap_ok m \<equiv> distinct (map fst m)"

abbreviation mget :: "('k, 'v) gomap \<Rightarrow> 'k \<Rightarrow> 'v option" where
  "mget \<equiv> map_of"

abbreviation mput :: "'k \<Rightarrow> 'v \<Rightarrow> ('k, 'v) gomap \<Rightarrow> ('k, 'v) gomap" where
  "mput \<equiv> AList.update"

abbreviation mdel :: "'k \<Rightarrow> ('k, 'v) gomap \<Rightarrow> ('k, 'v) gomap" where
  "mdel \<equiv> AList.delete"

abbreviation mkeys :: "('k, 'v) gomap \<Rightarrow> 'k list" where
  "mkeys m \<equiv> map fst m"

text \<open>Indexing a map of maps: a missing key reads as the nil map, which has no entry.\<close>

definition midx :: "('k, ('l, 'v) gomap) gomap \<Rightarrow> 'k \<Rightarrow> ('l, 'v) gomap" where
  "midx m k = (case mget m k of None \<Rightarrow> [] | Some v \<Rightarrow> v)"

lemma mget_mput [simp, gomap_simps]: "mget (mput k v m) x = (if x = k then Some v else mget m x)"
  by (simp add: update_conv')

lemma mget_mdel [simp, gomap_simps]: "mget (mdel k m) x = (if x = k then None else mget m x)"
  by (simp add: delete_conv')

lemma midx_mput [simp, gomap_simps]: "midx (mput k v m) x = (if x = k then v else midx m x)"
  by (simp add: midx_def)

lemma midx_Nil [simp]: "midx [] k = []"
  by (simp add: midx_def)

lemma midx_Cons [simp]: "midx ((a, v) # m) k = (if k = a then v else midx m k)"
  by (simp add: midx_def)

lemma midx_None: "mget m k = None \<Longrightarrow> midx m k = []"
  by (simp add: midx_def)

text \<open>\<^verbatim>\<open>if _, ok := m[k]; !ok { m[k] = make(...) }\<close>\<close>

definition mensure :: "'k \<Rightarrow> ('k, ('l, 'v) gomap) gomap \<Rightarrow> ('k, ('l, 'v) gomap) gomap" where
  "mensure k m = (case mget m k of None \<Rightarrow> mput k [] m | Some v \<Rightarrow> m)"

lemma midx_mensure [simp, gomap_simps]: "midx (mensure k m) x = midx m x"
  by (simp add: mensure_def midx_None split: option.splits)

lemma gomap_ok_mput [simp, intro]: "gomap_ok m \<Longrightarrow> gomap_ok (mput k v m)"
  by (rule distinct_update)

lemma gomap_ok_mdel [simp, intro]: "gomap_ok m \<Longrightarrow> gomap_ok (mdel k m)"
  by (rule distinct_delete)

lemma gomap_ok_mensure [simp, intro]: "gomap_ok m \<Longrightarrow> gomap_ok (mensure k m)"
  by (simp add: mensure_def split: option.splits)

lemma mem_mkeys_iff: "k \<in> set (mkeys m) \<longleftrightarrow> mget m k \<noteq> None"
  by (simp add: map_of_eq_None_iff)

lemma length_mput:
  "length (mput k v m) = (if mget m k = None then Suc (length m) else length m)"
  by (induction m) (auto simp: map_of_eq_None_iff)

lemma length_mdel:
  assumes "gomap_ok m"
  shows "length (mdel k m) = (if mget m k = None then length m else length m - 1)"
  using assms
proof (induction m)
  case (Cons p m)
  obtain a b where p: "p = (a, b)"
    by (cases p)
  show ?case
  proof (cases "a = k")
    case True
    with Cons.prems have "mdel k m = m"
      by (force simp: p AList.delete_eq intro!: filter_True)
    with True show ?thesis
      by (simp add: p)
  next
    case False
    moreover have "mget m k \<noteq> None \<Longrightarrow> 0 < length m"
      by (cases m) auto
    ultimately show ?thesis
      using Cons p by auto
  qed
qed simp

text \<open>A loop that stores one value per key visited.\<close>

lemma mget_fold_mput [gomap_simps]:
  "mget (fold (\<lambda>k. mput k (f k)) ks m) x = (if x \<in> set ks then Some (f x) else mget m x)"
  by (induction ks arbitrary: m) auto

text \<open>A loop that stores under some of the keys it visits.\<close>

lemma mget_fold_mput_option [gomap_simps]:
  "mget (fold (\<lambda>k m. case f k of None \<Rightarrow> m | Some v \<Rightarrow> mput k v m) ks m) x =
     (if x \<in> set ks then (case f x of None \<Rightarrow> mget m x | Some v \<Rightarrow> Some v) else mget m x)"
  by (induction ks arbitrary: m) (auto split: option.splits)

lemma gomap_ok_fold_mput_option:
  "gomap_ok m \<Longrightarrow> gomap_ok (fold (\<lambda>k m. case f k of None \<Rightarrow> m | Some v \<Rightarrow> mput k v m) ks m)"
  by (induction ks arbitrary: m) (auto split: option.splits)

lemma gomap_ok_fold_mput: "gomap_ok m \<Longrightarrow> gomap_ok (fold (\<lambda>k. mput k (f k)) ks m)"
  by (induction ks arbitrary: m) auto


section \<open>The order of a range statement\<close>

text \<open>
  Go leaves the order in which \<^verbatim>\<open>range\<close> visits the keys of a map open. A value of
  type \<open>range_order\<close> is one such choice for every range statement of an operation: for a
  site (which loop, and below which outer keys) and a list of keys it gives a permutation of
  the keys. Theorems about an operation hold for every \<open>range_order\<close>.
\<close>

typedef range_order =
  "{f :: string list \<Rightarrow> string list \<Rightarrow> string list. \<forall>site ks. mset (f site ks) = mset ks}"
  morphisms visit mk_range_order
  by (rule exI [of _ "\<lambda>_ ks. ks"]) simp

setup_lifting type_definition_range_order

lift_definition insertion_order :: range_order is "\<lambda>_ ks. ks"
  by simp

lift_definition reverse_order :: range_order is "\<lambda>_ ks. rev ks"
  by simp

lemma visit_insertion_order [simp]: "visit insertion_order site ks = ks"
  by transfer simp

lemma visit_reverse_order [simp]: "visit reverse_order site ks = rev ks"
  by transfer simp

lemma mset_visit [simp]: "mset (visit ord site ks) = mset ks"
  using visit [of ord] by simp

lemma set_visit [simp]: "set (visit ord site ks) = set ks"
  by (metis mset_visit set_mset_mset)

lemma distinct_visit [simp]: "distinct (visit ord site ks) = distinct ks"
  by (metis mset_visit mset_eq_imp_distinct_iff)

lemma length_visit [simp]: "length (visit ord site ks) = length ks"
  by (metis mset_visit size_mset)


section \<open>Invariants of step relations\<close>

text \<open>
  The interface of every state machine of the development: an initial predicate, a step
  relation and an invariant that the initial states have and every step keeps.
\<close>

locale step_invariant =
  fixes initial :: "'s \<Rightarrow> bool"
    and step :: "'s \<Rightarrow> 's \<Rightarrow> bool"
    and inv :: "'s \<Rightarrow> bool"
  assumes initial_inv: "initial s \<Longrightarrow> inv s"
    and step_inv: "inv s \<Longrightarrow> step s t \<Longrightarrow> inv t"
begin

lemma steps_inv: "inv s \<Longrightarrow> step\<^sup>*\<^sup>* s t \<Longrightarrow> inv t"
  by (rotate_tac 1, induction rule: rtranclp_induct) (auto intro: step_inv)

lemma reachable_inv: "initial s \<Longrightarrow> step\<^sup>*\<^sup>* s t \<Longrightarrow> inv t"
  using initial_inv steps_inv by blast

end

end
