(* ===== verification/Go_Text.thy ===== *)
theory Go_Text
  imports TT_Prelude
begin

text \<open>
  Go strings and errors as the sources use them: \<^verbatim>\<open>fmt\<close> verbs, the functions of
  \<^verbatim>\<open>strings\<close>, error values with \<^verbatim>\<open>errors.Is\<close> and \<^verbatim>\<open>errors.Join\<close>, and
  the name builders of \<^verbatim>\<open>internal/controller/utils.go\<close>. A Go string is its list of
  bytes.
\<close>

section \<open>Formatting\<close>

definition hex_digit :: "nat \<Rightarrow> char" where
  "hex_digit n = (if n < 10 then char_of (48 + n) else char_of (87 + n))"

text \<open>
  The verb \<^verbatim>\<open>%q\<close> on ASCII text, as \<^verbatim>\<open>strconv.Quote\<close> prints it. A byte of
  a multi-byte character is copied, which is what Quote does for printable characters.
\<close>

definition quote_char :: "char \<Rightarrow> string" where
  "quote_char c =
     (let n = of_char c :: nat in
      if n = 34 then [char_of (92::nat), c]
      else if n = 92 then [c, c]
      else if n = 7 then [char_of (92::nat), CHR ''a'']
      else if n = 8 then [char_of (92::nat), CHR ''b'']
      else if n = 12 then [char_of (92::nat), CHR ''f'']
      else if n = 10 then [char_of (92::nat), CHR ''n'']
      else if n = 13 then [char_of (92::nat), CHR ''r'']
      else if n = 9 then [char_of (92::nat), CHR ''t'']
      else if n = 11 then [char_of (92::nat), CHR ''v'']
      else if n < 32 \<or> n = 127
        then [char_of (92::nat), CHR ''x'', hex_digit (n div 16), hex_digit (n mod 16)]
      else [c])"

definition quoted :: "string \<Rightarrow> string" where
  "quoted s = char_of (34::nat) # concat (map quote_char s) @ [char_of (34::nat)]"

fun show_nat :: "nat \<Rightarrow> string" where
  "show_nat n = (if n < 10 then [char_of (48 + n)]
     else show_nat (n div 10) @ [char_of (48 + n mod 10)])"

declare show_nat.simps [simp del]

definition show_int :: "int \<Rightarrow> string" where
  "show_int i = (if i < 0 then CHR ''-'' # show_nat (nat (- i)) else show_nat (nat i))"

lemma show_nat_nonempty [simp]: "show_nat n \<noteq> []"
  by (subst show_nat.simps) simp

lemma show_int_nonempty [simp]: "show_int i \<noteq> []"
  by (simp add: show_int_def)

section \<open>Package strings\<close>

definition HasPrefix :: "string \<Rightarrow> string \<Rightarrow> bool" where
  "HasPrefix s p \<longleftrightarrow> take (length p) s = p"

lemma HasPrefix_append [simp]: "HasPrefix (p @ s) p"
  by (simp add: HasPrefix_def)

lemma HasPrefix_iff: "HasPrefix s p \<longleftrightarrow> (\<exists>t. s = p @ t)"
  by (metis HasPrefix_append HasPrefix_def append_take_drop_id)

fun strings_Join :: "string list \<Rightarrow> string \<Rightarrow> string" where
  "strings_Join [] sep = []"
| "strings_Join [x] sep = x"
| "strings_Join (x # y # ys) sep = x @ sep @ strings_Join (y # ys) sep"

text \<open>\<^verbatim>\<open>strings.Split(s, c)\<close> for a separator of one byte.\<close>

fun strings_Split :: "string \<Rightarrow> char \<Rightarrow> string list" where
  "strings_Split [] c = [[]]"
| "strings_Split (x # xs) c =
     (if x = c then [] # strings_Split xs c
      else (case strings_Split xs c of [] \<Rightarrow> [[x]] | y # ys \<Rightarrow> (x # y) # ys))"

lemma strings_Split_nonempty [simp]: "strings_Split s c \<noteq> []"
  by (induction s) (auto split: list.splits)

text \<open>\<^verbatim>\<open>unicode.IsSpace\<close> on ASCII, \<^verbatim>\<open>strings.TrimSpace\<close> and the case folding of
  \<^verbatim>\<open>strings.EqualFold\<close> and \<^verbatim>\<open>strings.ToUpper\<close> on ASCII.\<close>

definition is_space :: "char \<Rightarrow> bool" where
  "is_space c \<longleftrightarrow> (let n = of_char c :: nat in n = 32 \<or> (9 \<le> n \<and> n \<le> 13))"

definition TrimSpace :: "string \<Rightarrow> string" where
  "TrimSpace s = rev (dropWhile is_space (rev (dropWhile is_space s)))"

definition lower_char :: "char \<Rightarrow> char" where
  "lower_char c = (let n = of_char c :: nat in if 65 \<le> n \<and> n \<le> 90 then char_of (n + 32) else c)"

definition upper_char :: "char \<Rightarrow> char" where
  "upper_char c = (let n = of_char c :: nat in if 97 \<le> n \<and> n \<le> 122 then char_of (n - 32) else c)"

definition EqualFold :: "string \<Rightarrow> string \<Rightarrow> bool" where
  "EqualFold s t \<longleftrightarrow> map lower_char s = map lower_char t"

definition ToUpper :: "string \<Rightarrow> string" where
  "ToUpper s = map upper_char s"

lemma dropWhile_space_idem [simp]: "dropWhile is_space (dropWhile is_space s) = dropWhile is_space s"
  by (induction s) auto

section \<open>Error values\<close>

text \<open>
  An error is an API server's "not found", the sentinel of the action timeout, a plain
  message, an error wrapped by \<^verbatim>\<open>fmt.Errorf("%w ...")\<close> with the text it prints, or the
  join of two errors. \<^verbatim>\<open>nil\<close> is \<^const>\<open>None\<close> where an error is optional.
\<close>

datatype go_error =
    ErrNotFound string
  | ErrActionTimeout
  | Err string
  | ErrWrap string go_error
  | ErrJoin go_error go_error

fun err_Error :: "go_error \<Rightarrow> string" where
  "err_Error (ErrNotFound t) = t"
| "err_Error ErrActionTimeout = ''action execution timed out''"
| "err_Error (Err t) = t"
| "err_Error (ErrWrap t e) = t"
| "err_Error (ErrJoin e f) = err_Error e @ [char_of (10::nat)] @ err_Error f"

text \<open>\<^verbatim>\<open>errors.Is(err, ErrActionTimeout)\<close> and \<^verbatim>\<open>apierrors.IsNotFound(err)\<close>.\<close>

fun err_IsTimeout :: "go_error \<Rightarrow> bool" where
  "err_IsTimeout ErrActionTimeout \<longleftrightarrow> True"
| "err_IsTimeout (ErrWrap t e) \<longleftrightarrow> err_IsTimeout e"
| "err_IsTimeout (ErrJoin e f) \<longleftrightarrow> err_IsTimeout e \<or> err_IsTimeout f"
| "err_IsTimeout _ \<longleftrightarrow> False"

fun err_IsNotFound :: "go_error \<Rightarrow> bool" where
  "err_IsNotFound (ErrNotFound t) \<longleftrightarrow> True"
| "err_IsNotFound (ErrWrap t e) \<longleftrightarrow> err_IsNotFound e"
| "err_IsNotFound (ErrJoin e f) \<longleftrightarrow> err_IsNotFound e \<or> err_IsNotFound f"
| "err_IsNotFound _ \<longleftrightarrow> False"

text \<open>\<^verbatim>\<open>errors.Join(e, err)\<close> drops nil errors.\<close>

fun errors_Join :: "go_error option \<Rightarrow> go_error option \<Rightarrow> go_error option" where
  "errors_Join None f = f"
| "errors_Join e None = e"
| "errors_Join (Some e) (Some f) = Some (ErrJoin e f)"

lemma errors_Join_None_iff [simp]: "errors_Join e f = None \<longleftrightarrow> e = None \<and> f = None"
  by (cases "(e, f)" rule: errors_Join.cases) auto

section \<open>Names of the controllers (utils.go)\<close>

definition resourceName :: "string \<Rightarrow> string \<Rightarrow> string" where
  "resourceName kind name = kind @ '':'' @ name"

definition conditionTypeForAction :: "string \<Rightarrow> string" where
  "conditionTypeForAction name = ''Action-'' @ name"

fun contains :: "string list \<Rightarrow> string \<Rightarrow> bool" where
  "contains [] action \<longleftrightarrow> False"
| "contains (a # actions) action \<longleftrightarrow> (if a = action then True else contains actions action)"

definition defaultNamespace :: "string \<Rightarrow> string \<Rightarrow> string" where
  "defaultNamespace operatorNamespace namespace =
     (if namespace = '''' then operatorNamespace else namespace)"

lemma contains_iff [simp]: "contains actions action \<longleftrightarrow> action \<in> set actions"
  by (induction actions) auto

lemma conditionTypeForAction_inj [simp]:
  "conditionTypeForAction a = conditionTypeForAction b \<longleftrightarrow> a = b"
  by (simp add: conditionTypeForAction_def)

lemma conditionTypeForAction_not_Ready [simp]:
  "conditionTypeForAction a \<noteq> ''Ready''" "''Ready'' \<noteq> conditionTypeForAction a"
  by (simp_all add: conditionTypeForAction_def)

text \<open>
  Resource names of kinds that contain no colon never clash: the name splits at its first
  colon.
\<close>

lemma resourceName_eq_iff:
  assumes "CHR '':'' \<notin> set k" and "CHR '':'' \<notin> set l"
  shows "resourceName k a = resourceName l b \<longleftrightarrow> k = l \<and> a = b"
proof
  assume eq: "resourceName k a = resourceName l b"
  have tw: "takeWhile (\<lambda>c. c \<noteq> CHR '':'') (resourceName x y) = x" if "CHR '':'' \<notin> set x" for x y
    using that by (induction x) (auto simp: resourceName_def)
  from eq have "k = l"
    using tw [OF assms(1), of a] tw [OF assms(2), of b] by simp
  with eq show "k = l \<and> a = b"
    by (simp add: resourceName_def)
qed simp

end
