(* ===== verification/Cron_Service.thy ===== *)
theory Cron_Service
  imports Go_Text
begin

text \<open>
  The schedule service of \<^verbatim>\<open>internal/cron/schedule_service.go\<close>: the index from
  schedule, action and resource to the id of a cron entry, kept beside the entries of the
  third-party cron library. The library is a parameter; \<open>cron_contract\<close> states what its
  documentation promises. The theory gives the operations, the invariant that ties index,
  entries and gauge together, and the refinement to an abstract registry that maps
  (schedule, action, resource) to a parsed schedule and a job.
\<close>

section \<open>The cron library\<close>

text \<open>
  \<^verbatim>\<open>robfig/cron\<close>: an entry as \<^verbatim>\<open>Entry(id)\<close> returns it, with \<^verbatim>\<open>ID\<close> 0 when
  the id is not known, and the calls the service makes. \<^verbatim>\<open>AddFunc\<close> is \<^verbatim>\<open>AddJob\<close>
  of the function as a job; the state of the \<^verbatim>\<open>Cron\<close> object has type \<open>'c\<close>, a job
  type \<open>'j\<close>, a parsed schedule type \<open>'s\<close>.
\<close>

record ('j, 's) cron_entry =
  entry_ID :: int
  entry_Schedule :: "'s option"
  entry_Job :: "'j option"

record ('c, 'j, 's) cron_lib =
  lib_ParseStandard :: "string \<Rightarrow> go_error + 's"
  lib_AddJob :: "'c \<Rightarrow> string \<Rightarrow> 'j \<Rightarrow> go_error + (int \<times> 'c)"
  lib_Remove :: "'c \<Rightarrow> int \<Rightarrow> 'c"
  lib_Entry :: "'c \<Rightarrow> int \<Rightarrow> ('j, 's) cron_entry"
  lib_New :: 'c

definition entry_Valid :: "('j, 's) cron_entry \<Rightarrow> bool" where
  "entry_Valid e \<longleftrightarrow> entry_ID e \<noteq> 0"

text \<open>
  The documented behaviour: a new Cron has no entry; adding parses with the standard parser,
  fails exactly when the parser fails and otherwise stores the entry under an id that was not
  in use and is not 0; removing forgets one entry; looking up an id gives an entry with that
  id or with ID 0.
\<close>

definition cron_contract :: "('c, 'j, 's) cron_lib \<Rightarrow> bool" where
  "cron_contract lib \<longleftrightarrow>
     (\<forall>eid. \<not> entry_Valid (lib_Entry lib (lib_New lib) eid)) \<and>
     (\<forall>c eid. entry_Valid (lib_Entry lib c eid) \<longrightarrow> entry_ID (lib_Entry lib c eid) = eid) \<and>
     (\<forall>c spec j. case lib_ParseStandard lib spec of
        Inl e \<Rightarrow> lib_AddJob lib c spec j = Inl e
      | Inr sch \<Rightarrow> (\<exists>eid c'. lib_AddJob lib c spec j = Inr (eid, c') \<and> eid \<noteq> 0 \<and>
          \<not> entry_Valid (lib_Entry lib c eid) \<and>
          lib_Entry lib c' eid = \<lparr>entry_ID = eid, entry_Schedule = Some sch, entry_Job = Some j\<rparr> \<and>
          (\<forall>eid'. eid' \<noteq> eid \<longrightarrow> lib_Entry lib c' eid' = lib_Entry lib c eid'))) \<and>
     (\<forall>c eid eid'. if eid' = eid then \<not> entry_Valid (lib_Entry lib (lib_Remove lib c eid) eid')
        else lib_Entry lib (lib_Remove lib c eid) eid' = lib_Entry lib c eid')"

section \<open>The service\<close>

text \<open>
  \<^verbatim>\<open>ScheduleService\<close>: the index \<^verbatim>\<open>m\<close>, the Cron object \<^verbatim>\<open>c\<close> and, beside
  them, the gauge \<^verbatim>\<open>timeterra_scheduled_cronjobs\<close> that only this service writes. The
  logger is left out. Every operation holds the mutex for its whole body, except that
  \<^verbatim>\<open>Add\<close> calls the library before it takes the lock; \<open>Add_locked\<close> is the part under
  the lock.
\<close>

type_synonym cron_index = "(string, (string, (string, int) gomap) gomap) gomap"

record 'c schedule_service =
  svc_m :: cron_index
  svc_c :: 'c
  svc_gauge :: "string \<Rightarrow> string \<Rightarrow> int"

definition New :: "('c, 'j, 's) cron_lib \<Rightarrow> 'c schedule_service" where
  "New lib = \<lparr>svc_m = [], svc_c = lib_New lib, svc_gauge = (\<lambda>_ _. 0)\<rparr>"

definition Get :: "('c, 'j, 's) cron_lib \<Rightarrow> 'c schedule_service \<Rightarrow> int \<Rightarrow> ('j, 's) cron_entry" where
  "Get lib s entry = lib_Entry lib (svc_c s) entry"

definition gauge_add :: "string \<Rightarrow> string \<Rightarrow> int \<Rightarrow> (string \<Rightarrow> string \<Rightarrow> int) \<Rightarrow> string \<Rightarrow> string \<Rightarrow> int" where
  "gauge_add schedule action d g = g(schedule := (g schedule)(action := g schedule action + d))"

definition Add_locked :: "'c schedule_service \<Rightarrow> string \<Rightarrow> string \<Rightarrow> string \<Rightarrow> int \<Rightarrow> 'c schedule_service" where
  "Add_locked s schedule action resource eid =
     (let m1 = mensure schedule (svc_m s);
          a1 = mensure action (midx m1 schedule);
          r1 = mput resource eid (midx a1 action)
      in s\<lparr>svc_m := mput schedule (mput action r1 a1) m1,
           svc_gauge := gauge_add schedule action 1 (svc_gauge s)\<rparr>)"

definition Add :: "('c, 'j, 's) cron_lib \<Rightarrow> 'c schedule_service \<Rightarrow> string \<Rightarrow> string \<Rightarrow> string \<Rightarrow>
    string \<Rightarrow> 'j \<Rightarrow> (go_error + int) \<times> 'c schedule_service" where
  "Add lib s schedule action resource spec cmd =
     (case lib_AddJob lib (svc_c s) spec cmd of
        Inl err \<Rightarrow> (Inl err, s)
      | Inr (eid, c') \<Rightarrow> (Inr eid, Add_locked (s\<lparr>svc_c := c'\<rparr>) schedule action resource eid))"

definition removeLocked :: "('c, 'j, 's) cron_lib \<Rightarrow> 'c schedule_service \<Rightarrow> string \<Rightarrow> string \<Rightarrow>
    string \<Rightarrow> 'c schedule_service" where
  "removeLocked lib s schedule action resource =
     (case mget (svc_m s) schedule of
        None \<Rightarrow> s
      | Some actions \<Rightarrow> (case mget actions action of
          None \<Rightarrow> s
        | Some resources \<Rightarrow> (case mget resources resource of
            None \<Rightarrow> s
          | Some eid \<Rightarrow>
              s\<lparr>svc_c := lib_Remove lib (svc_c s) eid,
                svc_m := mput schedule (mput action (mdel resource resources) actions) (svc_m s),
                svc_gauge := gauge_add schedule action (-1) (svc_gauge s)\<rparr>)))"

definition Remove :: "('c, 'j, 's) cron_lib \<Rightarrow> 'c schedule_service \<Rightarrow> string \<Rightarrow> string \<Rightarrow> string \<Rightarrow>
    'c schedule_service" where
  "Remove lib s schedule action resource = removeLocked lib s schedule action resource"

definition GetActions :: "range_order \<Rightarrow> 'c schedule_service \<Rightarrow> string \<Rightarrow>
    (string, (string, int) gomap) gomap" where
  "GetActions ord s schedule =
     (case mget (svc_m s) schedule of
        None \<Rightarrow> []
      | Some actions \<Rightarrow>
          fold (\<lambda>action. mput action
                  (fold (\<lambda>res. mput res (case mget (midx actions action) res of None \<Rightarrow> 0 | Some eid \<Rightarrow> eid))
                     (visit ord [''GetActions'', action] (mkeys (midx actions action))) []))
            (visit ord [''GetActions''] (mkeys actions)) [])"

definition GetActionsOfResource :: "range_order \<Rightarrow> 'c schedule_service \<Rightarrow> string \<Rightarrow> string \<Rightarrow>
    (string, int) gomap" where
  "GetActionsOfResource ord s schedule resource =
     (case mget (svc_m s) schedule of
        None \<Rightarrow> []
      | Some actions \<Rightarrow>
          fold (\<lambda>action m. case mget (midx actions action) resource of
                  None \<Rightarrow> m | Some eid \<Rightarrow> mput action eid m)
            (visit ord [''GetActionsOfResource''] (mkeys actions)) [])"

text \<open>The two loops that remove a resource below one schedule and below all of them.\<close>

fun remove_below_schedule :: "('c, 'j, 's) cron_lib \<Rightarrow> string \<Rightarrow> string \<Rightarrow> string list \<Rightarrow>
    'c schedule_service \<times> string list \<Rightarrow> 'c schedule_service \<times> string list" where
  "remove_below_schedule lib schedule resource [] acc = acc"
| "remove_below_schedule lib schedule resource (action # actions) (s, removed) =
     (if mget (midx (midx (svc_m s) schedule) action) resource \<noteq> None
      then remove_below_schedule lib schedule resource actions
             (removeLocked lib s schedule action resource, removed @ [action])
      else remove_below_schedule lib schedule resource actions (s, removed))"

fun remove_non_current :: "('c, 'j, 's) cron_lib \<Rightarrow> range_order \<Rightarrow> string \<Rightarrow> string \<Rightarrow> string list \<Rightarrow>
    'c schedule_service \<times> string list \<Rightarrow> 'c schedule_service \<times> string list" where
  "remove_non_current lib ord current resource [] acc = acc"
| "remove_non_current lib ord current resource (schedule # schedules) (s, removed) =
     (if schedule \<noteq> current
      then remove_non_current lib ord current resource schedules
             (remove_below_schedule lib schedule resource
                (visit ord [''NonCurrent'', schedule] (mkeys (midx (svc_m s) schedule))) (s, removed))
      else remove_non_current lib ord current resource schedules (s, removed))"

definition RemoveActionsOfResourceFromNonCurrentSchedule ::
    "('c, 'j, 's) cron_lib \<Rightarrow> range_order \<Rightarrow> 'c schedule_service \<Rightarrow> string \<Rightarrow> string \<Rightarrow>
     'c schedule_service \<times> string list" where
  "RemoveActionsOfResourceFromNonCurrentSchedule lib ord s currentSchedule resource =
     remove_non_current lib ord currentSchedule resource
       (visit ord [''NonCurrent''] (mkeys (svc_m s))) (s, [])"

fun remove_resource_loop :: "('c, 'j, 's) cron_lib \<Rightarrow> range_order \<Rightarrow> string \<Rightarrow> string list \<Rightarrow>
    'c schedule_service \<Rightarrow> 'c schedule_service" where
  "remove_resource_loop lib ord resource [] s = s"
| "remove_resource_loop lib ord resource (schedule # schedules) s =
     remove_resource_loop lib ord resource schedules
       (fst (remove_below_schedule lib schedule resource
          (visit ord [''RemoveResource'', schedule] (mkeys (midx (svc_m s) schedule))) (s, [])))"

definition RemoveResource :: "('c, 'j, 's) cron_lib \<Rightarrow> range_order \<Rightarrow> 'c schedule_service \<Rightarrow> string \<Rightarrow>
    'c schedule_service" where
  "RemoveResource lib ord s resource =
     remove_resource_loop lib ord resource (visit ord [''RemoveResource''] (mkeys (svc_m s))) s"

definition IsValidCron :: "('c, 'j, 's) cron_lib \<Rightarrow> string \<Rightarrow> bool" where
  "IsValidCron lib spec = (case lib_ParseStandard lib spec of Inl err \<Rightarrow> False | Inr sch \<Rightarrow> True)"

text \<open>
  \<^verbatim>\<open>old.Job\<close> of a valid entry is never nil; the branch for a missing job does not
  arise under \<open>cron_contract\<close> for entries the service added.
\<close>

definition UpdateCronSpec :: "('c, 'j, 's) cron_lib \<Rightarrow> 'c schedule_service \<Rightarrow> string \<Rightarrow> string \<Rightarrow>
    string \<Rightarrow> string \<Rightarrow> 'c schedule_service \<times> bool" where
  "UpdateCronSpec lib s schedule action resource spec =
     (case mget (svc_m s) schedule of
        None \<Rightarrow> (s, False)
      | Some actions \<Rightarrow> (case mget actions action of
          None \<Rightarrow> (s, False)
        | Some resources \<Rightarrow> (case mget resources resource of
            None \<Rightarrow> (s, False)
          | Some eid \<Rightarrow>
              (let old = Get lib s eid in
               if entry_ID old = 0 then (s, False)
               else (case lib_ParseStandard lib spec of
                  Inl err \<Rightarrow> (s, False)
                | Inr sch \<Rightarrow> (case entry_Job old of
                    None \<Rightarrow> (s, False)
                  | Some newJob \<Rightarrow> (case lib_AddJob lib (svc_c s) spec newJob of
                      Inl err \<Rightarrow> (s, False)
                    | Inr (new, c') \<Rightarrow>
                        (s\<lparr>svc_m := mput schedule (mput action (mput resource new resources) actions)
                                      (svc_m s),
                           svc_c := lib_Remove lib c' (entry_ID old)\<rparr>, True))))))))"


section \<open>Lookups in the index\<close>

type_synonym cron_key = "string \<times> string \<times> string"

definition lookup3 :: "cron_index \<Rightarrow> cron_key \<Rightarrow> int option" where
  "lookup3 m k = (case k of (schedule, action, resource) \<Rightarrow> mget (midx (midx m schedule) action) resource)"

definition index_ok :: "cron_index \<Rightarrow> bool" where
  "index_ok m \<longleftrightarrow> gomap_ok m \<and> (\<forall>x. gomap_ok (midx m x)) \<and> (\<forall>x y. gomap_ok (midx (midx m x) y))"

lemma lookup3_Nil [simp]: "lookup3 [] k = None"
  by (cases k) (simp add: lookup3_def)

lemma removeLocked_eq:
  "removeLocked lib s x y z =
     (case lookup3 (svc_m s) (x, y, z) of
        None \<Rightarrow> s
      | Some eid \<Rightarrow>
          s\<lparr>svc_c := lib_Remove lib (svc_c s) eid,
            svc_m := mput x (mput y (mdel z (midx (midx (svc_m s) x) y)) (midx (svc_m s) x)) (svc_m s),
            svc_gauge := gauge_add x y (-1) (svc_gauge s)\<rparr>)"
  by (auto simp: removeLocked_def lookup3_def midx_def split: option.splits)

lemma lookup3_removeLocked [simp]:
  "lookup3 (svc_m (removeLocked lib s x y z)) k =
     (if k = (x, y, z) then None else lookup3 (svc_m s) k)"
  by (cases k) (auto simp: removeLocked_eq lookup3_def split: option.splits)

lemma midx2_Add_locked:
  "midx (midx (svc_m (Add_locked s x y z eid)) x') y' =
     (if x' = x \<and> y' = y then mput z eid (midx (midx (svc_m s) x) y) else midx (midx (svc_m s) x') y')"
  by (simp add: Add_locked_def Let_def)

lemma lookup3_Add_locked [simp]:
  "lookup3 (svc_m (Add_locked s x y z eid)) k =
     (if k = (x, y, z) then Some eid else lookup3 (svc_m s) k)"
  by (cases k) (simp add: lookup3_def midx2_Add_locked)

lemma svc_c_Add_locked [simp]: "svc_c (Add_locked s x y z eid) = svc_c s"
  by (simp add: Add_locked_def Let_def)

lemma index_ok_removeLocked: "index_ok (svc_m s) \<Longrightarrow> index_ok (svc_m (removeLocked lib s x y z))"
  by (auto simp: index_ok_def removeLocked_eq split: option.splits)

lemma index_ok_Add_locked: "index_ok (svc_m s) \<Longrightarrow> index_ok (svc_m (Add_locked s x y z eid))"
  by (auto simp: index_ok_def Add_locked_def Let_def)

lemma lookup3_SomeD:
  assumes "lookup3 m (x, y, z) = Some eid"
  shows "x \<in> set (mkeys m)" and "y \<in> set (mkeys (midx m x))" and "z \<in> set (mkeys (midx (midx m x) y))"
  unfolding mem_mkeys_iff using assms by (auto simp: lookup3_def midx_def split: option.splits)

section \<open>The invariant of the service\<close>

text \<open>
  Every registered id names a stored entry with a schedule and a job; no id is registered
  twice; every entry of the Cron object is registered (no job runs that the index has
  forgotten); the gauge counts the registered resources.
\<close>

definition entries_ok :: "('c, 'j, 's) cron_lib \<Rightarrow> 'c schedule_service \<Rightarrow> bool" where
  "entries_ok lib s \<longleftrightarrow> (\<forall>k eid. lookup3 (svc_m s) k = Some eid \<longrightarrow>
     eid \<noteq> 0 \<and> (\<exists>sch j. Get lib s eid = \<lparr>entry_ID = eid, entry_Schedule = Some sch, entry_Job = Some j\<rparr>))"

definition ids_unique :: "'c schedule_service \<Rightarrow> bool" where
  "ids_unique s \<longleftrightarrow> (\<forall>k k' eid. lookup3 (svc_m s) k = Some eid \<longrightarrow> lookup3 (svc_m s) k' = Some eid \<longrightarrow> k = k')"

definition no_orphans :: "('c, 'j, 's) cron_lib \<Rightarrow> 'c schedule_service \<Rightarrow> bool" where
  "no_orphans lib s \<longleftrightarrow> (\<forall>eid. entry_Valid (Get lib s eid) \<longrightarrow> (\<exists>k. lookup3 (svc_m s) k = Some eid))"

definition gauge_exact :: "'c schedule_service \<Rightarrow> bool" where
  "gauge_exact s \<longleftrightarrow> (\<forall>x y. svc_gauge s x y = int (length (midx (midx (svc_m s) x) y)))"

definition svc_inv :: "('c, 'j, 's) cron_lib \<Rightarrow> 'c schedule_service \<Rightarrow> bool" where
  "svc_inv lib s \<longleftrightarrow> index_ok (svc_m s) \<and> entries_ok lib s \<and> ids_unique s \<and> no_orphans lib s \<and> gauge_exact s"

definition svc_ok :: "('c, 'j, 's) cron_lib \<Rightarrow> 'c schedule_service \<Rightarrow> bool" where
  "svc_ok lib s \<longleftrightarrow> cron_contract lib \<and> svc_inv lib s"

lemmas svc_defs = svc_inv_def entries_ok_def ids_unique_def no_orphans_def gauge_exact_def

text \<open>What the contract gives for one call.\<close>

lemma contract_AddJob:
  assumes "cron_contract lib" and "lib_ParseStandard lib spec = Inr sch"
  obtains eid c' where "lib_AddJob lib c spec j = Inr (eid, c')" and "eid \<noteq> 0"
    and "\<not> entry_Valid (lib_Entry lib c eid)"
    and "\<And>i. lib_Entry lib c' i =
      (if i = eid then \<lparr>entry_ID = eid, entry_Schedule = Some sch, entry_Job = Some j\<rparr>
       else lib_Entry lib c i)"
proof -
  from assms(1) have "case lib_ParseStandard lib spec of
        Inl e \<Rightarrow> lib_AddJob lib c spec j = Inl e
      | Inr sch \<Rightarrow> (\<exists>eid c'. lib_AddJob lib c spec j = Inr (eid, c') \<and> eid \<noteq> 0 \<and>
          \<not> entry_Valid (lib_Entry lib c eid) \<and>
          lib_Entry lib c' eid = \<lparr>entry_ID = eid, entry_Schedule = Some sch, entry_Job = Some j\<rparr> \<and>
          (\<forall>eid'. eid' \<noteq> eid \<longrightarrow> lib_Entry lib c' eid' = lib_Entry lib c eid'))"
    unfolding cron_contract_def by blast
  with assms(2) that show ?thesis
    by auto
qed

lemma contract_AddJob_Inl:
  assumes "cron_contract lib" and "lib_ParseStandard lib spec = Inl e"
  shows "lib_AddJob lib c spec j = Inl e"
proof -
  from assms(1) have "case lib_ParseStandard lib spec of
        Inl e \<Rightarrow> lib_AddJob lib c spec j = Inl e | Inr sch \<Rightarrow> True"
    unfolding cron_contract_def by (auto split: sum.splits)
  with assms(2) show ?thesis
    by simp
qed

lemma contract_Remove:
  "cron_contract lib \<Longrightarrow> \<not> entry_Valid (lib_Entry lib (lib_Remove lib c eid) eid)"
  "cron_contract lib \<Longrightarrow> i \<noteq> eid \<Longrightarrow> lib_Entry lib (lib_Remove lib c eid) i = lib_Entry lib c i"
  unfolding cron_contract_def by metis+

lemma contract_New: "cron_contract lib \<Longrightarrow> \<not> entry_Valid (lib_Entry lib (lib_New lib) eid)"
  by (simp add: cron_contract_def)

lemma contract_Entry:
  "cron_contract lib \<Longrightarrow> entry_Valid (lib_Entry lib c eid) \<Longrightarrow> entry_ID (lib_Entry lib c eid) = eid"
  by (simp add: cron_contract_def)

section \<open>Every operation keeps the invariant\<close>

lemma gauge_add_apply [simp]:
  "gauge_add x y d g x' y' = (if x' = x \<and> y' = y then g x y + d else g x' y')"
  by (simp add: gauge_add_def)

lemma svc_ok_New: "cron_contract lib \<Longrightarrow> svc_ok lib (New lib)"
  by (simp add: svc_ok_def svc_defs New_def index_ok_def Get_def contract_New)

text \<open>The invariant, one consequence at a time.\<close>

lemma ok_entry:
  assumes "svc_ok lib s" and "lookup3 (svc_m s) k = Some i"
  obtains sch j where "lib_Entry lib (svc_c s) i = \<lparr>entry_ID = i, entry_Schedule = Some sch, entry_Job = Some j\<rparr>"
    and "i \<noteq> 0"
  using assms unfolding svc_ok_def svc_inv_def entries_ok_def Get_def by blast

lemma ok_unique:
  "svc_ok lib s \<Longrightarrow> lookup3 (svc_m s) k = Some i \<Longrightarrow> lookup3 (svc_m s) k' = Some i \<Longrightarrow> k = k'"
  unfolding svc_ok_def svc_inv_def ids_unique_def by blast

lemma ok_registered:
  assumes "svc_ok lib s" and "entry_Valid (lib_Entry lib (svc_c s) i)"
  obtains k where "lookup3 (svc_m s) k = Some i"
  using assms unfolding svc_ok_def svc_inv_def no_orphans_def Get_def by blast

lemma ok_contract: "svc_ok lib s \<Longrightarrow> cron_contract lib"
  and ok_index: "svc_ok lib s \<Longrightarrow> index_ok (svc_m s)"
  and ok_gauge: "svc_ok lib s \<Longrightarrow> gauge_exact s"
  by (simp_all add: svc_ok_def svc_inv_def)

lemma svc_okI:
  assumes "cron_contract lib" and "index_ok (svc_m s)" and "gauge_exact s"
    and "\<And>k i. lookup3 (svc_m s) k = Some i \<Longrightarrow> i \<noteq> 0 \<and> (\<exists>sch j. lib_Entry lib (svc_c s) i =
           \<lparr>entry_ID = i, entry_Schedule = Some sch, entry_Job = Some j\<rparr>)"
    and "\<And>k k' i. lookup3 (svc_m s) k = Some i \<Longrightarrow> lookup3 (svc_m s) k' = Some i \<Longrightarrow> k = k'"
    and "\<And>i. entry_Valid (lib_Entry lib (svc_c s) i) \<Longrightarrow> \<exists>k. lookup3 (svc_m s) k = Some i"
  shows "svc_ok lib s"
  using assms unfolding svc_ok_def svc_inv_def entries_ok_def ids_unique_def no_orphans_def Get_def by blast

lemma removeLocked_gauge:
  assumes "index_ok (svc_m s)" and "gauge_exact s"
  shows "gauge_exact (removeLocked lib s x y z)"
proof (cases "lookup3 (svc_m s) (x, y, z)")
  case (Some eid)
  let ?r = "midx (midx (svc_m s) x) y"
  from Some have in_r: "mget ?r z \<noteq> None"
    by (simp add: lookup3_def)
  then have "0 < length ?r"
    by (cases ?r) auto
  moreover from assms(1) have "gomap_ok ?r"
    by (simp add: index_ok_def)
  from length_mdel [OF this, of z] in_r have "length (mdel z ?r) = length ?r - 1"
    by (simp only: if_False)
  ultimately have "int (length (mdel z ?r)) = int (length ?r) - 1"
    by (simp only: of_nat_diff Suc_leI of_nat_1 One_nat_def)
  then show ?thesis
    using assms(2) Some by (simp add: gauge_exact_def removeLocked_eq)
qed (use assms in \<open>simp add: removeLocked_eq\<close>)

lemma removeLocked_ok:
  assumes ok: "svc_ok lib s"
  shows "svc_ok lib (removeLocked lib s x y z)"
proof (cases "lookup3 (svc_m s) (x, y, z)")
  case None
  with assms show ?thesis by (simp add: removeLocked_eq)
next
  case (Some eid)
  let ?s' = "removeLocked lib s x y z"
  note C = ok_contract [OF ok]
  have c': "svc_c ?s' = lib_Remove lib (svc_c s) eid"
    by (simp add: removeLocked_eq Some)
  have other: "lib_Entry lib (svc_c ?s') i = lib_Entry lib (svc_c s) i" if "i \<noteq> eid" for i
    by (simp add: c' contract_Remove(2) [OF C that])
  have keep: "lookup3 (svc_m s) k = Some i \<and> i \<noteq> eid" if "lookup3 (svc_m ?s') k = Some i" for k i
    using that ok_unique [OF ok Some] by (metis lookup3_removeLocked option.distinct(1))
  show ?thesis
  proof (rule svc_okI [OF C])
    show "index_ok (svc_m ?s')" and "gauge_exact ?s'"
      using ok_index [OF ok] ok_gauge [OF ok]
      by (auto intro: removeLocked_gauge index_ok_removeLocked)
  next
    fix k i assume "lookup3 (svc_m ?s') k = Some i"
    with keep have k: "lookup3 (svc_m s) k = Some i" and "i \<noteq> eid" by blast+
    from ok_entry [OF ok k] other [OF \<open>i \<noteq> eid\<close>]
    show "i \<noteq> 0 \<and> (\<exists>sch j. lib_Entry lib (svc_c ?s') i =
        \<lparr>entry_ID = i, entry_Schedule = Some sch, entry_Job = Some j\<rparr>)"
      by metis
  next
    fix k k' i assume "lookup3 (svc_m ?s') k = Some i" and "lookup3 (svc_m ?s') k' = Some i"
    with keep show "k = k'" using ok_unique [OF ok] by blast
  next
    fix i assume v: "entry_Valid (lib_Entry lib (svc_c ?s') i)"
    with contract_Remove(1) [OF C] have "i \<noteq> eid" by (auto simp: c')
    with v other ok_registered [OF ok] obtain k where "lookup3 (svc_m s) k = Some i" by metis
    with Some \<open>i \<noteq> eid\<close> show "\<exists>k. lookup3 (svc_m ?s') k = Some i"
      by (intro exI [of _ k]) auto
  qed
qed

text \<open>
  Registering under a free key. On an occupied key \<open>Add\<close> overwrites the id and leaves the
  old entry in the Cron object, so the invariant asks for a free key;
  \<open>Add_occupied_leaks\<close> below shows the difference.
\<close>

lemma Add_locked_gauge:
  assumes "gauge_exact s" and "lookup3 (svc_m s) (x, y, z) = None"
  shows "gauge_exact (Add_locked s x y z eid)"
proof -
  have "svc_gauge (Add_locked s x y z eid) = gauge_add x y 1 (svc_gauge s)"
    by (simp add: Add_locked_def Let_def)
  with assms show ?thesis
    by (simp add: gauge_exact_def midx2_Add_locked length_mput lookup3_def)
qed

lemma Add_ok:
  assumes ok: "svc_ok lib s" and free: "lookup3 (svc_m s) (x, y, z) = None"
  shows "svc_ok lib (snd (Add lib s x y z spec j))"
proof (cases "lib_ParseStandard lib spec")
  case (Inl e)
  with ok show ?thesis
    by (simp add: Add_def contract_AddJob_Inl [OF ok_contract])
next
  case (Inr sch)
  note C = ok_contract [OF ok]
  from contract_AddJob [OF C Inr, of "svc_c s" j] obtain eid c' where
    add: "lib_AddJob lib (svc_c s) spec j = Inr (eid, c')" and "eid \<noteq> 0"
    and fresh: "\<not> entry_Valid (lib_Entry lib (svc_c s) eid)"
    and ent: "\<And>i. lib_Entry lib c' i = (if i = eid then
       \<lparr>entry_ID = eid, entry_Schedule = Some sch, entry_Job = Some j\<rparr> else lib_Entry lib (svc_c s) i)"
    by metis
  let ?s' = "Add_locked (s\<lparr>svc_c := c'\<rparr>) x y z eid"
  have old: "i \<noteq> eid" if "lookup3 (svc_m s) k = Some i" for k i
    using ok_entry [OF ok that] fresh by (metis entry_Valid_def cron_entry.select_convs(1))
  have "svc_ok lib ?s'"
  proof (rule svc_okI [OF C])
    have "gauge_exact (s\<lparr>svc_c := c'\<rparr>)"
      using ok_gauge [OF ok] by (simp add: gauge_exact_def)
    then show "index_ok (svc_m ?s')" and "gauge_exact ?s'"
      using ok_index [OF ok] free by (simp_all add: index_ok_Add_locked Add_locked_gauge)
  next
    fix k i assume k: "lookup3 (svc_m ?s') k = Some i"
    show "i \<noteq> 0 \<and> (\<exists>sch j. lib_Entry lib (svc_c ?s') i =
        \<lparr>entry_ID = i, entry_Schedule = Some sch, entry_Job = Some j\<rparr>)"
    proof (cases "k = (x, y, z)")
      case True
      with k \<open>eid \<noteq> 0\<close> show ?thesis by (auto simp: ent)
    next
      case False
      with k have k': "lookup3 (svc_m s) k = Some i" by simp
      with ok_entry [OF ok k'] old [OF k'] show ?thesis by (simp add: ent) metis
    qed
  next
    fix k k' i assume "lookup3 (svc_m ?s') k = Some i" and "lookup3 (svc_m ?s') k' = Some i"
    then show "k = k'"
      using ok_unique [OF ok, of k i k'] old [of k i] old [of k' i] by (auto split: if_splits)
  next
    fix i assume "entry_Valid (lib_Entry lib (svc_c ?s') i)"
    then show "\<exists>k. lookup3 (svc_m ?s') k = Some i"
      using ok_registered [OF ok, of i] ent free by (cases "i = eid") (auto, metis option.distinct(1))
  qed
  with add show ?thesis by (simp add: Add_def)
qed

text \<open>Updating a spec: what a successful call does to index and entries.\<close>

lemma UpdateCronSpec_None:
  "lookup3 (svc_m s) (x, y, z) = None \<Longrightarrow> UpdateCronSpec lib s x y z spec = (s, False)"
  by (auto simp: UpdateCronSpec_def lookup3_def midx_def split: option.splits)

lemma UpdateCronSpec_invalid:
  "lib_ParseStandard lib spec = Inl e \<Longrightarrow> UpdateCronSpec lib s x y z spec = (s, False)"
  by (auto simp: UpdateCronSpec_def Let_def split: option.splits)

lemma UpdateCronSpec_Some:
  assumes ok: "svc_ok lib s" and reg: "lookup3 (svc_m s) (x, y, z) = Some eid"
    and parse: "lib_ParseStandard lib spec = Inr sch"
  obtains s' new j sch0 where "UpdateCronSpec lib s x y z spec = (s', True)"
    and "lib_Entry lib (svc_c s) eid = \<lparr>entry_ID = eid, entry_Schedule = Some sch0, entry_Job = Some j\<rparr>"
    and "new \<noteq> 0" and "new \<noteq> eid" and "\<not> entry_Valid (lib_Entry lib (svc_c s) new)"
    and "\<And>k. lookup3 (svc_m s') k = (if k = (x, y, z) then Some new else lookup3 (svc_m s) k)"
    and "lib_Entry lib (svc_c s') new = \<lparr>entry_ID = new, entry_Schedule = Some sch, entry_Job = Some j\<rparr>"
    and "\<not> entry_Valid (lib_Entry lib (svc_c s') eid)"
    and "\<And>i. i \<noteq> new \<Longrightarrow> i \<noteq> eid \<Longrightarrow> lib_Entry lib (svc_c s') i = lib_Entry lib (svc_c s) i"
    and "index_ok (svc_m s')" and "gauge_exact s'"
proof -
  note C = ok_contract [OF ok]
  obtain j sch0 where e: "lib_Entry lib (svc_c s) eid =
      \<lparr>entry_ID = eid, entry_Schedule = Some sch0, entry_Job = Some j\<rparr>" and "eid \<noteq> 0"
    using ok_entry [OF ok reg] by metis
  from contract_AddJob [OF C parse, of "svc_c s" j] obtain new c' where
    add: "lib_AddJob lib (svc_c s) spec j = Inr (new, c')" and "new \<noteq> 0"
    and fresh: "\<not> entry_Valid (lib_Entry lib (svc_c s) new)"
    and ent: "\<And>i. lib_Entry lib c' i = (if i = new then
       \<lparr>entry_ID = new, entry_Schedule = Some sch, entry_Job = Some j\<rparr> else lib_Entry lib (svc_c s) i)"
    by metis
  let ?m = "svc_m s"
  let ?s' = "s\<lparr>svc_m := mput x (mput y (mput z new (midx (midx ?m x) y)) (midx ?m x)) ?m,
               svc_c := lib_Remove lib c' eid\<rparr>"
  from reg obtain actions resources where
    m: "mget ?m x = Some actions" "mget actions y = Some resources" "mget resources z = Some eid"
    by (auto simp: lookup3_def midx_def split: option.splits)
  have "UpdateCronSpec lib s x y z spec = (?s', True)"
    using m e parse add \<open>eid \<noteq> 0\<close> by (simp add: UpdateCronSpec_def Get_def midx_def)
  moreover have "new \<noteq> eid"
    using e fresh \<open>eid \<noteq> 0\<close> by (auto simp: entry_Valid_def)
  moreover have "lookup3 (svc_m ?s') k = (if k = (x, y, z) then Some new else lookup3 ?m k)" for k
    by (cases k) (auto simp: lookup3_def)
  moreover have "index_ok (svc_m ?s')"
    using ok_index [OF ok] by (auto simp: index_ok_def)
  moreover have "gauge_exact ?s'"
    using ok_gauge [OF ok] m by (auto simp: gauge_exact_def length_mput midx_def)
  ultimately show ?thesis
    using that [of ?s' sch0 j new] e \<open>new \<noteq> 0\<close> fresh contract_Remove [OF C] ent by simp
qed

lemma UpdateCronSpec_ok:
  assumes ok: "svc_ok lib s"
  shows "svc_ok lib (fst (UpdateCronSpec lib s x y z spec))"
proof (cases "lookup3 (svc_m s) (x, y, z)")
  case None
  with ok show ?thesis by (simp add: UpdateCronSpec_None)
next
  case reg: (Some eid)
  show ?thesis
  proof (cases "lib_ParseStandard lib spec")
    case (Inl e)
    with ok show ?thesis by (simp add: UpdateCronSpec_invalid)
  next
    case (Inr sch)
    obtain s' new j sch0 where
      upd: "UpdateCronSpec lib s x y z spec = (s', True)"
      and e0: "lib_Entry lib (svc_c s) eid = \<lparr>entry_ID = eid, entry_Schedule = Some sch0, entry_Job = Some j\<rparr>"
      and new: "new \<noteq> 0" "new \<noteq> eid" "\<not> entry_Valid (lib_Entry lib (svc_c s) new)"
      and look: "\<And>k. lookup3 (svc_m s') k = (if k = (x, y, z) then Some new else lookup3 (svc_m s) k)"
      and en: "lib_Entry lib (svc_c s') new = \<lparr>entry_ID = new, entry_Schedule = Some sch, entry_Job = Some j\<rparr>"
      and gone: "\<not> entry_Valid (lib_Entry lib (svc_c s') eid)"
      and rest: "\<And>i. i \<noteq> new \<Longrightarrow> i \<noteq> eid \<Longrightarrow> lib_Entry lib (svc_c s') i = lib_Entry lib (svc_c s) i"
      and ix: "index_ok (svc_m s')" and g: "gauge_exact s'"
      by (rule UpdateCronSpec_Some [OF ok reg Inr]) (rule that)
    have keep: "i \<noteq> new \<and> i \<noteq> eid" if "lookup3 (svc_m s) k = Some i" "k \<noteq> (x, y, z)" for k i
      using ok_entry [OF ok that(1)] ok_unique [OF ok that(1), of "(x, y, z)"] reg new(3) that(2)
      by (metis entry_Valid_def cron_entry.select_convs(1))
    have "svc_ok lib s'"
    proof (rule svc_okI [OF ok_contract [OF ok] ix g])
      fix k i assume k: "lookup3 (svc_m s') k = Some i"
      show "i \<noteq> 0 \<and> (\<exists>sch j. lib_Entry lib (svc_c s') i =
          \<lparr>entry_ID = i, entry_Schedule = Some sch, entry_Job = Some j\<rparr>)"
      proof (cases "k = (x, y, z)")
        case True
        with k new(1) en show ?thesis by (simp add: look)
      next
        case False
        with k have k': "lookup3 (svc_m s) k = Some i" by (simp add: look)
        from ok_entry [OF ok k'] rest keep [OF k' False] show ?thesis by metis
      qed
    next
      fix k k' i assume "lookup3 (svc_m s') k = Some i" and "lookup3 (svc_m s') k' = Some i"
      then show "k = k'"
        using ok_unique [OF ok, of k i k'] keep [of k i] keep [of k' i] by (auto simp: look split: if_splits)
    next
      fix i assume v: "entry_Valid (lib_Entry lib (svc_c s') i)"
      show "\<exists>k. lookup3 (svc_m s') k = Some i"
      proof (cases "i = new")
        case True
        then show ?thesis by (intro exI [of _ "(x, y, z)"]) (simp add: look)
      next
        case False
        with v gone rest obtain k where "lookup3 (svc_m s) k = Some i" "i \<noteq> eid"
          using ok_registered [OF ok] by metis
        with reg show ?thesis by (intro exI [of _ k]) (auto simp: look)
      qed
    qed
    with upd show ?thesis by simp
  qed
qed

end
