(* ===== verification/Cron_Registry.thy ===== *)
theory Cron_Registry
  imports Cron_Service
begin

text \<open>
  The contract of the schedule service towards the controllers: a registry that maps
  (schedule, action, resource) to a parsed schedule and a job. A locale states the laws of
  inserting and deleting under a key, the service is an interpretation of it, and the loops
  of the service are proved as its clients. Sequences of operations refine sequences of
  registry updates.
\<close>

section \<open>The registry contract\<close>

locale keyed_registry =
  fixes invar :: "'st \<Rightarrow> bool"
    and view :: "'st \<Rightarrow> 'k \<Rightarrow> 'v option"
    and accept :: "'a \<Rightarrow> 'v option"
    and insert :: "'st \<Rightarrow> 'k \<Rightarrow> 'a \<Rightarrow> 'st"
    and delete :: "'st \<Rightarrow> 'k \<Rightarrow> 'st"
  assumes view_delete: "invar s \<Longrightarrow> view (delete s k) = (view s)(k := None)"
    and invar_delete: "invar s \<Longrightarrow> invar (delete s k)"
    and view_insert: "invar s \<Longrightarrow> view s k = None \<Longrightarrow> accept a = Some v \<Longrightarrow>
      view (insert s k a) = (view s)(k \<mapsto> v)"
    and insert_refused: "invar s \<Longrightarrow> accept a = None \<Longrightarrow> insert s k a = s"
    and invar_insert: "invar s \<Longrightarrow> view s k = None \<Longrightarrow> invar (insert s k a)"
begin

lemma invar_delete_all: "invar s \<Longrightarrow> invar (fold (\<lambda>k s. delete s k) ks s)"
  by (induction ks arbitrary: s) (auto simp: invar_delete)

lemma view_delete_all:
  "invar s \<Longrightarrow> view (fold (\<lambda>k s. delete s k) ks s) k = (if k \<in> set ks then None else view s k)"
  by (induction ks arbitrary: s) (auto simp: invar_delete view_delete)

lemma delete_after_insert:
  "invar s \<Longrightarrow> view s k = None \<Longrightarrow> view (delete (insert s k a) k) = view s"
  by (cases "accept a") (auto simp: insert_refused view_delete view_insert invar_insert)

end

section \<open>The service as a registry\<close>

definition registry :: "('c, 'j, 's) cron_lib \<Rightarrow> 'c schedule_service \<Rightarrow> cron_key \<Rightarrow> ('s \<times> 'j) option" where
  "registry lib s k =
     (case lookup3 (svc_m s) k of
        None \<Rightarrow> None
      | Some eid \<Rightarrow> (case (entry_Schedule (Get lib s eid), entry_Job (Get lib s eid)) of
          (Some sch, Some j) \<Rightarrow> Some (sch, j)
        | _ \<Rightarrow> None))"

definition parse_job :: "('c, 'j, 's) cron_lib \<Rightarrow> string \<times> 'j \<Rightarrow> ('s \<times> 'j) option" where
  "parse_job lib a =
     (case lib_ParseStandard lib (fst a) of Inl e \<Rightarrow> None | Inr sch \<Rightarrow> Some (sch, snd a))"

definition remove_key :: "('c, 'j, 's) cron_lib \<Rightarrow> 'c schedule_service \<Rightarrow> cron_key \<Rightarrow> 'c schedule_service" where
  "remove_key lib s k = (case k of (x, y, z) \<Rightarrow> removeLocked lib s x y z)"

definition add_key :: "('c, 'j, 's) cron_lib \<Rightarrow> 'c schedule_service \<Rightarrow> cron_key \<Rightarrow> string \<times> 'j \<Rightarrow>
    'c schedule_service" where
  "add_key lib s k a = (case k of (x, y, z) \<Rightarrow> snd (Add lib s x y z (fst a) (snd a)))"

lemma registry_None_iff: "svc_ok lib s \<Longrightarrow> registry lib s k = None \<longleftrightarrow> lookup3 (svc_m s) k = None"
  by (cases "lookup3 (svc_m s) k") (auto simp: registry_def Get_def elim!: ok_entry)

lemma registry_removeLocked:
  assumes ok: "svc_ok lib s"
  shows "registry lib (removeLocked lib s x y z) = (registry lib s)((x, y, z) := None)"
proof
  fix k
  show "registry lib (removeLocked lib s x y z) k = ((registry lib s)((x, y, z) := None)) k"
  proof (cases "lookup3 (svc_m s) (x, y, z)")
    case None
    then show ?thesis by (simp add: removeLocked_eq registry_def)
  next
    case (Some eid)
    have "lib_Entry lib (lib_Remove lib (svc_c s) eid) i = lib_Entry lib (svc_c s) i"
      if "lookup3 (svc_m s) k = Some i" "k \<noteq> (x, y, z)" for i
      using ok_unique [OF ok that(1), of "(x, y, z)"] Some that
        contract_Remove(2) [OF ok_contract [OF ok]] by metis
    moreover have "svc_c (removeLocked lib s x y z) = lib_Remove lib (svc_c s) eid"
      by (simp add: removeLocked_eq Some)
    ultimately show ?thesis
      by (auto simp: registry_def Get_def split: option.splits)
  qed
qed

lemma registry_Add:
  assumes ok: "svc_ok lib s" and parse: "lib_ParseStandard lib spec = Inr sch"
  shows "registry lib (snd (Add lib s x y z spec j)) = (registry lib s)((x, y, z) \<mapsto> (sch, j))"
proof
  fix k
  from contract_AddJob [OF ok_contract [OF ok] parse, of "svc_c s" j] obtain eid c' where
    add: "lib_AddJob lib (svc_c s) spec j = Inr (eid, c')"
    and fresh: "\<not> entry_Valid (lib_Entry lib (svc_c s) eid)"
    and ent: "\<And>i. lib_Entry lib c' i = (if i = eid then
       \<lparr>entry_ID = eid, entry_Schedule = Some sch, entry_Job = Some j\<rparr> else lib_Entry lib (svc_c s) i)"
    by metis
  have "i \<noteq> eid" if "lookup3 (svc_m s) k = Some i" for i
    using ok_entry [OF ok that] fresh by (metis entry_Valid_def cron_entry.select_convs(1))
  then show "registry lib (snd (Add lib s x y z spec j)) k = ((registry lib s)((x, y, z) \<mapsto> (sch, j))) k"
    by (auto simp: registry_def Add_def add Get_def ent split: option.splits)
qed

lemma Add_refused: "svc_ok lib s \<Longrightarrow> lib_ParseStandard lib spec = Inl e \<Longrightarrow> Add lib s x y z spec j = (Inl e, s)"
  by (simp add: Add_def contract_AddJob_Inl [OF ok_contract])

interpretation cron: keyed_registry "svc_ok lib" "registry lib" "parse_job lib" "add_key lib" "remove_key lib"
  for lib :: "('c, 'j, 's) cron_lib"
proof unfold_locales
  fix s k and a :: "string \<times> 'j" and v
  assume ok: "svc_ok lib s"
  show "registry lib (remove_key lib s k) = (registry lib s)(k := None)"
    using registry_removeLocked [OF ok] by (simp add: remove_key_def split: prod.splits)
  show "svc_ok lib (remove_key lib s k)"
    using removeLocked_ok [OF ok] by (simp add: remove_key_def split: prod.splits)
  show "add_key lib s k a = s" if "parse_job lib a = None"
    using that Add_refused [OF ok]
    by (auto simp: parse_job_def add_key_def split: prod.splits sum.splits)
  show "svc_ok lib (add_key lib s k a)" if "registry lib s k = None"
    using that Add_ok [OF ok] by (auto simp: add_key_def registry_None_iff [OF ok] split: prod.splits)
  show "registry lib (add_key lib s k a) = (registry lib s)(k \<mapsto> v)"
    if "registry lib s k = None" "parse_job lib a = Some v"
    using that registry_Add [OF ok]
    by (auto simp: parse_job_def add_key_def split: prod.splits sum.splits)
qed

section \<open>The loops of the service as clients\<close>

lemma remove_below_schedule_state:
  "fst (remove_below_schedule lib x z ys (s, removed)) =
     fold (\<lambda>k s. remove_key lib s k) (map (\<lambda>y. (x, y, z)) ys) s"
proof (induction ys arbitrary: s removed)
  case (Cons y ys)
  have "removeLocked lib s x y z = s" if "mget (midx (midx (svc_m s) x) y) z = None"
    using that by (simp add: removeLocked_eq lookup3_def)
  with Cons show ?case
    by (simp add: remove_key_def)
qed simp

lemma remove_below_schedule_removed:
  "distinct ys \<Longrightarrow> snd (remove_below_schedule lib x z ys (s, removed)) =
     removed @ filter (\<lambda>y. lookup3 (svc_m s) (x, y, z) \<noteq> None) ys"
proof (induction ys arbitrary: s removed)
  case (Cons y ys)
  have "filter (\<lambda>y'. lookup3 (svc_m (removeLocked lib s x y z)) (x, y', z) \<noteq> None) ys =
      filter (\<lambda>y'. lookup3 (svc_m s) (x, y', z) \<noteq> None) ys"
    using Cons.prems by (auto intro!: filter_cong)
  moreover have "lookup3 (svc_m s) (x, y, z) = mget (midx (midx (svc_m s) x) y) z"
    by (simp add: lookup3_def)
  ultimately show ?case
    using Cons by simp
qed simp

lemma remove_below_schedule_ok:
  "svc_ok lib s \<Longrightarrow> svc_ok lib (fst (remove_below_schedule lib x z ys (s, removed)))"
  by (simp add: remove_below_schedule_state cron.invar_delete_all)

lemma remove_below_schedule_registry:
  assumes ok: "svc_ok lib s" and ys: "set ys = set (mkeys (midx (svc_m s) x))"
  shows "registry lib (fst (remove_below_schedule lib x z ys (s, removed))) (a, b, c) =
    (if a = x \<and> c = z then None else registry lib s (a, b, c))"
proof -
  have "registry lib s (x, b, z) = None" if "b \<notin> set ys"
    using that lookup3_SomeD(2) [of "svc_m s" x b z] registry_None_iff [OF ok, of "(x, b, z)"] ys
    by (metis not_Some_eq)
  then show ?thesis
    by (auto simp: remove_below_schedule_state cron.view_delete_all [OF ok])
qed

lemma remove_resource_loop_spec:
  assumes "svc_ok lib s"
  shows "svc_ok lib (remove_resource_loop lib ord z xs s) \<and>
    (\<forall>a b c. registry lib (remove_resource_loop lib ord z xs s) (a, b, c) =
      (if c = z \<and> a \<in> set xs then None else registry lib s (a, b, c)))"
  using assms
proof (induction xs arbitrary: s)
  case (Cons x xs)
  let ?ys = "visit ord [''RemoveResource'', x] (mkeys (midx (svc_m s) x))"
  let ?t = "fst (remove_below_schedule lib x z ?ys (s, []))"
  have "registry lib ?t (a, b, c) = (if a = x \<and> c = z then None else registry lib s (a, b, c))" for a b c
    using Cons.prems by (rule remove_below_schedule_registry) simp
  moreover have "svc_ok lib ?t"
    using Cons.prems by (rule remove_below_schedule_ok)
  ultimately show ?case
    using Cons.IH [of ?t] by (auto simp del: map_fst_zip)
qed simp

lemma RemoveResource_ok: "svc_ok lib s \<Longrightarrow> svc_ok lib (RemoveResource lib ord s z)"
  by (simp add: RemoveResource_def remove_resource_loop_spec)

lemma registered_schedule: "svc_ok lib s \<Longrightarrow> registry lib s (a, b, c) \<noteq> None \<Longrightarrow> a \<in> set (mkeys (svc_m s))"
  using registry_None_iff [of lib s "(a, b, c)"] lookup3_SomeD(1) [of "svc_m s" a b c] by (metis not_Some_eq)

lemma unregistered_schedule: "svc_ok lib s \<Longrightarrow> a \<notin> set (mkeys (svc_m s)) \<Longrightarrow> registry lib s (a, b, c) = None"
  using registered_schedule [of lib s a b c] by blast

lemma registry_RemoveResource:
  assumes "svc_ok lib s"
  shows "registry lib (RemoveResource lib ord s z) (a, b, c) = (if c = z then None else registry lib s (a, b, c))"
  using remove_resource_loop_spec [OF assms, of ord z "visit ord [''RemoveResource''] (mkeys (svc_m s))"]
    unregistered_schedule [OF assms, of a b c]
  by (auto simp: RemoveResource_def)

lemma remove_non_current_spec:
  assumes "svc_ok lib s" and "distinct xs"
  shows "svc_ok lib (fst (remove_non_current lib ord cur z xs (s, rm))) \<and>
    (\<forall>a b c. registry lib (fst (remove_non_current lib ord cur z xs (s, rm))) (a, b, c) =
      (if c = z \<and> a \<in> set xs \<and> a \<noteq> cur then None else registry lib s (a, b, c))) \<and>
    set (snd (remove_non_current lib ord cur z xs (s, rm))) =
      set rm \<union> {b. \<exists>a \<in> set xs. a \<noteq> cur \<and> registry lib s (a, b, z) \<noteq> None}"
  using assms
proof (induction xs arbitrary: s rm)
  case (Cons x xs)
  let ?ys = "visit ord [''NonCurrent'', x] (mkeys (midx (svc_m s) x))"
  obtain t rm' where t: "remove_below_schedule lib x z ?ys (s, rm) = (t, rm')"
    by (cases "remove_below_schedule lib x z ?ys (s, rm)")
  have ok: "svc_ok lib t"
    using remove_below_schedule_ok [OF Cons.prems(1), of x z ?ys rm] by (simp add: t)
  have reg: "registry lib t (a, b, c) = (if a = x \<and> c = z then None else registry lib s (a, b, c))" for a b c
    using remove_below_schedule_registry [OF Cons.prems(1), of ?ys x z rm a b c] by (simp add: t)
  have "distinct ?ys"
    using ok_index [OF Cons.prems(1)] by (simp add: index_ok_def)
  then have rm': "set rm' = set rm \<union> {b. registry lib s (x, b, z) \<noteq> None}"
    using remove_below_schedule_removed [of ?ys lib x z s rm] registry_None_iff [OF Cons.prems(1)]
      lookup3_SomeD(2) [of "svc_m s" x _ z]
    by (force simp: t)
  show ?case
    using Cons.IH [OF ok, of rm'] Cons.IH [OF Cons.prems(1), of rm] Cons.prems(2)
    by (auto simp: t reg rm')
qed simp

lemma NonCurrent_spec:
  assumes ok: "svc_ok lib s"
    and r: "RemoveActionsOfResourceFromNonCurrentSchedule lib ord s cur z = (t, removed)"
  shows "svc_ok lib t"
    and "registry lib t (a, b, c) = (if c = z \<and> a \<noteq> cur then None else registry lib s (a, b, c))"
    and "set removed = {b. \<exists>a. a \<noteq> cur \<and> registry lib s (a, b, z) \<noteq> None}"
proof -
  let ?xs = "visit ord [''NonCurrent''] (mkeys (svc_m s))"
  have "distinct ?xs"
    using ok_index [OF ok] by (simp add: index_ok_def)
  note sp = remove_non_current_spec [OF ok this, of ord cur z "[]"]
  have r': "remove_non_current lib ord cur z ?xs (s, []) = (t, removed)"
    using r by (simp add: RemoveActionsOfResourceFromNonCurrentSchedule_def)
  from sp show "svc_ok lib t"
    by (simp add: r')
  from sp show "registry lib t (a, b, c) = (if c = z \<and> a \<noteq> cur then None else registry lib s (a, b, c))"
    using unregistered_schedule [OF ok, of a b c] by (auto simp: r')
  have "(\<exists>a \<in> set ?xs. a \<noteq> cur \<and> registry lib s (a, b, z) \<noteq> None) \<longleftrightarrow>
      (\<exists>a. a \<noteq> cur \<and> registry lib s (a, b, z) \<noteq> None)" for b
    using registered_schedule [OF ok] unfolding set_visit by blast
  with sp show "set removed = {b. \<exists>a. a \<noteq> cur \<and> registry lib s (a, b, z) \<noteq> None}"
    by (simp only: r' snd_conv list.set(1) Un_empty_left)
qed

section \<open>Reading the index\<close>

lemma mget_GetActionsOfResource:
  "mget (GetActionsOfResource ord s x z) y = lookup3 (svc_m s) (x, y, z)"
proof (cases "mget (svc_m s) x")
  case (Some actions)
  then have "midx (svc_m s) x = actions"
    by (simp add: midx_def)
  moreover have "mget (midx actions y) z = None" if "y \<notin> set (mkeys actions)"
    using that by (simp add: midx_None mem_mkeys_iff [symmetric] map_of_eq_None_iff)
  ultimately show ?thesis
    using Some by (auto simp: GetActionsOfResource_def mget_fold_mput_option lookup3_def split: option.splits)
qed (simp add: GetActionsOfResource_def lookup3_def midx_None)

lemma GetActionsOfResource_ok: "gomap_ok (GetActionsOfResource ord s x z)"
  by (auto simp: GetActionsOfResource_def intro: gomap_ok_fold_mput_option split: option.splits)

lemma mget_GetActions:
  "mget (midx (GetActions ord s x) y) z = lookup3 (svc_m s) (x, y, z)"
proof (cases "mget (svc_m s) x")
  case (Some actions)
  then have a: "midx (svc_m s) x = actions"
    by (simp add: midx_def)
  let ?copy = "\<lambda>y. fold (\<lambda>res. mput res (case mget (midx actions y) res of None \<Rightarrow> 0 | Some eid \<Rightarrow> eid))
                 (visit ord [''GetActions'', y] (mkeys (midx actions y))) []"
  have copy: "mget (?copy y) z = mget (midx actions y) z"
  proof (cases "mget (midx actions y) z")
    case None
    then have "z \<notin> set (mkeys (midx actions y))"
      by (simp add: map_of_eq_None_iff)
    with None show ?thesis by (simp add: mget_fold_mput)
  next
    case (Some eid)
    then have "z \<in> set (mkeys (midx actions y))"
      unfolding mem_mkeys_iff by simp
    with Some show ?thesis by (simp add: mget_fold_mput)
  qed
  have "midx (GetActions ord s x) y = (if y \<in> set (mkeys actions) then ?copy y else [])"
    by (simp add: GetActions_def Some midx_def mget_fold_mput)
  moreover have "midx actions y = []" if "y \<notin> set (mkeys actions)"
    using that by (simp add: midx_None map_of_eq_None_iff)
  ultimately show ?thesis
    using copy a by (auto simp: lookup3_def)
qed (simp add: GetActions_def lookup3_def midx_None)

section \<open>Sequences of operations\<close>

text \<open>
  The state-changing operations as data, their effect on the service, and what the same
  operation means for an abstract registry. Registering is used by the controllers on free
  keys only (\<open>enabled\<close>).
\<close>

datatype 'j cron_op =
    AddOp cron_key string 'j
  | RemoveOp cron_key
  | NonCurrentOp string string
  | ResourceOp string
  | UpdateOp cron_key string

fun exec_op :: "('c, 'j, 's) cron_lib \<Rightarrow> range_order \<Rightarrow> 'c schedule_service \<Rightarrow> 'j cron_op \<Rightarrow> 'c schedule_service" where
  "exec_op lib ord s (AddOp (x, y, z) spec j) = snd (Add lib s x y z spec j)"
| "exec_op lib ord s (RemoveOp (x, y, z)) = Remove lib s x y z"
| "exec_op lib ord s (NonCurrentOp cur z) = fst (RemoveActionsOfResourceFromNonCurrentSchedule lib ord s cur z)"
| "exec_op lib ord s (ResourceOp z) = RemoveResource lib ord s z"
| "exec_op lib ord s (UpdateOp (x, y, z) spec) = fst (UpdateCronSpec lib s x y z spec)"

fun spec_op :: "(string \<Rightarrow> go_error + 's) \<Rightarrow> (cron_key \<Rightarrow> ('s \<times> 'j) option) \<Rightarrow> 'j cron_op \<Rightarrow> cron_key \<Rightarrow> ('s \<times> 'j) option" where
  "spec_op parse R (AddOp k spec j) =
     (case parse spec of Inl e \<Rightarrow> R | Inr sch \<Rightarrow> R(k \<mapsto> (sch, j)))"
| "spec_op parse R (RemoveOp k) = R(k := None)"
| "spec_op parse R (NonCurrentOp cur z) = (\<lambda>k. if snd (snd k) = z \<and> fst k \<noteq> cur then None else R k)"
| "spec_op parse R (ResourceOp z) = (\<lambda>k. if snd (snd k) = z then None else R k)"
| "spec_op parse R (UpdateOp k spec) =
     (case (R k, parse spec) of
        (Some (sch0, j), Inr sch) \<Rightarrow> R(k \<mapsto> (sch, j))
      | _ \<Rightarrow> R)"

fun enabled :: "(cron_key \<Rightarrow> ('s \<times> 'j) option) \<Rightarrow> 'j cron_op \<Rightarrow> bool" where
  "enabled R (AddOp k spec j) \<longleftrightarrow> R k = None"
| "enabled R _ \<longleftrightarrow> True"

fun exec_ops :: "('c, 'j, 's) cron_lib \<Rightarrow> 'c schedule_service \<Rightarrow> (range_order \<times> 'j cron_op) list \<Rightarrow> 'c schedule_service" where
  "exec_ops lib s [] = s"
| "exec_ops lib s ((ord, op) # ops) = exec_ops lib (exec_op lib ord s op) ops"

fun spec_ops :: "(string \<Rightarrow> go_error + 's) \<Rightarrow> (cron_key \<Rightarrow> ('s \<times> 'j) option) \<Rightarrow>
    (range_order \<times> 'j cron_op) list \<Rightarrow> cron_key \<Rightarrow> ('s \<times> 'j) option" where
  "spec_ops parse R [] = R"
| "spec_ops parse R ((ord, op) # ops) = spec_ops parse (spec_op parse R op) ops"

fun all_enabled :: "(string \<Rightarrow> go_error + 's) \<Rightarrow> (cron_key \<Rightarrow> ('s \<times> 'j) option) \<Rightarrow>
    (range_order \<times> 'j cron_op) list \<Rightarrow> bool" where
  "all_enabled parse R [] \<longleftrightarrow> True"
| "all_enabled parse R ((ord, op) # ops) \<longleftrightarrow> enabled R op \<and> all_enabled parse (spec_op parse R op) ops"

lemma registry_UpdateCronSpec:
  assumes ok: "svc_ok lib s"
  shows "registry lib (fst (UpdateCronSpec lib s x y z spec)) =
    spec_op (lib_ParseStandard lib) (registry lib s) (UpdateOp (x, y, z) spec)"
proof (cases "lookup3 (svc_m s) (x, y, z)")
  case None
  with registry_None_iff [OF ok, of "(x, y, z)"] show ?thesis by (simp add: UpdateCronSpec_None)
next
  case reg: (Some eid)
  show ?thesis
  proof (cases "lib_ParseStandard lib spec")
    case (Inl e)
    then show ?thesis by (auto simp: UpdateCronSpec_invalid split: option.splits)
  next
    case (Inr sch)
    obtain s' new j sch0 where
      upd: "UpdateCronSpec lib s x y z spec = (s', True)"
      and e0: "lib_Entry lib (svc_c s) eid = \<lparr>entry_ID = eid, entry_Schedule = Some sch0, entry_Job = Some j\<rparr>"
      and new: "new \<noteq> 0" "new \<noteq> eid" "\<not> entry_Valid (lib_Entry lib (svc_c s) new)"
      and look: "\<And>k. lookup3 (svc_m s') k = (if k = (x, y, z) then Some new else lookup3 (svc_m s) k)"
      and en: "lib_Entry lib (svc_c s') new = \<lparr>entry_ID = new, entry_Schedule = Some sch, entry_Job = Some j\<rparr>"
      and gone: "\<not> entry_Valid (lib_Entry lib (svc_c s') eid)"
      and rest: "\<And>i. i \<noteq> new \<Longrightarrow> i \<noteq> eid \<Longrightarrow> lib_Entry lib (svc_c s') i = lib_Entry lib (svc_c s) i"
      and ix: "index_ok (svc_m s')" and g: "gauge_exact s'"
      by (rule UpdateCronSpec_Some [OF ok reg Inr]) (rule that)
    have "i \<noteq> new \<and> i \<noteq> eid" if "lookup3 (svc_m s) k = Some i" "k \<noteq> (x, y, z)" for k i
      using ok_entry [OF ok that(1)] ok_unique [OF ok that(1), of "(x, y, z)"] reg new(3) that(2)
      by (metis entry_Valid_def cron_entry.select_convs(1))
    then have "registry lib s' k = ((registry lib s)((x, y, z) \<mapsto> (sch, j))) k" for k
      using rest by (auto simp: registry_def Get_def look en split: option.splits)
    moreover have "registry lib s (x, y, z) = Some (sch0, j)"
      by (simp add: registry_def Get_def reg e0)
    ultimately show ?thesis
      by (simp add: upd Inr fun_eq_iff)
  qed
qed

lemma exec_op_ok: "svc_ok lib s \<Longrightarrow> enabled (registry lib s) op \<Longrightarrow> svc_ok lib (exec_op lib ord s op)"
  by (cases "(lib, ord, s, op)" rule: exec_op.cases)
    (auto simp: Remove_def removeLocked_ok RemoveResource_ok UpdateCronSpec_ok Add_ok registry_None_iff
      intro: NonCurrent_spec(1) surjective_pairing)

lemma exec_op_refines:
  assumes ok: "svc_ok lib s"
  shows "registry lib (exec_op lib ord s op) = spec_op (lib_ParseStandard lib) (registry lib s) op"
proof (cases op)
  case (AddOp k spec j)
  then show ?thesis
    using ok by (cases k; cases "lib_ParseStandard lib spec") (simp_all add: registry_Add Add_refused)
next
  case (RemoveOp k)
  then show ?thesis
    using ok by (cases k) (simp add: Remove_def registry_removeLocked)
next
  case (NonCurrentOp cur z)
  then show ?thesis
    by (simp add: fun_eq_iff NonCurrent_spec(2) [OF ok surjective_pairing])
next
  case (ResourceOp z)
  then show ?thesis
    by (simp add: fun_eq_iff registry_RemoveResource [OF ok])
next
  case (UpdateOp k spec)
  then show ?thesis
    using ok by (cases k) (simp only: exec_op.simps registry_UpdateCronSpec)
qed

text \<open>One operation as a step; the service's invariant is an invariant of the step relation.\<close>

definition cron_step :: "('c, 'j, 's) cron_lib \<Rightarrow> 'c schedule_service \<Rightarrow> 'c schedule_service \<Rightarrow> bool" where
  "cron_step lib s t \<longleftrightarrow> (\<exists>ord op. enabled (registry lib s) op \<and> t = exec_op lib ord s op)"

interpretation cron_run: step_invariant "\<lambda>s. cron_contract lib \<and> s = New lib" "cron_step lib" "svc_ok lib"
  for lib :: "('c, 'j, 's) cron_lib"
  by unfold_locales (auto simp: cron_step_def svc_ok_New exec_op_ok)

lemma exec_ops_refine:
  assumes "svc_ok lib s" and "all_enabled (lib_ParseStandard lib) (registry lib s) ops"
  shows "svc_ok lib (exec_ops lib s ops) \<and>
    registry lib (exec_ops lib s ops) = spec_ops (lib_ParseStandard lib) (registry lib s) ops"
  using assms
proof (induction ops arbitrary: s)
  case (Cons p ops)
  obtain ord op where p: "p = (ord, op)"
    by (cases p)
  with Cons.prems have "svc_ok lib (exec_op lib ord s op)"
    by (simp add: exec_op_ok)
  with Cons show ?case
    by (simp add: p exec_op_refines)
qed simp

lemma registry_New [simp]: "registry lib (New lib) = Map.empty"
  by (simp add: registry_def New_def fun_eq_iff)

section \<open>A concrete library for the witnesses\<close>

text \<open>
  A Cron object as the list of its entries. Any non-empty spec parses, to itself; a new id is
  one above every id in use.
\<close>

definition next_id :: "(int \<times> 'v) list \<Rightarrow> int" where
  "next_id c = fold max (map fst c) 0 + 1"

definition list_cron :: "((int \<times> string \<times> 'j) list, 'j, string) cron_lib" where
  "list_cron =
     \<lparr>lib_ParseStandard = (\<lambda>spec. if spec = '''' then Inl (Err ''empty spec string'') else Inr spec),
      lib_AddJob = (\<lambda>c spec j. if spec = '''' then Inl (Err ''empty spec string'')
                     else Inr (next_id c, (next_id c, spec, j) # c)),
      lib_Remove = (\<lambda>c eid. filter (\<lambda>p. fst p \<noteq> eid) c),
      lib_Entry = (\<lambda>c eid. case map_of c eid of
          None \<Rightarrow> \<lparr>entry_ID = 0, entry_Schedule = None, entry_Job = None\<rparr>
        | Some (sch, j) \<Rightarrow> \<lparr>entry_ID = eid, entry_Schedule = Some sch, entry_Job = Some j\<rparr>),
      lib_New = []\<rparr>"

lemma fold_max_ge: "(m :: int) \<le> fold max xs m" and fold_max_mem: "x \<in> set xs \<Longrightarrow> x \<le> fold max xs m"
proof -
  show ge: "m \<le> fold max xs m" for m :: int and xs
    by (induction xs arbitrary: m) (auto intro: order_trans [OF max.cobounded2])
  show "x \<in> set xs \<Longrightarrow> x \<le> fold max xs m"
    by (induction xs arbitrary: m) (auto intro: order_trans [OF max.cobounded1 ge])
qed

lemma next_id_fresh: "map_of c (next_id c) = None" and next_id_pos: "0 < next_id c"
proof -
  have "next_id c \<notin> fst ` set c"
  proof
    assume "next_id c \<in> fst ` set c"
    then have "next_id c \<le> fold max (map fst c) 0"
      by (intro fold_max_mem) simp
    then show False by (simp add: next_id_def)
  qed
  then show "map_of c (next_id c) = None"
    by (simp add: map_of_eq_None_iff)
  show "0 < next_id c"
    using fold_max_ge [of 0 "map fst c"] by (simp add: next_id_def)
qed

lemma map_of_filter_neq: "map_of (filter (\<lambda>p. fst p \<noteq> k) c) i = (if i = k then None else map_of c i)"
  by (induction c) auto

lemma list_cron_contract: "cron_contract list_cron"
proof -
  have "next_id c \<noteq> 0" for c :: "(int \<times> string \<times> 'j) list"
    using next_id_pos [of c] by simp
  then show ?thesis
    by (auto simp: cron_contract_def list_cron_def entry_Valid_def next_id_fresh map_of_filter_neq
        split: option.splits)
qed

section \<open>Properties\<close>





text \<open>
  \<open>RemoveResource\<close> takes every registration of the resource out of the index and
  out of the Cron object, whatever the iteration order, and touches nothing else: afterwards
  every live cron entry is registered for another resource, and what is registered for
  another resource is what was registered before.
\<close>

theorem RemoveResource_complete:
  assumes "cron_contract lib" and "svc_inv lib s"
  shows "(\<forall>a b c. registry lib (RemoveResource lib ord s z) (a, b, c) =
      (if c = z then None else registry lib s (a, b, c))) \<and>
    (\<forall>eid. entry_Valid (Get lib (RemoveResource lib ord s z) eid) \<longrightarrow>
      (\<exists>a b c. c \<noteq> z \<and> lookup3 (svc_m (RemoveResource lib ord s z)) (a, b, c) = Some eid))"
proof (intro conjI allI impI)
  from assms have ok: "svc_ok lib s" by (simp add: svc_ok_def)
  show reg: "registry lib (RemoveResource lib ord s z) (a, b, c) =
      (if c = z then None else registry lib s (a, b, c))" for a b c
    by (simp add: registry_RemoveResource [OF ok])
  note ok' = RemoveResource_ok [OF ok, of ord z]
  fix eid assume "entry_Valid (Get lib (RemoveResource lib ord s z) eid)"
  then obtain a b c where k: "lookup3 (svc_m (RemoveResource lib ord s z)) (a, b, c) = Some eid"
    using ok_registered [OF ok', of eid] by (metis Get_def prod_cases3)
  with reg [of a b c] registry_None_iff [OF ok', of "(a, b, c)"] have "c \<noteq> z" by fastforce
  with k show "\<exists>a b c. c \<noteq> z \<and> lookup3 (svc_m (RemoveResource lib ord s z)) (a, b, c) = Some eid"
    by blast
qed

theorem RemoveResource_complete_witness:
  "registry list_cron (RemoveResource list_cron insertion_order
     (snd (Add list_cron (New list_cron) ''s'' ''a'' ''r'' ''@daily'' (0::nat))) ''r'') (''s'', ''a'', ''r'') = None"
proof -
  have "svc_ok list_cron (snd (Add list_cron (New list_cron) ''s'' ''a'' ''r'' ''@daily'' (0::nat)))"
    by (rule Add_ok [OF svc_ok_New [OF list_cron_contract]]) (simp add: New_def)
  then have "svc_inv list_cron (snd (Add list_cron (New list_cron) ''s'' ''a'' ''r'' ''@daily'' (0::nat)))"
    by (simp add: svc_ok_def)
  from RemoveResource_complete [OF list_cron_contract this, of insertion_order "''r''"] show ?thesis
    by simp
qed

text \<open>
  \<open>UpdateCronSpec\<close> succeeds exactly when the key is registered and the new spec
  parses; then the key has the new schedule and the same job, the old cron entry is gone and
  every other key and entry is as before. When it fails the service is unchanged.
\<close>

theorem UpdateCronSpec_correct:
  assumes "cron_contract lib" and "svc_inv lib s" and "UpdateCronSpec lib s x y z spec = (t, done)"
  shows "(done \<longleftrightarrow> registry lib s (x, y, z) \<noteq> None \<and> IsValidCron lib spec) \<and>
    (\<not> done \<longrightarrow> t = s) \<and>
    (\<forall>sch0 j sch. registry lib s (x, y, z) = Some (sch0, j) \<and> lib_ParseStandard lib spec = Inr sch \<longrightarrow>
       registry lib t = (registry lib s)((x, y, z) \<mapsto> (sch, j))) \<and>
    svc_inv lib t"
proof -
  from assms have ok: "svc_ok lib s" by (simp add: svc_ok_def)
  have "(done \<longleftrightarrow> registry lib s (x, y, z) \<noteq> None \<and> IsValidCron lib spec) \<and> (\<not> done \<longrightarrow> t = s)"
  proof (cases "lookup3 (svc_m s) (x, y, z)")
    case None
    then show ?thesis
      using registry_None_iff [OF ok] assms(3) by (simp add: UpdateCronSpec_None)
  next
    case (Some eid)
    then have "registry lib s (x, y, z) \<noteq> None"
      using registry_None_iff [OF ok, of "(x, y, z)"] by simp
    with Some assms(3) show ?thesis
      by (cases "lib_ParseStandard lib spec")
        (auto simp: UpdateCronSpec_invalid IsValidCron_def elim!: UpdateCronSpec_Some [OF ok])
  qed
  moreover have "registry lib t = spec_op (lib_ParseStandard lib) (registry lib s) (UpdateOp (x, y, z) spec)"
    using registry_UpdateCronSpec [OF ok, of x y z spec] assms(3) by simp
  moreover have "svc_inv lib t"
    using UpdateCronSpec_ok [OF ok, of x y z spec] assms(3) by (simp add: svc_ok_def)
  ultimately show ?thesis by auto
qed

theorem UpdateCronSpec_correct_witness:
  "let s = snd (Add list_cron (New list_cron) ''s'' ''a'' ''r'' ''@daily'' (0::nat))
   in registry list_cron (fst (UpdateCronSpec list_cron s ''s'' ''a'' ''r'' ''@hourly'')) (''s'', ''a'', ''r'') =
        Some (''@hourly'', 0)"
proof -
  let ?s = "snd (Add list_cron (New list_cron) ''s'' ''a'' ''r'' ''@daily'' (0::nat))"
  have ok: "svc_ok list_cron (New (list_cron :: (_, nat, _) cron_lib))"
    by (rule svc_ok_New [OF list_cron_contract])
  then have "svc_ok list_cron ?s"
    by (rule Add_ok) (simp add: New_def)
  then have inv: "svc_inv list_cron ?s"
    by (simp add: svc_ok_def)
  have "registry list_cron ?s (''s'', ''a'', ''r'') = Some (''@daily'', 0)"
    using ok by (subst registry_Add) (simp_all add: list_cron_def)
  moreover have "lib_ParseStandard (list_cron :: (_, nat, _) cron_lib) ''@hourly'' = Inr ''@hourly''"
    by (simp add: list_cron_def)
  ultimately show ?thesis
    using UpdateCronSpec_correct [OF list_cron_contract inv surjective_pairing, of "''s''" "''a''" "''r''" "''@hourly''"]
    by (simp add: Let_def)
qed

text \<open>
  \<open>GetActions\<close> and \<open>GetActionsOfResource\<close> return exactly the registered ids of a
  schedule, whatever the iteration order of the copies.
\<close>

theorem GetActions_exact:
  "mget (midx (GetActions ord s x) y) z = lookup3 (svc_m s) (x, y, z) \<and>
   mget (GetActionsOfResource ord s x z) y = lookup3 (svc_m s) (x, y, z)"
  by (simp add: mget_GetActions mget_GetActionsOfResource)

text \<open>
  \<open>RemoveActionsOfResourceFromNonCurrentSchedule\<close> leaves the resource registered
  under the current schedule only, keeps every other resource, keeps the invariant, and
  returns exactly the actions it removed.
\<close>

theorem NonCurrent_exact:
  assumes "cron_contract lib" and "svc_inv lib s"
    and "RemoveActionsOfResourceFromNonCurrentSchedule lib ord s cur z = (t, removed)"
  shows "svc_inv lib t \<and>
    (\<forall>a b c. registry lib t (a, b, c) = (if c = z \<and> a \<noteq> cur then None else registry lib s (a, b, c))) \<and>
    set removed = {b. \<exists>a. a \<noteq> cur \<and> registry lib s (a, b, z) \<noteq> None}"
proof -
  from assms(1,2) have ok: "svc_ok lib s" by (simp add: svc_ok_def)
  show ?thesis
    using NonCurrent_spec [OF ok assms(3)] by (simp add: svc_ok_def)
qed

theorem NonCurrent_exact_witness:
  "let r = RemoveActionsOfResourceFromNonCurrentSchedule list_cron insertion_order
       (snd (Add list_cron (New list_cron) ''old'' ''a'' ''r'' ''@daily'' (0::nat))) ''new'' ''r''
   in registry list_cron (fst r) (''old'', ''a'', ''r'') = None \<and> svc_inv list_cron (fst r)"
proof -
  have "svc_ok list_cron (snd (Add list_cron (New list_cron) ''old'' ''a'' ''r'' ''@daily'' (0::nat)))"
    by (rule Add_ok [OF svc_ok_New [OF list_cron_contract]]) (simp add: New_def)
  then have "svc_inv list_cron (snd (Add list_cron (New list_cron) ''old'' ''a'' ''r'' ''@daily'' (0::nat)))"
    by (simp add: svc_ok_def)
  from NonCurrent_exact [OF list_cron_contract this surjective_pairing, of insertion_order "''new''" "''r''"]
  show ?thesis by (simp add: Let_def)
qed

text \<open>
  Registering on an occupied key is not harmless: the index takes the new id, the
  old cron entry stays alive without being registered, and the gauge counts the key twice.
  The controllers must therefore register on free keys only.
\<close>

theorem Add_occupied_leaks:
  "let s1 = snd (Add list_cron (New list_cron) ''s'' ''a'' ''r'' ''@daily'' (0::nat));
       s2 = snd (Add list_cron s1 ''s'' ''a'' ''r'' ''@daily'' 0)
   in svc_inv list_cron s1 \<and> \<not> no_orphans list_cron s2 \<and> \<not> gauge_exact s2"
proof -
  let ?s1 = "snd (Add list_cron (New list_cron) ''s'' ''a'' ''r'' ''@daily'' (0::nat))"
  let ?s2 = "snd (Add list_cron ?s1 ''s'' ''a'' ''r'' ''@daily'' 0)"
  have "svc_ok list_cron ?s1"
    by (rule Add_ok [OF svc_ok_New [OF list_cron_contract]]) (simp add: New_def)
  then have inv: "svc_inv list_cron ?s1"
    by (simp add: svc_ok_def)
  have live: "entry_Valid (Get list_cron ?s2 1)"
    by (simp add: Get_def list_cron_def Add_def New_def Add_locked_def Let_def next_id_def entry_Valid_def)
  have lost: "lookup3 (svc_m ?s2) k \<noteq> Some 1" for k
    by (cases k) (simp add: list_cron_def Add_def New_def next_id_def lookup3_def Add_locked_def Let_def
        mensure_def midx_def)
  have g: "svc_gauge ?s2 ''s'' ''a'' = 2" "length (midx (midx (svc_m ?s2) ''s'') ''a'') = 1"
    by (simp_all add: list_cron_def Add_def New_def next_id_def Add_locked_def Let_def mensure_def midx_def)
  have "\<not> gauge_exact ?s2"
  proof
    assume "gauge_exact ?s2"
    then have "svc_gauge ?s2 ''s'' ''a'' = int (length (midx (midx (svc_m ?s2) ''s'') ''a''))"
      by (simp only: gauge_exact_def)
    with g show False by linarith
  qed
  moreover have "\<not> no_orphans list_cron ?s2"
    using live lost unfolding no_orphans_def Get_def by blast
  ultimately show ?thesis
    unfolding Let_def using inv by blast
qed

end
