(* ===== verification/Api_Types.thy ===== *)
theory Api_Types
  imports Go_Text
begin

text \<open>
  The API types of \<^verbatim>\<open>api/v1alpha1\<close>: schedules with their periods, status conditions,
  AWS credentials and the parts of Kubernetes objects every controller reads. A pointer
  field is an option, a Go map an association list, a point in time the number of
  nanoseconds since Go's zero time. The condition helpers of \<^verbatim>\<open>apimachinery\<close> are a
  parameter (\<open>meta_api\<close>) with their documented behaviour as \<open>meta_contract\<close>.
\<close>

section \<open>Status conditions\<close>

datatype cond_status = ConditionTrue | ConditionFalse

record condition =
  c_LastTransitionTime :: int
  c_Type :: string
  c_Status :: cond_status
  c_Reason :: string
  c_Message :: string

record meta_api =
  SetStatusCondition :: "condition list \<Rightarrow> condition \<Rightarrow> condition list"
  RemoveStatusCondition :: "condition list \<Rightarrow> string \<Rightarrow> condition list"

text \<open>What a reader of the status sees for a condition type.\<close>

definition cond_view :: "condition list \<Rightarrow> string \<Rightarrow> (cond_status \<times> string \<times> string) option" where
  "cond_view cs t =
     map_option (\<lambda>c. (c_Status c, c_Reason c, c_Message c)) (List.find (\<lambda>c. c_Type c = t) cs)"

definition meta_contract :: "meta_api \<Rightarrow> bool" where
  "meta_contract api \<longleftrightarrow>
     (\<forall>cs c t. cond_view (SetStatusCondition api cs c) t =
        (if t = c_Type c then Some (c_Status c, c_Reason c, c_Message c) else cond_view cs t)) \<and>
     (\<forall>cs ty t. cond_view (RemoveStatusCondition api cs ty) t =
        (if t = ty then None else cond_view cs t))"

lemma cond_view_Set:
  "meta_contract api \<Longrightarrow> cond_view (SetStatusCondition api cs c) t =
     (if t = c_Type c then Some (c_Status c, c_Reason c, c_Message c) else cond_view cs t)"
  by (simp add: meta_contract_def)

lemma cond_view_Remove:
  "meta_contract api \<Longrightarrow> cond_view (RemoveStatusCondition api cs ty) t = (if t = ty then None else cond_view cs t)"
  by (simp add: meta_contract_def)

lemma cond_view_Nil [simp]: "cond_view [] t = None"
  by (simp add: cond_view_def)

lemma cond_view_filter [simp]:
  "cond_view (filter (\<lambda>c. P (c_Type c)) cs) t = (if P t then cond_view cs t else None)"
  by (induction cs) (auto simp: cond_view_def)

text \<open>A concrete condition helper, for the witnesses.\<close>

definition keyed_meta :: meta_api where
  "keyed_meta = \<lparr>SetStatusCondition = (\<lambda>cs c. filter (\<lambda>d. c_Type d \<noteq> c_Type c) cs @ [c]),
                 RemoveStatusCondition = (\<lambda>cs t. filter (\<lambda>d. c_Type d \<noteq> t) cs)\<rparr>"

lemma find_append: "List.find P (xs @ ys) = (case List.find P xs of None \<Rightarrow> List.find P ys | Some x \<Rightarrow> Some x)"
  by (induction xs) auto

lemma cond_view_append: "cond_view (cs @ ds) t = (case cond_view cs t of None \<Rightarrow> cond_view ds t | Some v \<Rightarrow> Some v)"
  by (simp add: cond_view_def find_append split: option.splits)

lemma keyed_meta_contract: "meta_contract keyed_meta"
  unfolding meta_contract_def keyed_meta_def
  by (auto simp: cond_view_append cond_view_filter [where P = "\<lambda>t. t \<noteq> _"] split: option.splits)
     (auto simp: cond_view_def)

section \<open>Enabled flags\<close>

text \<open>Every \<^verbatim>\<open>IsActive\<close> method: a missing flag counts as enabled.\<close>

definition IsActive :: "bool option \<Rightarrow> bool" where
  "IsActive e \<longleftrightarrow> (case e of None \<Rightarrow> True | Some b \<Rightarrow> b)"

lemma IsActive_simps [simp]: "IsActive None" "IsActive (Some b) = b"
  by (simp_all add: IsActive_def)

section \<open>Schedules\<close>

record schedule_action =
  sa_Enabled :: "bool option"
  sa_Cron :: string

record time_period =
  tp_Start :: int
  tp_End :: int
  tp_Actions :: "string list"

record schedule_spec =
  ss_Enabled :: "bool option"
  ss_Actions :: "(string, schedule_action) gomap"
  ss_ActivePeriods :: "time_period list"
  ss_InactivePeriods :: "time_period list"

record schedule =
  sc_Name :: string
  sc_Spec :: schedule_spec
  sc_Conditions :: "condition list"

definition ScheduleAction_IsActive :: "schedule_action \<Rightarrow> bool" where
  "ScheduleAction_IsActive r = IsActive (sa_Enabled r)"

definition ScheduleSpec_IsActive :: "schedule_spec \<Rightarrow> bool" where
  "ScheduleSpec_IsActive r = IsActive (ss_Enabled r)"

section \<open>AWS credentials\<close>

record aws_keys_ref =
  kr_AccessKey :: string
  kr_SecretKey :: string
  kr_SessionKey :: string

record aws_credentials_spec =
  cr_SecretName :: string
  cr_Namespace :: string
  cr_KeysRef :: "aws_keys_ref option"

section \<open>Action executions\<close>

record object_reference =
  or_APIVersion :: string
  or_Kind :: string
  or_Name :: string
  or_Namespace :: string

record action_execution_spec =
  as_TargetResource :: object_reference
  as_ActionType :: string
  as_ActionName :: string
  as_Parameters :: string

record action_execution_status =
  st_Phase :: string
  st_StateData :: "(string, string) gomap option"

record action_execution =
  ae_Name :: string
  ae_Namespace :: string
  ae_CreationTimestamp :: "int option"
  ae_DeletionTimestamp :: "int option"
  ae_Spec :: action_execution_spec
  ae_Status :: action_execution_status

section \<open>The outcome of a job\<close>

datatype JobResult = JobResultSuccess | JobResultFailure | JobResultError | JobResultSkipped

fun JobResult_String :: "JobResult \<Rightarrow> string" where
  "JobResult_String JobResultSuccess = ''Success''"
| "JobResult_String JobResultFailure = ''Failure''"
| "JobResult_String JobResultError = ''Error''"
| "JobResult_String JobResultSkipped = ''Skipped''"

text \<open>\<^verbatim>\<open>JobMetadata\<close> holds an error text or a list of error texts.\<close>

datatype meta_value = MetaString string | MetaList "string list"

type_synonym job_metadata = "(string, meta_value) gomap"

lemma JobResult_String_inj [simp]: "JobResult_String a = JobResult_String b \<longleftrightarrow> a = b"
  by (cases a; cases b) simp_all

end
