(* ===== verification/World.thy ===== *)
theory World
  imports Api_Types "HOL-Library.Word"
begin

text \<open>
  What the operator does to the outside, as a log of effects, and how the outside answers.
  The API server, the cloud services and the clock are parameters: an answer may depend on
  the whole log so far and on the request, so every sequence of answers is covered.
\<close>

datatype event_type = EventNormal | EventWarning

text \<open>A request to one of the AWS clients, with the region and endpoint its options set.\<close>

datatype aws_request =
    StartDBCluster string string "string option" string
  | StopDBCluster string string "string option" string
  | StartInstances string "string option" string
  | StopInstances string "string option" string bool "bool option"
  | StartServer string "string option" string
  | StopServer string "string option" string

text \<open>The credentials of a client: access key, secret key and session token, or the SDK's default chain.\<close>

type_synonym aws_credentials = "(string \<times> string \<times> string) option"

text \<open>The body of a notification, sent to the recipients of its schedule.\<close>

record notification_body =
  nb_Schedule :: string
  nb_Action :: string
  nb_Resource :: string
  nb_Status :: string
  nb_Metadata :: job_metadata

text \<open>A Kubernetes job as the operator creates it; the rest of its spec is copied and stays opaque.\<close>

record k8s_job =
  kj_Name :: string
  kj_Namespace :: string
  kj_Labels :: "(string, string) gomap"
  kj_Owners :: "string list"
  kj_TTLSecondsAfterFinished :: "32 word option"
  kj_Spec :: string

datatype effect =
    EvEvent string string event_type string string
  | EvStatusUpdate string string "condition list"
  | EvLatency string string string string
  | EvNotify notification_body
  | EvCreateAction action_execution
  | EvDeleteAction string string
  | EvActionStatus action_execution
  | EvAws aws_credentials aws_request
  | EvUpdateReplicas string string string "32 word"
  | EvUpdateHpa string string "32 word" "32 word"
  | EvCreateJob k8s_job

type_synonym effect_log = "effect list"

text \<open>
  The answers of the API server and the clock reading of one handler run. A status update
  names the kind, the object and the conditions written; \<open>api_TimeString\<close> prints a
  \<^verbatim>\<open>metav1.Time\<close> of an object, which carries a time zone that the model leaves out.
\<close>

record api_server =
  api_GetSchedule :: "effect_log \<Rightarrow> string \<Rightarrow> go_error + schedule"
  api_StatusUpdate :: "effect_log \<Rightarrow> string \<Rightarrow> string \<Rightarrow> condition list \<Rightarrow> go_error option"
  api_Now :: int
  api_TimeString :: "int \<Rightarrow> string"

text \<open>\<^verbatim>\<open>addToConditions\<close> and \<^verbatim>\<open>removeFromConditions\<close> of the controllers.\<close>

definition addToConditions :: "meta_api \<Rightarrow> condition list \<Rightarrow> condition \<Rightarrow> condition list" where
  "addToConditions meta conditions c = SetStatusCondition meta conditions c"

definition removeFromConditions :: "meta_api \<Rightarrow> condition list \<Rightarrow> string \<Rightarrow> condition list" where
  "removeFromConditions meta conditions conditionType = RemoveStatusCondition meta conditions conditionType"

definition mk_condition :: "int \<Rightarrow> string \<Rightarrow> cond_status \<Rightarrow> string \<Rightarrow> string \<Rightarrow> condition" where
  "mk_condition now ty st reason msg =
     \<lparr>c_LastTransitionTime = now, c_Type = ty, c_Status = st, c_Reason = reason, c_Message = msg\<rparr>"

lemma cond_view_add [simp]:
  "meta_contract meta \<Longrightarrow> cond_view (addToConditions meta cs (mk_condition now ty st reason msg)) t =
     (if t = ty then Some (st, reason, msg) else cond_view cs t)"
  by (simp add: addToConditions_def mk_condition_def cond_view_Set)

lemma cond_view_del [simp]:
  "meta_contract meta \<Longrightarrow> cond_view (removeFromConditions meta cs ty) t = (if t = ty then None else cond_view cs t)"
  by (simp add: removeFromConditions_def cond_view_Remove)

end
