(* ===== verification/Resource_Controller.thy ===== *)
theory Resource_Controller
  imports Cron_Registry World
begin

text \<open>
  The generic resource controller of \<^verbatim>\<open>internal/controller/resource_controller.go\<close>:
  \<open>reconcileResource\<close> brings the cron registry of one resource in line with its spec and
  its schedule. A controller passes its object through the interface
  \<^verbatim>\<open>ReconcileResource\<close>; here the object is the record of what the interface's methods
  return. The closure a cron entry runs is the record of the variables it captures
  (\<open>cron_job\<close>); running it is in \<open>Cron_Job\<close>.
\<close>

section \<open>Definitions\<close>

record cron_job =
  job_Kind :: string
  job_Name :: string
  job_Namespace :: string
  job_Schedule :: string
  job_Action :: string
  job_Resource :: string

record reconcile_resource =
  rr_Kind :: string
  rr_Name :: string
  rr_Namespace :: string
  rr_Schedule :: string
  rr_Active :: bool
  rr_Conditions :: "condition list"

record 'c rc_state =
  rc_svc :: "'c schedule_service"
  rc_log :: effect_log

type_synonym ('c, 's) job_lib = "('c, cron_job, 's) cron_lib"

definition updateStatus :: "api_server \<Rightarrow> reconcile_resource \<Rightarrow> condition list \<Rightarrow> go_error option \<Rightarrow>
    effect_log \<Rightarrow> go_error option \<times> effect_log" where
  "updateStatus api res conditions err log =
     (let e = api_StatusUpdate api log (rr_Kind res) (rr_Name res) conditions in
      (if e \<noteq> None then errors_Join e err else err,
       log @ [EvStatusUpdate (rr_Kind res) (rr_Name res) conditions]))"

definition disableResource :: "('c, 's) job_lib \<Rightarrow> range_order \<Rightarrow> 'c schedule_service \<Rightarrow> condition list \<Rightarrow>
    string \<Rightarrow> 'c schedule_service \<times> condition list" where
  "disableResource lib ord svc conditions resource =
     (RemoveResource lib ord svc resource,
      if 0 < length conditions then filter (\<lambda>c. \<not> HasPrefix (c_Type c) ''Action'') conditions
      else conditions)"

text \<open>The loop over the scheduled actions of the resource.\<close>

fun prune_actions :: "('c, 's) job_lib \<Rightarrow> meta_api \<Rightarrow> string \<Rightarrow> string \<Rightarrow> (string, 'a) gomap \<Rightarrow>
    (string, int) gomap \<Rightarrow> string list \<Rightarrow> 'c schedule_service \<times> condition list \<times> string list \<Rightarrow>
    'c schedule_service \<times> condition list \<times> string list" where
  "prune_actions lib meta scheduleName resource actions ids [] acc = acc"
| "prune_actions lib meta scheduleName resource actions ids (action # rest) (svc, conditions, scheduledActions) =
     (let entry = Get lib svc (case mget ids action of None \<Rightarrow> 0 | Some eid \<Rightarrow> eid) in
      prune_actions lib meta scheduleName resource actions ids rest
        (if entry_Valid entry
         then (case mget actions action of
            None \<Rightarrow> (Remove lib svc scheduleName action resource,
                     removeFromConditions meta conditions (conditionTypeForAction action),
                     scheduledActions)
          | Some _ \<Rightarrow> (svc, conditions, scheduledActions @ [action]))
         else (svc, conditions, scheduledActions)))"

definition mk_job :: "reconcile_resource \<Rightarrow> string \<Rightarrow> string \<Rightarrow> cron_job" where
  "mk_job obj resource actionName =
     \<lparr>job_Kind = rr_Kind obj, job_Name = rr_Name obj, job_Namespace = rr_Namespace obj,
      job_Schedule = rr_Schedule obj, job_Action = actionName, job_Resource = resource\<rparr>"

text \<open>
  The loop over the actions of the spec, its body first. The loop ends early, with the error,
  when an action cannot be added to the cron.
\<close>

type_synonym 'c rc_acc = "'c schedule_service \<times> condition list \<times> effect_log"

definition schedule_action :: "('c, 's) job_lib \<Rightarrow> api_server \<Rightarrow> meta_api \<Rightarrow> reconcile_resource \<Rightarrow> string \<Rightarrow>
    bool \<Rightarrow> (string, schedule_action) gomap \<Rightarrow> string list \<Rightarrow> string \<Rightarrow> 'c rc_acc \<Rightarrow>
    go_error option \<times> 'c rc_acc" where
  "schedule_action lib api meta obj resource active scheduleActions scheduledActions actionName acc =
     (let (svc, conditions, log) = acc;
          scheduleName = rr_Schedule obj;
          ty = conditionTypeForAction actionName;
          event = (\<lambda>reason msg. EvEvent (rr_Kind obj) (rr_Name obj) EventWarning reason msg)
      in if \<not> active
         then (None,
               Remove lib svc scheduleName actionName resource,
               addToConditions meta conditions (mk_condition (api_Now api) ty ConditionFalse ''Disabled'' ''''),
               log)
         else if \<not> contains scheduledActions actionName
         then (case mget scheduleActions actionName of
             None \<Rightarrow>
               (None,
                svc,
                addToConditions meta conditions (mk_condition (api_Now api) ty ConditionFalse ''MissingAction''
                  (''action not found in '' @ quoted scheduleName)),
                log @ [event ''MissingAction''
                  (''action '' @ quoted actionName @ '' not found in '' @ quoted scheduleName)])
           | Some scheduleAction \<Rightarrow>
               (case Add lib svc scheduleName actionName resource (sa_Cron scheduleAction)
                       (mk_job obj resource actionName) of
                  (Inl err, svc') \<Rightarrow>
                    (Some err, svc',
                     addToConditions meta conditions (mk_condition (api_Now api) ty ConditionFalse ''Error''
                       (err_Error err)),
                     log @ [event ''FailedToSchedule'' (''Failed to schedule '' @ quoted actionName)])
                | (Inr eid, svc') \<Rightarrow>
                    (None,
                     svc',
                     addToConditions meta conditions (mk_condition (api_Now api) ty ConditionTrue ''Active'' ''''),
                     log)))
         else (None, svc, conditions, log))"

fun schedule_actions :: "('c, 's) job_lib \<Rightarrow> api_server \<Rightarrow> meta_api \<Rightarrow> reconcile_resource \<Rightarrow> string \<Rightarrow>
    (string, 'a) gomap \<Rightarrow> ('a \<Rightarrow> bool) \<Rightarrow> (string, schedule_action) gomap \<Rightarrow> string list \<Rightarrow> string list \<Rightarrow>
    'c rc_acc \<Rightarrow> go_error option \<times> 'c rc_acc" where
  "schedule_actions lib api meta obj resource actions isActive scheduleActions scheduledActions [] acc =
     (None, acc)"
| "schedule_actions lib api meta obj resource actions isActive scheduleActions scheduledActions
     (actionName # rest) acc =
     (case schedule_action lib api meta obj resource
             (case mget actions actionName of None \<Rightarrow> False | Some action \<Rightarrow> isActive action)
             scheduleActions scheduledActions actionName acc of
        (Some err, acc') \<Rightarrow> (Some err, acc')
      | (None, acc') \<Rightarrow>
          schedule_actions lib api meta obj resource actions isActive scheduleActions scheduledActions
            rest acc')"

definition reconcileResource :: "('c, 's) job_lib \<Rightarrow> range_order \<Rightarrow> api_server \<Rightarrow> meta_api \<Rightarrow> 'c rc_state \<Rightarrow>
    reconcile_resource \<Rightarrow> string \<Rightarrow> (string, 'a) gomap \<Rightarrow> ('a \<Rightarrow> bool) \<Rightarrow> go_error option \<times> 'c rc_state" where
  "reconcileResource lib ord api meta st obj resource actions isActive =
     (let scheduleName = rr_Schedule obj;
          svc = rc_svc st; log = rc_log st; conditions = rr_Conditions obj; now = api_Now api;
          event = (\<lambda>ty reason msg. EvEvent (rr_Kind obj) (rr_Name obj) ty reason msg)
      in if \<not> rr_Active obj
         then (let (svc1, conditions1) = disableResource lib ord svc conditions resource;
                   conditions2 = addToConditions meta conditions1
                     (mk_condition now ''Ready'' ConditionFalse ''Disabled'' '''');
                   log1 = log @ [event EventNormal ''Disabled''
                     (''Resource '' @ quoted (rr_Name obj) @ '' is not active'')];
                   (err, log2) = updateStatus api obj conditions2 None log1
               in (err, \<lparr>rc_svc = svc1, rc_log = log2\<rparr>))
         else (case api_GetSchedule api log scheduleName of
             Inl err \<Rightarrow>
               (let conditions1 = addToConditions meta conditions
                      (mk_condition now ''Ready'' ConditionFalse ''ScheduleNotExist''
                         ''Schedule specified in spec.schedule do not exist'');
                    log1 = log @ [event EventWarning ''ScheduleNotExist''
                      (''Schedule '' @ quoted scheduleName @ '' not exist'')];
                    (err', log2) = updateStatus api obj conditions1 (Some err) log1
                in (err', \<lparr>rc_svc = svc, rc_log = log2\<rparr>))
           | Inr schedule \<Rightarrow>
               (let (svc1, removedActions) =
                      RemoveActionsOfResourceFromNonCurrentSchedule lib ord svc scheduleName resource;
                    conditions1 = fold (\<lambda>action cs. removeFromConditions meta cs (conditionTypeForAction action))
                      removedActions conditions;
                    ids = GetActionsOfResource ord svc1 scheduleName resource;
                    (svc2, conditions2, scheduledActions) =
                      prune_actions lib meta scheduleName resource actions ids
                        (visit ord [''scheduled''] (mkeys ids)) (svc1, conditions1, []);
                    (failed, svc3, conditions3, log3) =
                      schedule_actions lib api meta obj resource actions isActive
                        (ss_Actions (sc_Spec schedule)) scheduledActions
                        (visit ord [''actions''] (mkeys actions)) (svc2, conditions2, log)
                in case failed of
                     Some err \<Rightarrow>
                       (let (err', log4) = updateStatus api obj conditions3 (Some err) log3
                        in (err', \<lparr>rc_svc = svc3, rc_log = log4\<rparr>))
                   | None \<Rightarrow>
                       (let conditions4 = addToConditions meta conditions3
                              (mk_condition now ''Ready'' ConditionTrue ''Active'' '''');
                            (err', log4) = updateStatus api obj conditions4 None log3
                        in (err', \<lparr>rc_svc = svc3, rc_log = log4\<rparr>)))))"

section \<open>What the two loops do to the registry\<close>

lemma prune_actions_spec:
  assumes "svc_ok lib svc" and "distinct as"
    and "\<And>a. a \<in> set as \<Longrightarrow> mget ids a = lookup3 (svc_m svc) (x, a, z) \<and> lookup3 (svc_m svc) (x, a, z) \<noteq> None"
    and "prune_actions lib meta x z actions ids as (svc, cs, acc) = (svc', cs', acc')"
  shows "svc_ok lib svc' \<and>
    (\<forall>a b c. registry lib svc' (a, b, c) =
      (if a = x \<and> c = z \<and> b \<in> set as \<and> mget actions b = None then None else registry lib svc (a, b, c))) \<and>
    acc' = acc @ filter (\<lambda>a. mget actions a \<noteq> None) as"
  using assms
proof (induction as arbitrary: svc cs acc)
  case (Cons a as)
  from Cons.prems(3) [of a] obtain eid where eid: "lookup3 (svc_m svc) (x, a, z) = Some eid" "mget ids a = Some eid"
    by auto
  then have valid: "entry_Valid (Get lib svc eid)"
    by (auto simp: Get_def entry_Valid_def elim!: ok_entry [OF Cons.prems(1)])
  show ?case
  proof (cases "mget actions a")
    case None
    let ?t = "removeLocked lib svc x a z"
    have "mget ids b = lookup3 (svc_m ?t) (x, b, z) \<and> lookup3 (svc_m ?t) (x, b, z) \<noteq> None" if "b \<in> set as" for b
      using Cons.prems(2,3) that by auto
    then show ?thesis
      using Cons.IH [of ?t] Cons.prems None valid eid
      by (auto simp: Let_def Remove_def removeLocked_ok registry_removeLocked)
  next
    case (Some act)
    then show ?thesis
      using Cons.IH [of svc cs "acc @ [a]"] Cons.prems valid eid by (simp add: Let_def)
  qed
qed simp

lemma prune_actions_view:
  assumes "meta_contract meta" and "svc_ok lib svc" and "distinct as"
    and "\<And>a. a \<in> set as \<Longrightarrow> mget ids a = lookup3 (svc_m svc) (x, a, z) \<and> lookup3 (svc_m svc) (x, a, z) \<noteq> None"
    and "prune_actions lib meta x z actions ids as (svc, cs, acc) = (svc', cs', acc')"
  shows "cond_view cs' t =
    (if \<exists>a \<in> set as. mget actions a = None \<and> t = conditionTypeForAction a then None else cond_view cs t)"
  using assms(2-)
proof (induction as arbitrary: svc cs acc)
  case (Cons a as)
  from Cons.prems(3) [of a] obtain eid where eid: "lookup3 (svc_m svc) (x, a, z) = Some eid" "mget ids a = Some eid"
    by auto
  then have valid: "entry_Valid (Get lib svc eid)"
    by (auto simp: Get_def entry_Valid_def elim!: ok_entry [OF Cons.prems(1)])
  show ?case
  proof (cases "mget actions a")
    case None
    let ?t = "removeLocked lib svc x a z"
    have "mget ids b = lookup3 (svc_m ?t) (x, b, z) \<and> lookup3 (svc_m ?t) (x, b, z) \<noteq> None" if "b \<in> set as" for b
      using Cons.prems(2,3) that by auto
    then show ?thesis
      using Cons.IH [of ?t "removeFromConditions meta cs (conditionTypeForAction a)" acc] Cons.prems None valid eid
      by (auto simp: Let_def Remove_def removeLocked_ok assms(1))
  next
    case (Some act)
    then show ?thesis
      using Cons.IH [of svc cs "acc @ [a]"] Cons.prems valid eid by (simp add: Let_def)
  qed
qed simp

text \<open>What one iteration over the spec leaves behind for its action.\<close>

definition wanted :: "(string \<Rightarrow> go_error + 's) \<Rightarrow> reconcile_resource \<Rightarrow> string \<Rightarrow> bool \<Rightarrow>
    (string, schedule_action) gomap \<Rightarrow> ('s \<times> cron_job) option \<Rightarrow> string \<Rightarrow> ('s \<times> cron_job) option" where
  "wanted parse obj resource active scheduleActions old a =
     (if \<not> active then None
      else case old of
        Some e \<Rightarrow> Some e
      | None \<Rightarrow> (case mget scheduleActions a of
          None \<Rightarrow> None
        | Some sa \<Rightarrow> (case parse (sa_Cron sa) of Inl e \<Rightarrow> None | Inr sch \<Rightarrow> Some (sch, mk_job obj resource a))))"

definition bad_cron :: "(string \<Rightarrow> go_error + 's) \<Rightarrow> (string, schedule_action) gomap \<Rightarrow> string \<Rightarrow> bool" where
  "bad_cron parse scheduleActions a \<longleftrightarrow>
     (case mget scheduleActions a of None \<Rightarrow> False
      | Some sa \<Rightarrow> (case parse (sa_Cron sa) of Inl e \<Rightarrow> True | Inr sch \<Rightarrow> False))"

lemma schedule_action_spec:
  assumes ok: "svc_ok lib svc" and reg: "n \<in> set scheduled \<longleftrightarrow> registry lib svc (rr_Schedule obj, n, z) \<noteq> None"
    and r: "schedule_action lib api meta obj z active sas scheduled n (svc, cs, log) = (failed, svc', cs', log')"
  shows "svc_ok lib svc'"
    and "registry lib svc' = (registry lib svc)((rr_Schedule obj, n, z) :=
      wanted (lib_ParseStandard lib) obj z active sas (registry lib svc (rr_Schedule obj, n, z)) n)"
    and "failed \<noteq> None \<longleftrightarrow> active \<and> n \<notin> set scheduled \<and> bad_cron (lib_ParseStandard lib) sas n"
proof -
  let ?k = "(rr_Schedule obj, n, z)"
  have "svc_ok lib svc' \<and> registry lib svc' = (registry lib svc)(?k :=
      wanted (lib_ParseStandard lib) obj z active sas (registry lib svc ?k) n) \<and>
      (failed \<noteq> None \<longleftrightarrow> active \<and> n \<notin> set scheduled \<and> bad_cron (lib_ParseStandard lib) sas n)"
  proof (cases "active \<and> n \<notin> set scheduled")
    case False
    with r reg ok show ?thesis
      by (auto simp: schedule_action_def Let_def wanted_def Remove_def removeLocked_ok registry_removeLocked
          split: option.splits if_splits)
  next
    case True
    then have free: "registry lib svc ?k = None"
      using reg by blast
    then have free3: "lookup3 (svc_m svc) ?k = None"
      by (simp add: registry_None_iff [OF ok])
    show ?thesis
    proof (cases "mget sas n")
      case None
      with r True free ok show ?thesis
        by (auto simp: schedule_action_def Let_def wanted_def bad_cron_def)
    next
      case sa: (Some sa)
      show ?thesis
      proof (cases "lib_ParseStandard lib (sa_Cron sa)")
        case (Inl e)
        with r True free ok sa show ?thesis
          by (auto simp: schedule_action_def Let_def wanted_def bad_cron_def Add_refused)
      next
        case (Inr sch)
        obtain eid svc1 where add:
          "Add lib svc (rr_Schedule obj) n z (sa_Cron sa) (mk_job obj z n) = (Inr eid, svc1)"
          by (rule contract_AddJob [OF ok_contract [OF ok] Inr, of "svc_c svc" "mk_job obj z n"])
            (auto simp: Add_def)
        have "registry lib svc1 = (registry lib svc)(?k \<mapsto> (sch, mk_job obj z n))" and "svc_ok lib svc1"
          using registry_Add [OF ok Inr, of "rr_Schedule obj" n z "mk_job obj z n"]
            Add_ok [OF ok free3, of "sa_Cron sa" "mk_job obj z n"]
          by (simp_all add: add)
        with r True free sa Inr show ?thesis
          by (auto simp: schedule_action_def Let_def wanted_def bad_cron_def add)
      qed
    qed
  qed
  then show "svc_ok lib svc'"
    and "registry lib svc' = (registry lib svc)(?k :=
      wanted (lib_ParseStandard lib) obj z active sas (registry lib svc ?k) n)"
    and "failed \<noteq> None \<longleftrightarrow> active \<and> n \<notin> set scheduled \<and> bad_cron (lib_ParseStandard lib) sas n"
    by blast+
qed

definition action_on :: "(string, 'a) gomap \<Rightarrow> ('a \<Rightarrow> bool) \<Rightarrow> string \<Rightarrow> bool" where
  "action_on actions isActive n = (case mget actions n of None \<Rightarrow> False | Some a \<Rightarrow> isActive a)"

lemma schedule_actions_spec:
  assumes "svc_ok lib svc" and "distinct names"
    and "\<And>n. n \<in> set names \<Longrightarrow> n \<in> set scheduled \<longleftrightarrow> registry lib svc (rr_Schedule obj, n, z) \<noteq> None"
    and "schedule_actions lib api meta obj z actions isActive sas scheduled names (svc, cs, log) =
      (failed, svc', cs', log')"
  shows "svc_ok lib svc' \<and>
    (\<forall>a b c. a \<noteq> rr_Schedule obj \<or> c \<noteq> z \<longrightarrow> registry lib svc' (a, b, c) = registry lib svc (a, b, c)) \<and>
    (failed = None \<longrightarrow> (\<forall>b. registry lib svc' (rr_Schedule obj, b, z) =
       (if b \<in> set names
        then wanted (lib_ParseStandard lib) obj z (action_on actions isActive b) sas
               (registry lib svc (rr_Schedule obj, b, z)) b
        else registry lib svc (rr_Schedule obj, b, z)))) \<and>
    (failed \<noteq> None \<longleftrightarrow> (\<exists>n \<in> set names. action_on actions isActive n \<and> n \<notin> set scheduled \<and>
       bad_cron (lib_ParseStandard lib) sas n))"
  using assms
proof (induction names arbitrary: svc cs log)
  case (Cons n names)
  obtain failed1 svc1 cs1 log1 where s1: "schedule_action lib api meta obj z (action_on actions isActive n)
      sas scheduled n (svc, cs, log) = (failed1, svc1, cs1, log1)"
    by (metis prod_cases4)
  from Cons.prems(3) [of n] have "n \<in> set scheduled \<longleftrightarrow> registry lib svc (rr_Schedule obj, n, z) \<noteq> None"
    by simp
  note one = schedule_action_spec [OF Cons.prems(1) this s1]
  note loop = Cons.prems(4) [unfolded schedule_actions.simps action_on_def [symmetric] s1]
  show ?case
  proof (cases failed1)
    case (Some err)
    with loop one show ?thesis
      by (auto simp: Some)
  next
    case None
    with loop have rest: "schedule_actions lib api meta obj z actions isActive sas scheduled names (svc1, cs1, log1) =
        (failed, svc', cs', log')"
      by simp
    have "m \<in> set scheduled \<longleftrightarrow> registry lib svc1 (rr_Schedule obj, m, z) \<noteq> None" if "m \<in> set names" for m
      using Cons.prems(2,3) that one(2) by auto
    note IH = Cons.IH [OF one(1) _ this rest]
    have other: "registry lib svc1 k = registry lib svc k" if "k \<noteq> (rr_Schedule obj, n, z)" for k
      using that one(2) by simp
    have no: "\<not> (action_on actions isActive n \<and> n \<notin> set scheduled \<and> bad_cron (lib_ParseStandard lib) sas n)"
      using one(3) None by simp
    show ?thesis
      using IH Cons.prems(2) one(2) no by auto
  qed
qed simp

text \<open>The condition one iteration writes for its action, and the conditions after the loop.\<close>

definition action_view :: "string \<Rightarrow> bool \<Rightarrow> (string, schedule_action) gomap \<Rightarrow> bool \<Rightarrow> string \<Rightarrow>
    (cond_status \<times> string \<times> string) option \<Rightarrow> (cond_status \<times> string \<times> string) option" where
  "action_view scheduleName active sas isScheduled n old =
     (if \<not> active then Some (ConditionFalse, ''Disabled'', '''')
      else if isScheduled then old
      else case mget sas n of
        None \<Rightarrow> Some (ConditionFalse, ''MissingAction'', ''action not found in '' @ quoted scheduleName)
      | Some sa \<Rightarrow> Some (ConditionTrue, ''Active'', ''''))"

lemma schedule_action_view:
  assumes "meta_contract meta"
    and "schedule_action lib api meta obj z active sas scheduled n (svc, cs, log) = (None, svc', cs', log')"
  shows "cond_view cs' t = (if t = conditionTypeForAction n
    then action_view (rr_Schedule obj) active sas (n \<in> set scheduled) n (cond_view cs t) else cond_view cs t)"
  using assms by (auto simp: schedule_action_def Let_def action_view_def
      split: if_splits option.splits prod.splits sum.splits)

lemma schedule_actions_view:
  assumes "meta_contract meta" and "distinct names"
    and "schedule_actions lib api meta obj z actions isActive sas scheduled names (svc, cs, log) =
      (None, svc', cs', log')"
  shows "(\<forall>n \<in> set names. cond_view cs' (conditionTypeForAction n) =
      action_view (rr_Schedule obj) (action_on actions isActive n) sas (n \<in> set scheduled) n
        (cond_view cs (conditionTypeForAction n))) \<and>
    (\<forall>t. (\<forall>n \<in> set names. t \<noteq> conditionTypeForAction n) \<longrightarrow> cond_view cs' t = cond_view cs t)"
  using assms(2-)
proof (induction names arbitrary: svc cs log)
  case (Cons n names)
  obtain failed1 svc1 cs1 log1 where s1: "schedule_action lib api meta obj z (action_on actions isActive n)
      sas scheduled n (svc, cs, log) = (failed1, svc1, cs1, log1)"
    by (metis prod_cases4)
  note loop = Cons.prems(2) [unfolded schedule_actions.simps action_on_def [symmetric] s1]
  from loop have f: "failed1 = None"
    by (cases failed1) auto
  with loop have rest: "schedule_actions lib api meta obj z actions isActive sas scheduled names (svc1, cs1, log1) =
      (None, svc', cs', log')"
    by simp
  note one = schedule_action_view [OF assms(1) s1 [unfolded f]]
  have IH: "\<forall>m \<in> set names. cond_view cs' (conditionTypeForAction m) =
      action_view (rr_Schedule obj) (action_on actions isActive m) sas (m \<in> set scheduled) m
        (cond_view cs1 (conditionTypeForAction m))"
    and keep: "\<And>t. \<forall>m \<in> set names. t \<noteq> conditionTypeForAction m \<Longrightarrow> cond_view cs' t = cond_view cs1 t"
    using Cons.IH [OF _ rest] Cons.prems(1) by auto
  have "cond_view cs' (conditionTypeForAction n) = cond_view cs1 (conditionTypeForAction n)"
    using Cons.prems(1) by (intro keep) auto
  with IH keep show ?case
    using Cons.prems(1) by (auto simp: one)
qed simp

section \<open>The whole reconciliation\<close>

lemma updateStatus_log [simp]:
  "snd (updateStatus api res cs err log) = log @ [EvStatusUpdate (rr_Kind res) (rr_Name res) cs]"
  by (simp add: updateStatus_def Let_def)

lemma fold_removeFromConditions_view:
  "meta_contract meta \<Longrightarrow>
    cond_view (fold (\<lambda>a cs. removeFromConditions meta cs (conditionTypeForAction a)) as cs) t =
      (if \<exists>a \<in> set as. t = conditionTypeForAction a then None else cond_view cs t)"
  by (induction as arbitrary: cs) auto

lemma set_mkeys_GetActionsOfResource:
  "set (mkeys (GetActionsOfResource ord s x z)) = {y. lookup3 (svc_m s) (x, y, z) \<noteq> None}"
  using mem_mkeys_iff [of _ "GetActionsOfResource ord s x z"] by (auto simp only: mget_GetActionsOfResource)

text \<open>
  The active path with an existing schedule, in one statement: what the first two steps
  leave for the loop over the spec, and what that loop ends with.
\<close>

lemma active_reconcile:
  assumes ok: "svc_ok lib (rc_svc st)" and acts: "gomap_ok actions" and act: "rr_Active obj"
    and sched: "api_GetSchedule api (rc_log st) (rr_Schedule obj) = Inr schedule"
  obtains svc2 scheduled cs2 failed svc3 cs3 log3 where
    "svc_ok lib svc2"
    and "\<And>a b c. registry lib svc2 (a, b, c) =
      (if c = z \<and> (a \<noteq> rr_Schedule obj \<or> mget actions b = None) then None
       else registry lib (rc_svc st) (a, b, c))"
    and "\<And>n. mget actions n \<noteq> None \<Longrightarrow>
      n \<in> set scheduled \<longleftrightarrow> registry lib svc2 (rr_Schedule obj, n, z) \<noteq> None"
    and "\<And>n a. meta_contract meta \<Longrightarrow> mget actions n = None \<Longrightarrow> registry lib (rc_svc st) (a, n, z) \<noteq> None \<Longrightarrow>
      cond_view cs2 (conditionTypeForAction n) = None"
    and "schedule_actions lib api meta obj z actions isActive (ss_Actions (sc_Spec schedule)) scheduled
      (visit ord [''actions''] (mkeys actions)) (svc2, cs2, rc_log st) = (failed, svc3, cs3, log3)"
    and "rc_svc (snd (reconcileResource lib ord api meta st obj z actions isActive)) = svc3"
    and "fst (reconcileResource lib ord api meta st obj z actions isActive) =
      fst (updateStatus api obj
        (case failed of Some e \<Rightarrow> cs3
         | None \<Rightarrow> addToConditions meta cs3 (mk_condition (api_Now api) ''Ready'' ConditionTrue ''Active'' ''''))
        failed log3)"
    and "rc_log (snd (reconcileResource lib ord api meta st obj z actions isActive)) =
      log3 @ [EvStatusUpdate (rr_Kind obj) (rr_Name obj)
        (case failed of Some e \<Rightarrow> cs3
         | None \<Rightarrow> addToConditions meta cs3 (mk_condition (api_Now api) ''Ready'' ConditionTrue ''Active'' ''''))]"
proof -
  let ?x = "rr_Schedule obj"
  obtain svc1 removed where n1:
    "RemoveActionsOfResourceFromNonCurrentSchedule lib ord (rc_svc st) ?x z = (svc1, removed)"
    by (metis prod.exhaust)
  note nc = NonCurrent_spec [OF ok n1]
  let ?ids = "GetActionsOfResource ord svc1 ?x z"
  let ?as = "visit ord [''scheduled''] (mkeys ?ids)"
  let ?cs1 = "fold (\<lambda>action cs. removeFromConditions meta cs (conditionTypeForAction action)) removed (rr_Conditions obj)"
  obtain svc2 cs2 scheduled where n2:
    "prune_actions lib meta ?x z actions ?ids ?as (svc1, ?cs1, []) = (svc2, cs2, scheduled)"
    by (metis prod_cases3)
  have as: "set ?as = {y. lookup3 (svc_m svc1) (?x, y, z) \<noteq> None}" and d: "distinct ?as"
    by (simp_all only: set_visit distinct_visit set_mkeys_GetActionsOfResource GetActionsOfResource_ok)
  have "mget ?ids a = lookup3 (svc_m svc1) (?x, a, z) \<and> lookup3 (svc_m svc1) (?x, a, z) \<noteq> None" if "a \<in> set ?as" for a
    using that unfolding as by (simp add: mget_GetActionsOfResource)
  note pr = prune_actions_spec [OF nc(1) d this n2] and pv = prune_actions_view [OF _ nc(1) d this n2]
  obtain failed svc3 cs3 log3 where n3:
    "schedule_actions lib api meta obj z actions isActive (ss_Actions (sc_Spec schedule)) scheduled
       (visit ord [''actions''] (mkeys actions)) (svc2, cs2, rc_log st) = (failed, svc3, cs3, log3)"
    by (metis prod_cases4)
  have as': "set ?as = {y. registry lib svc1 (?x, y, z) \<noteq> None}"
    unfolding as by (simp only: registry_None_iff [OF nc(1)])
  have reg2: "registry lib svc2 (a, b, c) =
      (if c = z \<and> (a \<noteq> ?x \<or> mget actions b = None) then None else registry lib (rc_svc st) (a, b, c))" for a b c
    using pr nc(2) [of a b c] as' by (cases "registry lib (rc_svc st) (a, b, c)") auto
  have sch: "n \<in> set scheduled \<longleftrightarrow> registry lib svc2 (?x, n, z) \<noteq> None" if "mget actions n \<noteq> None" for n
    using that pr nc(2) [of ?x n z] as' by auto
  have view: "cond_view cs2 (conditionTypeForAction n) = None"
    if "meta_contract meta" "mget actions n = None" "registry lib (rc_svc st) (a, n, z) \<noteq> None" for n a
  proof (cases "a = ?x")
    case True
    then have "n \<in> set ?as"
      using that(3) nc(2) [of ?x n z] unfolding as' by auto
    then show ?thesis
      using pv [OF that(1)] that(2) by auto
  next
    case False
    then have "n \<in> set removed"
      using that(3) nc(3) by auto
    then show ?thesis
      using pv [OF that(1)] that(1) by (auto simp: fold_removeFromConditions_view)
  qed
  show thesis
    by (rule that [OF conjunct1 [OF pr] reg2 sch view n3])
      (use act sched n1 n2 n3 in \<open>auto simp: reconcileResource_def Let_def updateStatus_def split: option.splits\<close>)
qed

lemma reconcile_other_resources:
  assumes "svc_ok lib (rc_svc st)" and "gomap_ok actions" and "c \<noteq> z"
  shows "svc_ok lib (rc_svc (snd (reconcileResource lib ord api meta st obj z actions isActive)))"
    and "registry lib (rc_svc (snd (reconcileResource lib ord api meta st obj z actions isActive))) (a, b, c) =
      registry lib (rc_svc st) (a, b, c)"
proof -
  let ?st' = "snd (reconcileResource lib ord api meta st obj z actions isActive)"
  have "svc_ok lib (rc_svc ?st') \<and> registry lib (rc_svc ?st') (a, b, c) = registry lib (rc_svc st) (a, b, c)"
  proof (cases "rr_Active obj")
    case False
    then show ?thesis
      using assms by (simp add: reconcileResource_def Let_def disableResource_def updateStatus_def
          RemoveResource_ok registry_RemoveResource)
  next
    case True
    show ?thesis
    proof (cases "api_GetSchedule api (rc_log st) (rr_Schedule obj)")
      case (Inl e)
      with True assms show ?thesis
        by (simp add: reconcileResource_def Let_def updateStatus_def)
    next
      case (Inr schedule)
      show ?thesis
      proof (rule active_reconcile [OF assms(1,2) True Inr, of z meta isActive ord], goal_cases)
        case (1 svc2 scheduled cs2 failed svc3 cs3 log3)
        have "distinct (visit ord [''actions''] (mkeys actions))"
          using assms(2) by simp
        moreover have "n \<in> set scheduled \<longleftrightarrow> registry lib svc2 (rr_Schedule obj, n, z) \<noteq> None"
          if "n \<in> set (visit ord [''actions''] (mkeys actions))" for n
          using that 1(3) [of n] unfolding set_visit mem_mkeys_iff by blast
        ultimately show ?thesis
          using schedule_actions_spec [OF 1(1) _ _ 1(5)] 1(2) 1(6) assms(3) by auto
      qed
    qed
  qed
  then show "svc_ok lib (rc_svc ?st')"
    and "registry lib (rc_svc ?st') (a, b, c) = registry lib (rc_svc st) (a, b, c)"
    by blast+
qed

text \<open>
  The reconciliation of an active resource whose schedule exists: when the loop over the spec
  fails, and what is registered when it does not.
\<close>

definition unschedulable :: "(string \<Rightarrow> go_error + 's) \<Rightarrow> (cron_key \<Rightarrow> ('s \<times> cron_job) option) \<Rightarrow> string \<Rightarrow> string \<Rightarrow>
    (string, 'a) gomap \<Rightarrow> ('a \<Rightarrow> bool) \<Rightarrow> (string, schedule_action) gomap \<Rightarrow> string \<Rightarrow> bool" where
  "unschedulable parse R x z actions isActive sas n \<longleftrightarrow>
     action_on actions isActive n \<and> R (x, n, z) = None \<and> bad_cron parse sas n"

lemma action_on_key: "action_on actions isActive n \<Longrightarrow> mget actions n \<noteq> None"
  by (auto simp: action_on_def split: option.splits)

lemma action_off: "mget actions n = None \<Longrightarrow> \<not> action_on actions isActive n"
  by (simp add: action_on_def)

lemma wanted_off [simp]: "wanted parse obj z False sas old n = None"
  by (simp add: wanted_def)

lemma active_reconcile_result:
  assumes ok: "svc_ok lib (rc_svc st)" and acts: "gomap_ok actions" and act: "rr_Active obj"
    and sched: "api_GetSchedule api (rc_log st) (rr_Schedule obj) = Inr schedule"
    and r: "reconcileResource lib ord api meta st obj z actions isActive = (err, st')"
  obtains failed cs2 cs3 log3 scheduled where
    "failed \<noteq> None \<longleftrightarrow> (\<exists>n. unschedulable (lib_ParseStandard lib) (registry lib (rc_svc st)) (rr_Schedule obj) z
       actions isActive (ss_Actions (sc_Spec schedule)) n)"
    and "failed = None \<Longrightarrow> (\<And>a b. registry lib (rc_svc st') (a, b, z) =
       (if a = rr_Schedule obj
        then wanted (lib_ParseStandard lib) obj z (action_on actions isActive b) (ss_Actions (sc_Spec schedule))
               (registry lib (rc_svc st) (a, b, z)) b
        else None))"
    and "\<And>n. mget actions n \<noteq> None \<Longrightarrow>
      n \<in> set scheduled \<longleftrightarrow> registry lib (rc_svc st) (rr_Schedule obj, n, z) \<noteq> None"
    and "\<And>n a. meta_contract meta \<Longrightarrow> mget actions n = None \<Longrightarrow> registry lib (rc_svc st) (a, n, z) \<noteq> None \<Longrightarrow>
      cond_view cs2 (conditionTypeForAction n) = None"
    and "meta_contract meta \<Longrightarrow> failed = None \<Longrightarrow>
      (\<forall>n. mget actions n \<noteq> None \<longrightarrow> cond_view cs3 (conditionTypeForAction n) =
        action_view (rr_Schedule obj) (action_on actions isActive n) (ss_Actions (sc_Spec schedule))
          (n \<in> set scheduled) n (cond_view cs2 (conditionTypeForAction n))) \<and>
      (\<forall>n. mget actions n = None \<longrightarrow>
         cond_view cs3 (conditionTypeForAction n) = cond_view cs2 (conditionTypeForAction n))"
    and "err = fst (updateStatus api obj
        (case failed of Some e \<Rightarrow> cs3
         | None \<Rightarrow> addToConditions meta cs3 (mk_condition (api_Now api) ''Ready'' ConditionTrue ''Active'' ''''))
        failed log3)"
    and "rc_log st' =
      log3 @ [EvStatusUpdate (rr_Kind obj) (rr_Name obj)
        (case failed of Some e \<Rightarrow> cs3
         | None \<Rightarrow> addToConditions meta cs3 (mk_condition (api_Now api) ''Ready'' ConditionTrue ''Active'' ''''))]"
proof (rule active_reconcile [OF ok acts act sched, of z meta isActive ord], goal_cases)
  case prems: (1 svc2 scheduled cs2 failed svc3 cs3 log3)
  let ?names = "visit ord [''actions''] (mkeys actions)"
  have names: "n \<in> set ?names \<longleftrightarrow> mget actions n \<noteq> None" for n
    by (simp only: set_visit mem_mkeys_iff)
  have d: "distinct ?names"
    using acts by simp
  have "n \<in> set scheduled \<longleftrightarrow> registry lib svc2 (rr_Schedule obj, n, z) \<noteq> None" if "n \<in> set ?names" for n
    using that prems(4) [of n] unfolding names by blast
  note sp = schedule_actions_spec [OF prems(2) d this prems(6)]
  have old: "registry lib svc2 (rr_Schedule obj, n, z) = registry lib (rc_svc st) (rr_Schedule obj, n, z)"
    if "mget actions n \<noteq> None" for n
    using that by (auto simp: prems(3))
  have st': "rc_svc st' = svc3" and log': "rc_log st' = log3 @ [EvStatusUpdate (rr_Kind obj) (rr_Name obj)
        (case failed of Some e \<Rightarrow> cs3
         | None \<Rightarrow> addToConditions meta cs3 (mk_condition (api_Now api) ''Ready'' ConditionTrue ''Active'' ''''))]"
    and err: "err = fst (updateStatus api obj
        (case failed of Some e \<Rightarrow> cs3
         | None \<Rightarrow> addToConditions meta cs3 (mk_condition (api_Now api) ''Ready'' ConditionTrue ''Active'' ''''))
        failed log3)"
    using prems(7-9) r by simp_all
  have sch: "n \<in> set scheduled \<longleftrightarrow> registry lib (rc_svc st) (rr_Schedule obj, n, z) \<noteq> None"
    if "mget actions n \<noteq> None" for n
    using prems(4) [OF that] old [OF that] by simp
  show thesis
  proof (rule that [of failed scheduled cs2 cs3 log3], goal_cases)
    case 1
    have "(\<exists>n \<in> set ?names. action_on actions isActive n \<and> n \<notin> set scheduled \<and>
        bad_cron (lib_ParseStandard lib) (ss_Actions (sc_Spec schedule)) n) \<longleftrightarrow>
      (\<exists>n. unschedulable (lib_ParseStandard lib) (registry lib (rc_svc st)) (rr_Schedule obj) z
         actions isActive (ss_Actions (sc_Spec schedule)) n)"
      unfolding unschedulable_def using action_on_key [of actions isActive] sch names by blast
    with sp show ?case by blast
  next
    case (2 a b)
    show ?case
    proof (cases "mget actions b = None")
      case True
      then show ?thesis
        using sp 2 prems(3) [of a b z] names [of b] by (auto simp: st' action_off)
    next
      case False
      then show ?thesis
        using sp 2 prems(3) [of a b z] names [of b] by (auto simp: st')
    qed
  next
    case (5)
    show ?case
      using schedule_actions_view [OF 5(1) d prems(6) [unfolded 5(2)]] names
      by (metis conditionTypeForAction_inj)
  qed (use sch prems(5) err log' in blast)+
qed

text \<open>
  Where the entries of a reconciled resource come from, also when the reconciliation fails: an
  entry was there before with the same job, or it is a new one, with the job of its own key.
\<close>

lemma wanted_origin:
  "wanted parse obj z active sas old n = Some (sch, j) \<Longrightarrow> old = Some (sch, j) \<or> j = mk_job obj z n"
  by (auto simp: wanted_def split: if_splits option.splits sum.splits)

lemma schedule_actions_origin:
  assumes "svc_ok lib svc" and "distinct names"
    and "\<And>n. n \<in> set names \<Longrightarrow> n \<in> set scheduled \<longleftrightarrow> registry lib svc (rr_Schedule obj, n, z) \<noteq> None"
    and "schedule_actions lib api meta obj z actions isActive sas scheduled names (svc, cs, log) = (failed, svc', cs', log')"
    and "registry lib svc' (a, b, c) = Some (sch, j)"
  shows "registry lib svc (a, b, c) = Some (sch, j) \<or> a = rr_Schedule obj \<and> c = z \<and> j = mk_job obj z b"
  using assms
proof (induction names arbitrary: svc cs log)
  case (Cons n names)
  obtain failed1 svc1 cs1 log1 where s1: "schedule_action lib api meta obj z (action_on actions isActive n)
      sas scheduled n (svc, cs, log) = (failed1, svc1, cs1, log1)"
    by (metis prod_cases4)
  from Cons.prems(3) [of n] have "n \<in> set scheduled \<longleftrightarrow> registry lib svc (rr_Schedule obj, n, z) \<noteq> None"
    by simp
  note one = schedule_action_spec [OF Cons.prems(1) this s1]
  have step: "registry lib svc (a, b, c) = Some (sch, j) \<or> a = rr_Schedule obj \<and> c = z \<and> j = mk_job obj z b"
    if "registry lib svc1 (a, b, c) = Some (sch, j)"
    using that wanted_origin by (fastforce simp: one(2) split: if_splits)
  note loop = Cons.prems(4) [unfolded schedule_actions.simps action_on_def [symmetric] s1]
  show ?case
  proof (cases failed1)
    case (Some err)
    with loop Cons.prems(5) step show ?thesis by simp
  next
    case None
    with loop have rest: "schedule_actions lib api meta obj z actions isActive sas scheduled names (svc1, cs1, log1) = (failed, svc', cs', log')"
      by simp
    have "m \<in> set scheduled \<longleftrightarrow> registry lib svc1 (rr_Schedule obj, m, z) \<noteq> None" if "m \<in> set names" for m
      using that Cons.prems(2,3) by (auto simp: one(2))
    from Cons.IH [OF one(1) _ this rest Cons.prems(5)] Cons.prems(2) step show ?thesis by auto
  qed
qed simp

lemma reconcile_origin:
  assumes "svc_ok lib (rc_svc st)" and "gomap_ok actions"
    and "registry lib (rc_svc (snd (reconcileResource lib ord api meta st obj z actions isActive))) (a, b, c) = Some (sch, j)"
  shows "registry lib (rc_svc st) (a, b, c) = Some (sch, j) \<or> a = rr_Schedule obj \<and> c = z \<and> j = mk_job obj z b"
proof (cases "rr_Active obj")
  case False
  then show ?thesis
    using assms by (simp add: reconcileResource_def Let_def disableResource_def updateStatus_def registry_RemoveResource split: if_splits)
next
  case True
  show ?thesis
  proof (cases "api_GetSchedule api (rc_log st) (rr_Schedule obj)")
    case (Inl e)
    with True assms show ?thesis
      by (simp add: reconcileResource_def Let_def updateStatus_def)
  next
    case (Inr schedule)
    show ?thesis
    proof (rule active_reconcile [OF assms(1,2) True Inr, of z meta isActive ord], goal_cases)
      case (1 svc2 scheduled cs2 failed svc3 cs3 log3)
      have "distinct (visit ord [''actions''] (mkeys actions))"
        using assms(2) by simp
      moreover have "n \<in> set scheduled \<longleftrightarrow> registry lib svc2 (rr_Schedule obj, n, z) \<noteq> None"
        if "n \<in> set (visit ord [''actions''] (mkeys actions))" for n
        using that 1(3) [of n] unfolding set_visit mem_mkeys_iff by blast
      moreover have "registry lib svc3 (a, b, c) = Some (sch, j)"
        using assms(3) 1(6) by simp
      ultimately show ?thesis
        using schedule_actions_origin [OF 1(1) _ _ 1(5), of a b c sch j] 1(2) [of a b c] by (auto split: if_splits)
    qed
  qed
qed

section \<open>Properties\<close>

text \<open>Concrete parameters for the witnesses: one schedule, status updates that succeed.\<close>

definition demo_schedule :: schedule where
  "demo_schedule = \<lparr>sc_Name = ''office'',
     sc_Spec = \<lparr>ss_Enabled = None, ss_Actions = [(''stop'', \<lparr>sa_Enabled = None, sa_Cron = ''0 20 * * *''\<rparr>)],
       ss_ActivePeriods = [], ss_InactivePeriods = []\<rparr>,
     sc_Conditions = []\<rparr>"

definition demo_api :: api_server where
  "demo_api = \<lparr>api_GetSchedule = (\<lambda>_ _. Inr demo_schedule), api_StatusUpdate = (\<lambda>_ _ _ _. None), api_Now = 0,
     api_TimeString = show_int\<rparr>"

definition demo_obj :: reconcile_resource where
  "demo_obj = \<lparr>rr_Kind = ''K'', rr_Name = ''n'', rr_Namespace = '''', rr_Schedule = ''office'',
     rr_Active = True, rr_Conditions = []\<rparr>"

abbreviation demo_state :: "(int \<times> string \<times> cron_job) list rc_state" where
  "demo_state \<equiv> \<lparr>rc_svc = New list_cron, rc_log = []\<rparr>"

lemma demo_inv: "svc_inv list_cron (New (list_cron :: (_, cron_job, _) cron_lib))"
proof -
  have "svc_ok list_cron (New (list_cron :: (_, cron_job, _) cron_lib))"
    by (rule svc_ok_New [OF list_cron_contract])
  then show ?thesis by (simp add: svc_ok_def)
qed



text \<open>
  Whatever the resource's spec, the API server's answers and the iteration orders
  are, a reconciliation keeps the service invariant and never touches another resource.
\<close>

theorem reconcile_safe:
  assumes "cron_contract lib" and "svc_inv lib (rc_svc st)" and "gomap_ok actions"
    and "reconcileResource lib ord api meta st obj z actions isActive = (err, st')"
  shows "svc_inv lib (rc_svc st') \<and>
    (\<forall>a b c. c \<noteq> z \<longrightarrow> registry lib (rc_svc st') (a, b, c) = registry lib (rc_svc st) (a, b, c))"
proof -
  from assms have ok: "svc_ok lib (rc_svc st)" by (simp add: svc_ok_def)
  obtain c where "c \<noteq> z"
    using that [of "CHR ''x'' # z"] by simp
  then show ?thesis
    using reconcile_other_resources [OF ok assms(3)] assms(4) svc_ok_def by (metis snd_conv)
qed

theorem reconcile_safe_witness:
  "svc_inv list_cron (rc_svc (snd (reconcileResource list_cron reverse_order demo_api keyed_meta demo_state demo_obj
      ''K:n'' [(''stop'', True)] (\<lambda>b. b))))"
  using reconcile_safe [OF list_cron_contract _ _ surjective_pairing, of demo_state "[(''stop'', True)]"] demo_inv
  by simp

text \<open>
  Disabling a resource takes all its jobs out of the cron, and the status written
  last has no condition of an action and the condition Ready with status False and reason
  Disabled.
\<close>

theorem disabled_resource_cleared:
  assumes "cron_contract lib" and "meta_contract meta" and "svc_inv lib (rc_svc st)" and "\<not> rr_Active obj"
    and "reconcileResource lib ord api meta st obj z actions isActive = (err, st')"
  shows "(\<forall>a b. registry lib (rc_svc st') (a, b, z) = None) \<and>
    (\<exists>log cs. rc_log st' = log @ [EvStatusUpdate (rr_Kind obj) (rr_Name obj) cs] \<and>
       cond_view cs ''Ready'' = Some (ConditionFalse, ''Disabled'', '''') \<and>
       (\<forall>n. cond_view cs (conditionTypeForAction n) = None) \<and>
       err = api_StatusUpdate api log (rr_Kind obj) (rr_Name obj) cs)"
proof -
  from assms have ok: "svc_ok lib (rc_svc st)" by (simp add: svc_ok_def)
  let ?kept = "snd (disableResource lib ord (rc_svc st) (rr_Conditions obj) z)"
  let ?new = "addToConditions meta ?kept (mk_condition (api_Now api) ''Ready'' ConditionFalse ''Disabled'' '''')"
  have gone: "cond_view ?kept (conditionTypeForAction n) = None" for n
    by (simp add: disableResource_def cond_view_filter [where P = "\<lambda>t. \<not> HasPrefix t ''Action''"])
      (simp add: conditionTypeForAction_def HasPrefix_def)
  have "rc_svc st' = RemoveResource lib ord (rc_svc st) z"
    and log: "rc_log st' = (rc_log st @ [EvEvent (rr_Kind obj) (rr_Name obj) EventNormal ''Disabled''
        (''Resource '' @ quoted (rr_Name obj) @ '' is not active'')]) @ [EvStatusUpdate (rr_Kind obj) (rr_Name obj) ?new]"
    and "err = api_StatusUpdate api (rc_log st @ [EvEvent (rr_Kind obj) (rr_Name obj) EventNormal ''Disabled''
        (''Resource '' @ quoted (rr_Name obj) @ '' is not active'')]) (rr_Kind obj) (rr_Name obj) ?new"
    using assms(4,5)
    by (auto simp: reconcileResource_def Let_def disableResource_def updateStatus_def split: if_splits)
  then show ?thesis
    using registry_RemoveResource [OF ok, of ord z] gone assms(2)
    by (intro conjI exI [of _ "rc_log st @ [EvEvent (rr_Kind obj) (rr_Name obj) EventNormal ''Disabled''
        (''Resource '' @ quoted (rr_Name obj) @ '' is not active'')]"] exI [of _ ?new]) simp_all
qed

theorem disabled_resource_cleared_witness:
  "let off = demo_obj\<lparr>rr_Active := False\<rparr>;
       st = snd (reconcileResource list_cron insertion_order demo_api keyed_meta demo_state off ''K:n''
              [(''stop'', True)] (\<lambda>b. b))
   in registry list_cron (rc_svc st) (''office'', ''stop'', ''K:n'') = None"
  using disabled_resource_cleared [OF list_cron_contract keyed_meta_contract _ _ surjective_pairing,
      of demo_state "demo_obj\<lparr>rr_Active := False\<rparr>" insertion_order demo_api "''K:n''" "[(''stop'', True)]" "\<lambda>b. b"]
    demo_inv
  by (simp add: Let_def)



text \<open>
  Claim C30. The status a successful reconciliation writes last tells the truth: Ready is True;
  a disabled action of the spec is marked Disabled; an enabled action that was not registered
  is marked Active when the schedule defines it and MissingAction when it does not; and an
  action that is no longer in the spec but was registered for the resource has no condition.
\<close>

theorem reconcile_conditions:
  assumes "cron_contract lib" and "meta_contract meta" and "svc_inv lib (rc_svc st)" and "gomap_ok actions"
    and "rr_Active obj" and "api_GetSchedule api (rc_log st) (rr_Schedule obj) = Inr schedule"
    and "\<nexists>n. unschedulable (lib_ParseStandard lib) (registry lib (rc_svc st)) (rr_Schedule obj) z
           actions isActive (ss_Actions (sc_Spec schedule)) n"
    and "reconcileResource lib ord api meta st obj z actions isActive = (err, st')"
  shows "\<exists>log cs. rc_log st' = log @ [EvStatusUpdate (rr_Kind obj) (rr_Name obj) cs] \<and>
    cond_view cs ''Ready'' = Some (ConditionTrue, ''Active'', '''') \<and>
    (\<forall>n act. mget actions n = Some act \<and> \<not> isActive act \<longrightarrow>
       cond_view cs (conditionTypeForAction n) = Some (ConditionFalse, ''Disabled'', '''')) \<and>
    (\<forall>n act. mget actions n = Some act \<and> isActive act \<and>
         registry lib (rc_svc st) (rr_Schedule obj, n, z) = None \<longrightarrow>
       cond_view cs (conditionTypeForAction n) =
         (if mget (ss_Actions (sc_Spec schedule)) n \<noteq> None then Some (ConditionTrue, ''Active'', '''')
          else Some (ConditionFalse, ''MissingAction'', ''action not found in '' @ quoted (rr_Schedule obj)))) \<and>
    (\<forall>n a. mget actions n = None \<and> registry lib (rc_svc st) (a, n, z) \<noteq> None \<longrightarrow>
       cond_view cs (conditionTypeForAction n) = None)"
proof -
  from assms have ok: "svc_ok lib (rc_svc st)" by (simp add: svc_ok_def)
  show ?thesis
  proof (rule active_reconcile_result [OF ok assms(4-6) assms(8)], goal_cases)
    case (1 failed cs2 cs3 log3 scheduled)
    from 1(1) assms(7) have f: "failed = None" by blast
    let ?new = "addToConditions meta cs3 (mk_condition (api_Now api) ''Ready'' ConditionTrue ''Active'' '''')"
    have keep: "cond_view ?new (conditionTypeForAction n) = cond_view cs3 (conditionTypeForAction n)" for n
      using assms(2) by simp
    show ?case
    proof (intro exI [of _ log3] exI [of _ ?new] conjI, goal_cases)
      case 1 show ?case using \<open>rc_log st' = _\<close> f by simp
    next
      case 2 show ?case using assms(2) by simp
    next
      case 3 show ?case
        unfolding keep using 1(5) [OF assms(2) f] by (auto simp: action_view_def action_on_def)
    next
      case 4 show ?case
        unfolding keep using 1(5) [OF assms(2) f] 1(3)
        by (auto simp: action_view_def action_on_def split: option.splits)
    next
      case 5 show ?case
        unfolding keep using 1(5) [OF assms(2) f] 1(4) [OF assms(2)] by metis
    qed
  qed
qed

theorem reconcile_conditions_witness:
  "\<exists>log cs. rc_log (snd (reconcileResource list_cron insertion_order demo_api keyed_meta demo_state demo_obj
      ''K:n'' [(''stop'', True), (''start'', True)] (\<lambda>b. b))) = log @ [EvStatusUpdate ''K'' ''n'' cs] \<and>
    cond_view cs ''Ready'' = Some (ConditionTrue, ''Active'', '''') \<and>
    cond_view cs (conditionTypeForAction ''stop'') = Some (ConditionTrue, ''Active'', '''')"
proof -
  let ?actions = "[(''stop'', True), (''start'', True)]"
  have "\<nexists>n. unschedulable (lib_ParseStandard list_cron) (registry list_cron (rc_svc demo_state)) (rr_Schedule demo_obj)
      ''K:n'' ?actions (\<lambda>b. b) (ss_Actions (sc_Spec demo_schedule)) n"
    by (simp add: unschedulable_def bad_cron_def list_cron_def demo_schedule_def)
  moreover have "gomap_ok ?actions" and "rr_Active demo_obj" and "svc_inv list_cron (rc_svc demo_state)"
    and "api_GetSchedule demo_api (rc_log demo_state) (rr_Schedule demo_obj) = Inr demo_schedule"
    and "mget ?actions ''stop'' = Some True" and "mget (ss_Actions (sc_Spec demo_schedule)) ''stop'' \<noteq> None"
    and "registry list_cron (rc_svc demo_state) (rr_Schedule demo_obj, ''stop'', ''K:n'') = None"
    and "rr_Kind demo_obj = ''K''" and "rr_Name demo_obj = ''n''"
    using demo_inv by (simp_all add: demo_obj_def demo_api_def demo_schedule_def)
  ultimately show ?thesis
    using reconcile_conditions [OF list_cron_contract keyed_meta_contract, of demo_state ?actions
        demo_obj demo_api demo_schedule "''K:n''" "\<lambda>b. b" insertion_order,
        OF _ _ _ _ _ surjective_pairing] by metis
qed



end
