(* ===== verification/Cron_Job.thy ===== *)
theory Cron_Job
  imports Resource_Controller
begin

text \<open>
  The closure that a cron entry runs, from \<^verbatim>\<open>reconcileResource\<close> of
  \<^verbatim>\<open>internal/controller/resource_controller.go\<close>. It fetches the schedule again, decides
  whether the action may run now, and then calls the resource's job, records the latency metric
  and hands the outcome to the notification service. The job is a parameter: the controllers of
  the resource kinds supply it. The clock is read once, at the start.
\<close>

section \<open>Definitions\<close>

text \<open>A job gets the log, the object's namespace and name and the action, and answers with its
  result, its metadata and the longer log.\<close>

type_synonym job_fun = "effect_log \<Rightarrow> string \<Rightarrow> string \<Rightarrow> string \<Rightarrow> JobResult \<times> job_metadata \<times> effect_log"

definition minute :: int where
  "minute = 60 * 1000000000"

text \<open>\<^verbatim>\<open>time.Time.Truncate\<close> rounds down to a multiple of the unit since the zero time.\<close>

definition Truncate :: "int \<Rightarrow> int \<Rightarrow> int" where
  "Truncate t d = t - t mod d"

definition in_period :: "int \<Rightarrow> time_period \<Rightarrow> bool" where
  "in_period now p \<longleftrightarrow> (tp_Start p < now \<and> now < tp_End p) \<or> now = tp_Start p \<or> now = tp_End p"

fun action_loop :: "string \<Rightarrow> string list \<Rightarrow> bool \<Rightarrow> bool" where
  "action_loop actionName [] found = found"
| "action_loop actionName (action # rest) found =
     (if action = actionName then True else action_loop actionName rest found)"

text \<open>The loop over the periods; the source has it once for active and once for inactive periods.\<close>

fun period_loop :: "int \<Rightarrow> string \<Rightarrow> time_period list \<Rightarrow> bool \<Rightarrow> bool" where
  "period_loop now actionName [] found = found"
| "period_loop now actionName (p # ps) found =
     (if in_period now p
      then (let found' = (if 0 < length (tp_Actions p) then action_loop actionName (tp_Actions p) found else True)
            in if found' then True else period_loop now actionName ps found')
      else period_loop now actionName ps found)"

definition run_cron_job :: "api_server \<Rightarrow> job_fun \<Rightarrow> cron_job \<Rightarrow> effect_log \<Rightarrow> effect_log" where
  "run_cron_job api job j log =
     (let scheduleName = job_Schedule j; actionName = job_Action j; resource = job_Resource j;
          start = api_Now api;
          observe = (\<lambda>status. EvLatency scheduleName actionName resource (JobResult_String status));
          skip = log @ [observe JobResultSkipped]
      in case api_GetSchedule api log scheduleName of
           Inl err \<Rightarrow> log @ [observe JobResultError]
         | Inr s \<Rightarrow>
             if \<not> ScheduleSpec_IsActive (sc_Spec s) then skip
             else if (case mget (ss_Actions (sc_Spec s)) actionName of
                        None \<Rightarrow> True | Some a \<Rightarrow> \<not> ScheduleAction_IsActive a) then skip
             else (let now = Truncate start minute in
               if 0 < length (ss_ActivePeriods (sc_Spec s)) \<and>
                  \<not> period_loop now actionName (ss_ActivePeriods (sc_Spec s)) False then skip
               else if 0 < length (ss_InactivePeriods (sc_Spec s)) \<and>
                  period_loop now actionName (ss_InactivePeriods (sc_Spec s)) False then skip
               else (let (status, metadata, log') = job log (job_Namespace j) (job_Name j) actionName
                     in log' @ [observe status,
                          EvNotify \<lparr>nb_Schedule = scheduleName, nb_Action = actionName, nb_Resource = resource,
                                    nb_Status = JobResult_String status, nb_Metadata = metadata\<rparr>])))"

section \<open>When an action may run\<close>

text \<open>
  The rule the comments of the code state: an action runs at a minute when the schedule and the
  action are enabled, some active period covers the minute for this action or there are no
  active periods, and no inactive period covers it. A period covers a minute of its closed
  interval, for the actions it names or, when it names none, for all.
\<close>

definition covers :: "int \<Rightarrow> string \<Rightarrow> time_period \<Rightarrow> bool" where
  "covers now actionName p \<longleftrightarrow> tp_Start p \<le> now \<and> now \<le> tp_End p \<and>
     (tp_Actions p = [] \<or> actionName \<in> set (tp_Actions p))"

definition may_run :: "schedule_spec \<Rightarrow> int \<Rightarrow> string \<Rightarrow> bool" where
  "may_run spec now actionName \<longleftrightarrow>
     ScheduleSpec_IsActive spec \<and>
     (\<exists>a. mget (ss_Actions spec) actionName = Some a \<and> ScheduleAction_IsActive a) \<and>
     (ss_ActivePeriods spec = [] \<or> (\<exists>p \<in> set (ss_ActivePeriods spec). covers now actionName p)) \<and>
     \<not> (\<exists>p \<in> set (ss_InactivePeriods spec). covers now actionName p)"

definition ordered_period :: "time_period \<Rightarrow> bool" where
  "ordered_period p \<longleftrightarrow> tp_Start p \<le> tp_End p"

definition ordered_periods :: "schedule_spec \<Rightarrow> bool" where
  "ordered_periods spec \<longleftrightarrow> list_all ordered_period (ss_ActivePeriods spec @ ss_InactivePeriods spec)"

lemma action_loop_iff [simp]: "action_loop a as found \<longleftrightarrow> found \<or> a \<in> set as"
  by (induction as) auto

lemma in_period_ordered: "ordered_period p \<Longrightarrow> in_period now p \<longleftrightarrow> tp_Start p \<le> now \<and> now \<le> tp_End p"
  by (auto simp: in_period_def ordered_period_def)

lemma period_loop_iff:
  "list_all ordered_period ps \<Longrightarrow> period_loop now a ps found \<longleftrightarrow>
     (found \<and> ps = []) \<or> (found \<and> (\<exists>p \<in> set ps. True)) \<or> (\<exists>p \<in> set ps. covers now a p)"
proof (induction ps arbitrary: found)
  case (Cons p ps)
  then show ?case
    by (cases "found"; cases "tp_Actions p = []") (auto simp: Let_def in_period_ordered covers_def)
qed simp

lemma period_loop_False:
  "list_all ordered_period ps \<Longrightarrow> period_loop now a ps False \<longleftrightarrow> (\<exists>p \<in> set ps. covers now a p)"
  by (simp add: period_loop_iff)

lemma Truncate_same_minute: "s div minute = t div minute \<Longrightarrow> Truncate s minute = Truncate t minute"
  by (metis Truncate_def minus_mod_eq_mult_div)

lemma Truncate_le: "Truncate t minute \<le> t" and Truncate_gt: "t < Truncate t minute + minute"
  by (simp_all add: Truncate_def minute_def)

lemma run_cron_job_runs:
  assumes "api_GetSchedule api log (job_Schedule j) = Inr s" and "ordered_periods (sc_Spec s)"
    and "may_run (sc_Spec s) (Truncate (api_Now api) minute) (job_Action j)"
    and "job log (job_Namespace j) (job_Name j) (job_Action j) = (status, metadata, log')"
  shows "run_cron_job api job j log =
    log' @ [EvLatency (job_Schedule j) (job_Action j) (job_Resource j) (JobResult_String status),
      EvNotify \<lparr>nb_Schedule = job_Schedule j, nb_Action = job_Action j, nb_Resource = job_Resource j,
        nb_Status = JobResult_String status, nb_Metadata = metadata\<rparr>]"
proof -
  have "list_all ordered_period (ss_ActivePeriods (sc_Spec s))" and "list_all ordered_period (ss_InactivePeriods (sc_Spec s))"
    using assms(2) by (simp_all add: ordered_periods_def)
  with assms(1,3,4) show ?thesis
    by (auto simp: run_cron_job_def Let_def may_run_def period_loop_False split: option.splits)
qed

section \<open>Properties\<close>

text \<open>
  Claim C4. The closure runs the resource's job exactly when \<open>may_run\<close> allows the action at the
  current minute, for a schedule whose periods are ordered; then it observes the latency under
  the job's status and sends one notification with the schedule, action, resource, status and
  metadata, after the job's own effects. Otherwise its only effect is the latency observation
  Skipped, and Error when the schedule cannot be fetched; no job runs and nobody is notified.
\<close>

theorem cron_job_gate:
  assumes "\<And>s. api_GetSchedule api log (job_Schedule j) = Inr s \<Longrightarrow> ordered_periods (sc_Spec s)"
  shows "run_cron_job api job j log =
    (let observe = (\<lambda>status. EvLatency (job_Schedule j) (job_Action j) (job_Resource j) (JobResult_String status))
     in case api_GetSchedule api log (job_Schedule j) of
          Inl err \<Rightarrow> log @ [observe JobResultError]
        | Inr s \<Rightarrow>
            if may_run (sc_Spec s) (Truncate (api_Now api) minute) (job_Action j)
            then (case job log (job_Namespace j) (job_Name j) (job_Action j) of (status, metadata, log') \<Rightarrow>
              log' @ [observe status, EvNotify \<lparr>nb_Schedule = job_Schedule j, nb_Action = job_Action j,
                nb_Resource = job_Resource j, nb_Status = JobResult_String status, nb_Metadata = metadata\<rparr>])
            else log @ [observe JobResultSkipped])"
proof (cases "api_GetSchedule api log (job_Schedule j)")
  case (Inr s)
  with assms have "list_all ordered_period (ss_ActivePeriods (sc_Spec s))"
    and "list_all ordered_period (ss_InactivePeriods (sc_Spec s))"
    by (simp_all add: ordered_periods_def)
  then show ?thesis
    by (auto simp: run_cron_job_def Inr Let_def may_run_def period_loop_False split: option.splits)
qed (simp add: run_cron_job_def Let_def)

theorem cron_job_gate_witness:
  "run_cron_job demo_api (\<lambda>log _ _ _. (JobResultSuccess, [], log)) (mk_job demo_obj ''K:n'' ''stop'') [] =
     [EvLatency ''office'' ''stop'' ''K:n'' ''Success'',
      EvNotify \<lparr>nb_Schedule = ''office'', nb_Action = ''stop'', nb_Resource = ''K:n'', nb_Status = ''Success'',
                nb_Metadata = []\<rparr>]"
  using cron_job_gate [of demo_api "[]" "mk_job demo_obj ''K:n'' ''stop''" "\<lambda>log _ _ _. (JobResultSuccess, [], log)"]
  by (simp add: demo_api_def demo_obj_def demo_schedule_def mk_job_def ordered_periods_def may_run_def
      ScheduleSpec_IsActive_def ScheduleAction_IsActive_def)

text \<open>
  Inactive periods win over active ones: when an inactive period covers the minute
  for the action, the job does not run, whatever the active periods are.
\<close>

theorem inactive_period_wins:
  assumes "api_GetSchedule api log (job_Schedule j) = Inr s" and "ordered_periods (sc_Spec s)"
    and "p \<in> set (ss_InactivePeriods (sc_Spec s))" and "covers (Truncate (api_Now api) minute) (job_Action j) p"
  shows "run_cron_job api job j log =
    log @ [EvLatency (job_Schedule j) (job_Action j) (job_Resource j) (JobResult_String JobResultSkipped)]"
proof -
  from assms(2) have "list_all ordered_period (ss_InactivePeriods (sc_Spec s))"
    by (simp add: ordered_periods_def)
  moreover have "0 < length (ss_InactivePeriods (sc_Spec s))"
    using assms(3) by (cases "ss_InactivePeriods (sc_Spec s)") auto
  ultimately show ?thesis
    using assms by (auto simp: run_cron_job_def Let_def period_loop_False)
qed

theorem inactive_period_wins_witness:
  "let always = \<lparr>tp_Start = 0, tp_End = 10, tp_Actions = []\<rparr>;
       s = demo_schedule\<lparr>sc_Spec := (sc_Spec demo_schedule)\<lparr>ss_ActivePeriods := [always], ss_InactivePeriods := [always]\<rparr>\<rparr>
   in run_cron_job (demo_api\<lparr>api_GetSchedule := \<lambda>_ _. Inr s\<rparr>) (\<lambda>log _ _ _. (JobResultSuccess, [], log))
        (mk_job demo_obj ''K:n'' ''stop'') [] = [EvLatency ''office'' ''stop'' ''K:n'' ''Skipped'']"
  using inactive_period_wins [of "demo_api\<lparr>api_GetSchedule := \<lambda>_ _. Inr (demo_schedule\<lparr>sc_Spec := (sc_Spec demo_schedule)
      \<lparr>ss_ActivePeriods := [\<lparr>tp_Start = 0, tp_End = 10, tp_Actions = []\<rparr>],
       ss_InactivePeriods := [\<lparr>tp_Start = 0, tp_End = 10, tp_Actions = []\<rparr>]\<rparr>\<rparr>)\<rparr>" "[]"
      "mk_job demo_obj ''K:n'' ''stop''" _ "\<lparr>tp_Start = 0, tp_End = 10, tp_Actions = []\<rparr>"
      "\<lambda>log _ _ _. (JobResultSuccess, [], log)"]
  by (simp add: demo_api_def demo_obj_def mk_job_def ordered_periods_def ordered_period_def covers_def
      Truncate_def minute_def Let_def)

text \<open>
  The decision has the precision of a minute: two firings of a cron entry within the
  same minute have the same effects, so a job that starts seconds late is decided as if it had
  started on time.
\<close>

theorem same_minute_same_run:
  assumes "t div minute = api_Now api div minute"
  shows "run_cron_job (api\<lparr>api_Now := t\<rparr>) job j log = run_cron_job api job j log"
proof -
  have "Truncate t minute = Truncate (api_Now api) minute"
    by (rule Truncate_same_minute) (rule assms)
  then show ?thesis
    by (cases "api_GetSchedule api log (job_Schedule j)") (simp_all add: run_cron_job_def Let_def)
qed

theorem same_minute_same_run_witness:
  "run_cron_job (demo_api\<lparr>api_Now := 59000000000\<rparr>) (\<lambda>log _ _ _. (JobResultSuccess, [], log))
      (mk_job demo_obj ''K:n'' ''stop'') [] =
   run_cron_job demo_api (\<lambda>log _ _ _. (JobResultSuccess, [], log)) (mk_job demo_obj ''K:n'' ''stop'') []"
  by (rule same_minute_same_run) (simp add: demo_api_def minute_def)

end
