(* ===== verification/Schedule_Controller.thy ===== *)
theory Schedule_Controller
  imports Cron_Job
begin

text \<open>
  The reconciler of schedules, \<^verbatim>\<open>internal/controller/schedule_controller.go\<close>. It checks the
  periods and the cron expressions, keeps the schedule's conditions, and moves every cron entry
  registered under the schedule to the cron expression its action has now. The state is the one
  of the resource controller: the schedule service and the log of effects.
\<close>

section \<open>Definitions\<close>

abbreviation schedule_kind :: string where
  "schedule_kind \<equiv> ''Schedule''"

fun check_periods :: "api_server \<Rightarrow> string \<Rightarrow> string \<Rightarrow> time_period list \<Rightarrow> bool \<times> effect_log \<Rightarrow> bool \<times> effect_log" where
  "check_periods api name field [] acc = acc"
| "check_periods api name field (period # periods) (hasInvalidPeriod, log) =
     check_periods api name field periods
       (if tp_End period < tp_Start period
        then (True, log @ [EvEvent schedule_kind name EventWarning ''InvalidPeriod''
               (''Start date '' @ api_TimeString api (tp_Start period) @ '' is after end date '' @
                api_TimeString api (tp_End period) @ '' in '' @ field)])
        else (hasInvalidPeriod, log))"

definition action_condition :: "('c, 'j, 's) cron_lib \<Rightarrow> int \<Rightarrow> string \<Rightarrow> schedule_action \<Rightarrow> condition" where
  "action_condition lib now action c =
     (if \<not> IsValidCron lib (sa_Cron c)
      then mk_condition now (conditionTypeForAction action) ConditionFalse ''InvalidCronExpression''
             (''cron expression '' @ quoted (sa_Cron c) @ '' is invalid'')
      else if \<not> ScheduleAction_IsActive c
      then mk_condition now (conditionTypeForAction action) ConditionFalse ''NotActive'' ''''
      else mk_condition now (conditionTypeForAction action) ConditionTrue ''Active'' '''')"

fun check_actions :: "('c, 'j, 's) cron_lib \<Rightarrow> int \<Rightarrow> meta_api \<Rightarrow> (string, schedule_action) gomap \<Rightarrow> string list \<Rightarrow>
    condition list \<times> bool \<times> string list \<Rightarrow> condition list \<times> bool \<times> string list" where
  "check_actions lib now meta actions [] acc = acc"
| "check_actions lib now meta actions (action # rest) (conditions, ret, specActions) =
     check_actions lib now meta actions rest
       (case mget actions action of
          None \<Rightarrow> (conditions, ret, specActions)
        | Some c \<Rightarrow> (addToConditions meta conditions (action_condition lib now action c),
                     ret \<or> \<not> IsValidCron lib (sa_Cron c), specActions @ [action]))"

definition removeMissingActionFromConditions :: "condition list \<Rightarrow> string list \<Rightarrow> condition list" where
  "removeMissingActionFromConditions conditions actions =
     (if length conditions = 0 then conditions
      else (let activeActionTypes = map conditionTypeForAction actions in
        filter (\<lambda>c. if HasPrefix (c_Type c) ''Action-'' then c_Type c \<in> set activeActionTypes else True) conditions))"

text \<open>
  The nested loop over the registered actions and resources. The first component of the result
  says whether the function returned from inside the loop.
\<close>

fun refresh_resources :: "('c, 'j, 's) cron_lib \<Rightarrow> int \<Rightarrow> meta_api \<Rightarrow> string \<Rightarrow> (string, schedule_action) gomap \<Rightarrow>
    string \<Rightarrow> string list \<Rightarrow> 'c rc_acc \<Rightarrow> bool \<times> 'c rc_acc" where
  "refresh_resources lib now meta scheduleName actions action [] acc = (False, acc)"
| "refresh_resources lib now meta scheduleName actions action (resource # rest) (svc, conditions, log) =
     (case mget actions action of
        None \<Rightarrow>
          (let msg = ''action '' @ quoted action @ '' is used by '' @ quoted resource @
                     '', but was removed from the schedule''
           in (True, svc, addToConditions meta conditions (mk_condition now ''Ready'' ConditionFalse ''MissingAction'' msg),
               log @ [EvEvent schedule_kind scheduleName EventWarning ''MissingAction'' msg]))
      | Some c \<Rightarrow>
          (case UpdateCronSpec lib svc scheduleName action resource (sa_Cron c) of (svc', updated) \<Rightarrow>
             refresh_resources lib now meta scheduleName actions action rest
               (svc', conditions, log @
                 [if \<not> updated
                  then EvEvent schedule_kind scheduleName EventWarning ''FailedUpdate''
                         (''failed to update resource '' @ quoted resource @ '' cron spec for action '' @ quoted action)
                  else EvEvent schedule_kind scheduleName EventNormal ''Updated''
                         (''resource '' @ quoted resource @ '' cron spec for action '' @ quoted action @ '' has been updated'')])))"

fun refresh_actions :: "('c, 'j, 's) cron_lib \<Rightarrow> range_order \<Rightarrow> int \<Rightarrow> meta_api \<Rightarrow> string \<Rightarrow> (string, schedule_action) gomap \<Rightarrow>
    (string, (string, int) gomap) gomap \<Rightarrow> string list \<Rightarrow> 'c rc_acc \<Rightarrow> bool \<times> 'c rc_acc" where
  "refresh_actions lib ord now meta scheduleName actions scheduledActions [] acc = (False, acc)"
| "refresh_actions lib ord now meta scheduleName actions scheduledActions (action # rest) acc =
     (case refresh_resources lib now meta scheduleName actions action
             (visit ord [''refresh'', action] (mkeys (midx scheduledActions action))) acc of
        (True, acc') \<Rightarrow> (True, acc')
      | (False, acc') \<Rightarrow> refresh_actions lib ord now meta scheduleName actions scheduledActions rest acc')"

definition reconcile_schedule :: "('c, 'j, 's) cron_lib \<Rightarrow> range_order \<Rightarrow> api_server \<Rightarrow> meta_api \<Rightarrow> schedule \<Rightarrow>
    'c rc_acc \<Rightarrow> go_error option \<times> 'c rc_acc" where
  "reconcile_schedule lib ord api meta sched acc =
     (let (svc, conditions, log) = acc;
          now = api_Now api; scheduleName = sc_Name sched; actions = ss_Actions (sc_Spec sched);
          (conditions1, ret, specActions) =
            check_actions lib now meta actions (visit ord [''spec''] (mkeys actions)) (conditions, False, []);
          conditions2 = removeMissingActionFromConditions conditions1 specActions
      in if ret
         then (None, svc, addToConditions meta conditions2
                 (mk_condition now ''Ready'' ConditionFalse ''InvalidCronExpression''
                    ''One or more action cron expressions are invalid''), log)
         else (let scheduledActions = GetActions ord svc scheduleName in
           case refresh_actions lib ord now meta scheduleName actions scheduledActions
                  (visit ord [''refresh''] (mkeys scheduledActions)) (svc, conditions2, log) of
             (True, acc') \<Rightarrow> (None, acc')
           | (False, svc', conditions3, log') \<Rightarrow>
               (None, svc',
                if \<not> ScheduleSpec_IsActive (sc_Spec sched)
                then addToConditions meta conditions3 (mk_condition now ''Ready'' ConditionFalse ''Disabled'' '''')
                else addToConditions meta conditions3 (mk_condition now ''Ready'' ConditionTrue ''Active'' ''''),
                log')))"

definition Schedule_Reconcile :: "('c, 'j, 's) cron_lib \<Rightarrow> range_order \<Rightarrow> api_server \<Rightarrow> meta_api \<Rightarrow> 'c rc_state \<Rightarrow> string \<Rightarrow>
    go_error option \<times> 'c rc_state" where
  "Schedule_Reconcile lib ord api meta st name =
     (case api_GetSchedule api (rc_log st) name of
        Inl err \<Rightarrow> if err_IsNotFound err then (None, st) else (Some err, st)
      | Inr sched \<Rightarrow>
          (let conditions = sc_Conditions sched;
               upd = (\<lambda>log cs. api_StatusUpdate api log schedule_kind (sc_Name sched) cs);
               errEvent = (\<lambda>err. EvEvent schedule_kind (sc_Name sched) EventWarning ''ReconcileError''
                             (''Reconcile error: '' @ err_Error err));
               (hasInvalidPeriod, log1) =
                 check_periods api (sc_Name sched) ''InactivePeriods'' (ss_InactivePeriods (sc_Spec sched))
                   (check_periods api (sc_Name sched) ''ActivePeriods'' (ss_ActivePeriods (sc_Spec sched))
                      (False, rc_log st))
           in if hasInvalidPeriod
              then (let cs = addToConditions meta conditions
                          (mk_condition (api_Now api) ''Ready'' ConditionFalse ''InvalidPeriod''
                             ''Start date must be before end date in periods'')
                    in (upd log1 cs, st\<lparr>rc_log := log1 @ [EvStatusUpdate schedule_kind (sc_Name sched) cs]\<rparr>))
              else (case reconcile_schedule lib ord api meta sched (rc_svc st, conditions, log1) of
                  (Some err, svc, cs, log2) \<Rightarrow> (Some err, \<lparr>rc_svc = svc, rc_log = log2 @ [errEvent err]\<rparr>)
                | (None, svc, cs, log2) \<Rightarrow>
                    (let log3 = log2 @ [EvStatusUpdate schedule_kind (sc_Name sched) cs] in
                     case upd log2 cs of
                       Some err \<Rightarrow> (Some err, \<lparr>rc_svc = svc, rc_log = log3 @ [errEvent err]\<rparr>)
                     | None \<Rightarrow> (None, \<lparr>rc_svc = svc, rc_log = log3 @
                         [EvEvent schedule_kind (sc_Name sched) EventNormal ''ReconcileSuccess'' ''Reconcile succeeded'']\<rparr>)))))"

section \<open>Validation\<close>

lemma check_periods_invalid:
  "fst (check_periods api name field ps (bad, log)) \<longleftrightarrow> bad \<or> \<not> list_all ordered_period ps"
  by (induction ps arbitrary: bad log) (auto simp: ordered_period_def)

lemma check_both_periods:
  "fst (check_periods api name f2 (ss_InactivePeriods spec)
     (check_periods api name f1 (ss_ActivePeriods spec) (False, log))) \<longleftrightarrow> \<not> ordered_periods spec"
proof -
  obtain bad log1 where c: "check_periods api name f1 (ss_ActivePeriods spec) (False, log) = (bad, log1)"
    by (cases "check_periods api name f1 (ss_ActivePeriods spec) (False, log)")
  then show ?thesis
    using check_periods_invalid [of api name f1 "ss_ActivePeriods spec" False log]
    by (auto simp: check_periods_invalid ordered_periods_def)
qed

lemma check_actions_spec:
  assumes "set names \<subseteq> set (mkeys actions)"
  shows "fst (snd (check_actions lib now meta actions names (cs, ret, acc))) \<longleftrightarrow>
      ret \<or> (\<exists>n \<in> set names. \<exists>c. mget actions n = Some c \<and> \<not> IsValidCron lib (sa_Cron c))"
    and "snd (snd (check_actions lib now meta actions names (cs, ret, acc))) = acc @ names"
proof -
  have "(fst (snd (check_actions lib now meta actions names (cs, ret, acc))) \<longleftrightarrow>
      ret \<or> (\<exists>n \<in> set names. \<exists>c. mget actions n = Some c \<and> \<not> IsValidCron lib (sa_Cron c))) \<and>
    snd (snd (check_actions lib now meta actions names (cs, ret, acc))) = acc @ names"
    using assms
  proof (induction names arbitrary: cs ret acc)
    case (Cons n names)
    from Cons.prems have "n \<in> set (mkeys actions)" by simp
    then obtain c where "mget actions n = Some c"
      unfolding mem_mkeys_iff by auto
    with Cons show ?case by auto
  qed simp
  then show "fst (snd (check_actions lib now meta actions names (cs, ret, acc))) \<longleftrightarrow>
      ret \<or> (\<exists>n \<in> set names. \<exists>c. mget actions n = Some c \<and> \<not> IsValidCron lib (sa_Cron c))"
    and "snd (snd (check_actions lib now meta actions names (cs, ret, acc))) = acc @ names"
    by blast+
qed

text \<open>What a reader of the schedule's status sees for an action of the spec.\<close>

definition action_status :: "('c, 'j, 's) cron_lib \<Rightarrow> schedule_action \<Rightarrow> cond_status \<times> string \<times> string" where
  "action_status lib c =
     (if \<not> IsValidCron lib (sa_Cron c)
      then (ConditionFalse, ''InvalidCronExpression'', ''cron expression '' @ quoted (sa_Cron c) @ '' is invalid'')
      else if \<not> ScheduleAction_IsActive c then (ConditionFalse, ''NotActive'', '''')
      else (ConditionTrue, ''Active'', ''''))"

lemma cond_view_action_condition:
  "meta_contract meta \<Longrightarrow> cond_view (addToConditions meta cs (action_condition lib now n c)) t =
     (if t = conditionTypeForAction n then Some (action_status lib c) else cond_view cs t)"
  by (simp add: action_condition_def action_status_def)

lemma check_actions_view:
  assumes "meta_contract meta" and "set names \<subseteq> set (mkeys actions)"
  shows "cond_view (fst (check_actions lib now meta actions names (cs, ret, acc))) t =
    (if \<exists>n \<in> set names. t = conditionTypeForAction n
     then map_option (action_status lib) (mget actions (THE n. t = conditionTypeForAction n))
     else cond_view cs t)"
  using assms(2)
proof (induction names arbitrary: cs ret acc)
  case (Cons n names)
  from Cons.prems have "n \<in> set (mkeys actions)" by simp
  then obtain c where "mget actions n = Some c"
    unfolding mem_mkeys_iff by auto
  with Cons show ?case
    by (auto simp: cond_view_action_condition [OF assms(1)])
qed simp

lemma removeMissing_view:
  "cond_view (removeMissingActionFromConditions cs as) t =
     (if HasPrefix t ''Action-'' \<and> t \<notin> conditionTypeForAction ` set as then None else cond_view cs t)"
  by (auto simp: removeMissingActionFromConditions_def Let_def
      cond_view_filter [where P = "\<lambda>t. HasPrefix t ''Action-'' \<longrightarrow> t \<in> conditionTypeForAction ` set as"]
      simp del: cond_view_filter)

section \<open>Refreshing the cron specs\<close>

text \<open>What a refresh leaves for a registered key of the schedule: the same job on the schedule its
  action has now.\<close>

definition refreshed :: "(string \<Rightarrow> go_error + 's) \<Rightarrow> (string, schedule_action) gomap \<Rightarrow> string \<Rightarrow>
    ('s \<times> 'j) option \<Rightarrow> ('s \<times> 'j) option" where
  "refreshed parse actions b old = (case (old, mget actions b) of
      (Some (sch0, j), Some sa) \<Rightarrow> (case parse (sa_Cron sa) of Inl e \<Rightarrow> old | Inr sch \<Rightarrow> Some (sch, j))
    | _ \<Rightarrow> old)"

lemma refreshed_idem [simp]: "refreshed parse actions b (refreshed parse actions b old) = refreshed parse actions b old"
  by (auto simp: refreshed_def split: option.splits sum.splits)

lemma refreshed_None_iff [simp]: "refreshed parse actions b old = None \<longleftrightarrow> old = None"
  by (auto simp: refreshed_def split: option.splits sum.splits)

lemma registry_update_refreshed:
  assumes "svc_ok lib svc" and "mget actions b = Some c"
  shows "registry lib (fst (UpdateCronSpec lib svc x b z (sa_Cron c))) =
    (registry lib svc)((x, b, z) := refreshed (lib_ParseStandard lib) actions b (registry lib svc (x, b, z)))"
  using assms by (auto simp: registry_UpdateCronSpec refreshed_def fun_eq_iff split: option.splits sum.splits)

text \<open>
  The loops touch keys of the schedule only, and each of these is as before or refreshed; when
  the loops do not return early, every key they visit is refreshed.
\<close>

definition partly_refreshed :: "(string \<Rightarrow> go_error + 's) \<Rightarrow> (string, schedule_action) gomap \<Rightarrow> string \<Rightarrow>
    (cron_key \<Rightarrow> ('s \<times> 'j) option) \<Rightarrow> (cron_key \<Rightarrow> ('s \<times> 'j) option) \<Rightarrow> bool" where
  "partly_refreshed parse actions x R R' \<longleftrightarrow> (\<forall>a b z. R' (a, b, z) = R (a, b, z) \<or>
     (a = x \<and> R' (a, b, z) = refreshed parse actions b (R (a, b, z))))"

lemma partly_refreshed_refl [simp]: "partly_refreshed parse actions x R R"
  by (simp add: partly_refreshed_def)

lemma partly_refreshed_trans:
  "partly_refreshed parse actions x R S \<Longrightarrow> partly_refreshed parse actions x S T \<Longrightarrow> partly_refreshed parse actions x R T"
  unfolding partly_refreshed_def by (metis refreshed_idem)

lemma partly_refreshed_upd:
  "partly_refreshed parse actions x R (R((x, b, z) := refreshed parse actions b (R (x, b, z))))"
  by (simp add: partly_refreshed_def)

lemma partly_refreshed_keeps:
  "partly_refreshed parse actions x R S \<Longrightarrow> R (x, b, z) = refreshed parse actions b old \<Longrightarrow>
     S (x, b, z) = refreshed parse actions b old"
  unfolding partly_refreshed_def by (metis refreshed_idem)

definition missing_reported :: "meta_api \<Rightarrow> int \<Rightarrow> condition list \<Rightarrow> condition list \<Rightarrow> bool" where
  "missing_reported meta now cs cs' \<longleftrightarrow>
     (\<exists>msg. cs' = addToConditions meta cs (mk_condition now ''Ready'' ConditionFalse ''MissingAction'' msg))"

lemma refresh_resources_spec:
  assumes "svc_ok lib svc"
    and "refresh_resources lib now meta x actions b rs (svc, cs, log) = (returned, svc', cs', log')"
  shows "svc_ok lib svc' \<and> partly_refreshed (lib_ParseStandard lib) actions x (registry lib svc) (registry lib svc') \<and>
    (\<not> returned \<longrightarrow> cs' = cs \<and> (\<forall>z \<in> set rs.
       registry lib svc' (x, b, z) = refreshed (lib_ParseStandard lib) actions b (registry lib svc (x, b, z)))) \<and>
    (returned \<longleftrightarrow> rs \<noteq> [] \<and> mget actions b = None) \<and> (returned \<longrightarrow> missing_reported meta now cs cs')"
  using assms
proof (induction rs arbitrary: svc cs log)
  case (Cons r rs)
  show ?case
  proof (cases "mget actions b")
    case None
    with Cons.prems show ?thesis by (auto simp: Let_def missing_reported_def)
  next
    case (Some c)
    obtain svc1 upd where u: "UpdateCronSpec lib svc x b r (sa_Cron c) = (svc1, upd)"
      by (cases "UpdateCronSpec lib svc x b r (sa_Cron c)")
    have ok1: "svc_ok lib svc1"
      using UpdateCronSpec_ok [OF Cons.prems(1), of x b r "sa_Cron c"] by (simp add: u)
    have reg1: "registry lib svc1 = (registry lib svc)((x, b, r) :=
        refreshed (lib_ParseStandard lib) actions b (registry lib svc (x, b, r)))"
      using registry_update_refreshed [OF Cons.prems(1) Some, of x r] by (simp add: u)
    from Cons.prems(2) obtain log1 where rest:
      "refresh_resources lib now meta x actions b rs (svc1, cs, log1) = (returned, svc', cs', log')"
      by (auto simp: Some u)
    note IH = Cons.IH [OF ok1 rest]
    have part: "partly_refreshed (lib_ParseStandard lib) actions x (registry lib svc) (registry lib svc')"
      using partly_refreshed_trans [OF partly_refreshed_upd [of "lib_ParseStandard lib" actions x "registry lib svc" b r,
            folded reg1] conjunct1 [OF conjunct2 [OF IH]]] .
    have "registry lib svc' (x, b, r) = refreshed (lib_ParseStandard lib) actions b (registry lib svc (x, b, r))"
      by (rule partly_refreshed_keeps [OF conjunct1 [OF conjunct2 [OF IH]]]) (simp add: reg1)
    moreover have "refreshed (lib_ParseStandard lib) actions b (registry lib svc1 (x, b, z)) =
        refreshed (lib_ParseStandard lib) actions b (registry lib svc (x, b, z))" for z
      by (simp add: reg1)
    ultimately show ?thesis
      using IH part Some by auto
  qed
qed simp

lemma refresh_actions_spec:
  assumes "svc_ok lib svc"
    and "refresh_actions lib ord now meta x actions scheduled bs (svc, cs, log) = (returned, svc', cs', log')"
  shows "svc_ok lib svc' \<and> partly_refreshed (lib_ParseStandard lib) actions x (registry lib svc) (registry lib svc') \<and>
    (\<not> returned \<longrightarrow> cs' = cs \<and> (\<forall>b \<in> set bs. \<forall>z \<in> set (mkeys (midx scheduled b)).
       registry lib svc' (x, b, z) = refreshed (lib_ParseStandard lib) actions b (registry lib svc (x, b, z)))) \<and>
    (returned \<longleftrightarrow> (\<exists>b \<in> set bs. midx scheduled b \<noteq> [] \<and> mget actions b = None)) \<and>
    (returned \<longrightarrow> missing_reported meta now cs cs')"
  using assms
proof (induction bs arbitrary: svc cs log)
  case (Cons b bs)
  let ?rs = "visit ord [''refresh'', b] (mkeys (midx scheduled b))"
  obtain ret1 svc1 cs1 log1 where r1: "refresh_resources lib now meta x actions b ?rs (svc, cs, log) = (ret1, svc1, cs1, log1)"
    by (metis prod_cases4)
  note one = refresh_resources_spec [OF Cons.prems(1) r1]
  have ne: "?rs \<noteq> [] \<longleftrightarrow> midx scheduled b \<noteq> []"
    by (metis length_0_conv length_map length_visit)
  show ?case
  proof (cases ret1)
    case True
    with Cons.prems(2) one ne show ?thesis by (auto simp: r1)
  next
    case False
    with Cons.prems(2) have rest: "refresh_actions lib ord now meta x actions scheduled bs (svc1, cs1, log1) =
        (returned, svc', cs', log')"
      by (simp add: r1)
    note IH = Cons.IH [OF conjunct1 [OF one] rest]
    let ?ref = "refreshed (lib_ParseStandard lib) actions"
    have part: "partly_refreshed (lib_ParseStandard lib) actions x (registry lib svc) (registry lib svc')"
      using partly_refreshed_trans [OF conjunct1 [OF conjunct2 [OF one]] conjunct1 [OF conjunct2 [OF IH]]] .
    have first: "registry lib svc' (x, b, z) = ?ref b (registry lib svc (x, b, z))" if "z \<in> set ?rs" for z
      by (rule partly_refreshed_keeps [OF conjunct1 [OF conjunct2 [OF IH]]]) (use one that False in blast)
    have same: "?ref c (registry lib svc1 (x, c, z)) = ?ref c (registry lib svc (x, c, z))" for c z
      using one unfolding partly_refreshed_def by (metis refreshed_idem)
    have later: "\<not> returned \<Longrightarrow> \<forall>c \<in> set bs. \<forall>z \<in> set (mkeys (midx scheduled c)).
        registry lib svc' (x, c, z) = ?ref c (registry lib svc (x, c, z))"
      using IH unfolding same by blast
    have "returned \<longleftrightarrow> (\<exists>c \<in> set (b # bs). midx scheduled c \<noteq> [] \<and> mget actions c = None)"
      using IH one ne False by auto
    moreover have "\<not> returned \<longrightarrow> cs' = cs \<and> (\<forall>c \<in> set (b # bs). \<forall>z \<in> set (mkeys (midx scheduled c)).
        registry lib svc' (x, c, z) = ?ref c (registry lib svc (x, c, z)))"
      using IH one False first later unfolding set_visit by simp
    moreover have "returned \<longrightarrow> missing_reported meta now cs cs'"
      using IH one False by blast
    ultimately show ?thesis
      using IH part by blast
  qed
qed simp

text \<open>The keys of the copy that \<open>GetActions\<close> hands out.\<close>

lemma midx_GetActions_nonempty:
  "midx (GetActions ord s x) b \<noteq> [] \<longleftrightarrow> (\<exists>z. lookup3 (svc_m s) (x, b, z) \<noteq> None)"
proof -
  have "midx (GetActions ord s x) b \<noteq> [] \<longleftrightarrow> (\<exists>z. z \<in> set (mkeys (midx (GetActions ord s x) b)))"
    by (cases "midx (GetActions ord s x) b") auto
  then show ?thesis
    unfolding mem_mkeys_iff mget_GetActions .
qed

lemma mem_mkeys_GetActions:
  "lookup3 (svc_m s) (x, b, z) \<noteq> None \<Longrightarrow>
     b \<in> set (mkeys (GetActions ord s x)) \<and> z \<in> set (mkeys (midx (GetActions ord s x) b))"
  using mget_GetActions [of ord s x b z] unfolding mem_mkeys_iff by (auto simp: midx_def split: option.splits)

lemma schedule_spec_keys: "set (visit ord site (mkeys m)) \<subseteq> set (mkeys m)"
  by simp

definition invalid_crons :: "('c, 'j, 's) cron_lib \<Rightarrow> (string, schedule_action) gomap \<Rightarrow> bool" where
  "invalid_crons lib actions \<longleftrightarrow> (\<exists>n c. mget actions n = Some c \<and> \<not> IsValidCron lib (sa_Cron c))"

definition orphaned_actions :: "(cron_key \<Rightarrow> 'v option) \<Rightarrow> string \<Rightarrow> (string, schedule_action) gomap \<Rightarrow> bool" where
  "orphaned_actions R x actions \<longleftrightarrow> (\<exists>b z. R (x, b, z) \<noteq> None \<and> mget actions b = None)"

lemma mget_mem_mkeys: "mget m n = Some c \<Longrightarrow> n \<in> set (mkeys m)"
  unfolding mem_mkeys_iff by simp

text \<open>The whole of \<^verbatim>\<open>reconcile\<close>: its three ways to end.\<close>

lemma reconcile_schedule_spec:
  assumes ok: "svc_ok lib svc"
    and r: "reconcile_schedule lib ord api meta sched (svc, cs, log) = (err, svc', cs', log')"
  defines "actions \<equiv> ss_Actions (sc_Spec sched)" and "x \<equiv> sc_Name sched"
  obtains csa where "err = None" and "svc_ok lib svc'"
    and "partly_refreshed (lib_ParseStandard lib) actions x (registry lib svc) (registry lib svc')"
    and "meta_contract meta \<Longrightarrow> (\<And>n. cond_view csa (conditionTypeForAction n) = map_option (action_status lib) (mget actions n))"
    and "invalid_crons lib actions \<Longrightarrow> svc' = svc \<and> cs' = addToConditions meta csa (mk_condition (api_Now api) ''Ready''
        ConditionFalse ''InvalidCronExpression'' ''One or more action cron expressions are invalid'')"
    and "\<not> invalid_crons lib actions \<Longrightarrow> \<not> orphaned_actions (registry lib svc) x actions \<Longrightarrow>
      (\<forall>b z. registry lib svc' (x, b, z) = refreshed (lib_ParseStandard lib) actions b (registry lib svc (x, b, z))) \<and>
      cs' = addToConditions meta csa (if ScheduleSpec_IsActive (sc_Spec sched)
        then mk_condition (api_Now api) ''Ready'' ConditionTrue ''Active'' ''''
        else mk_condition (api_Now api) ''Ready'' ConditionFalse ''Disabled'' '''')"
    and "\<not> invalid_crons lib actions \<Longrightarrow> orphaned_actions (registry lib svc) x actions \<Longrightarrow>
      missing_reported meta (api_Now api) csa cs'"
proof -
  let ?names = "visit ord [''spec''] (mkeys actions)"
  obtain cs1 ret specs where ca: "check_actions lib (api_Now api) meta actions ?names (cs, False, []) = (cs1, ret, specs)"
    by (metis prod_cases3)
  have bad: "ret \<longleftrightarrow> invalid_crons lib actions" and specs: "specs = ?names"
    using check_actions_spec [OF schedule_spec_keys, of lib "api_Now api" meta actions ord "[''spec'']" cs False "[]"]
      mget_mem_mkeys [of actions]
    unfolding ca invalid_crons_def set_visit by (auto simp del: set_map)
  let ?csa = "removeMissingActionFromConditions cs1 specs"
  have view: "cond_view ?csa (conditionTypeForAction n) = map_option (action_status lib) (mget actions n)"
    if "meta_contract meta" for n
  proof -
    have "HasPrefix (conditionTypeForAction n) ''Action-''"
      by (simp add: conditionTypeForAction_def HasPrefix_def)
    moreover have "n \<in> set ?names \<longleftrightarrow> mget actions n \<noteq> None"
      unfolding set_visit mem_mkeys_iff ..
    ultimately show ?thesis
      using check_actions_view [OF that schedule_spec_keys, of lib "api_Now api" actions ord "[''spec'']" cs False "[]"]
      unfolding removeMissing_view specs by (auto simp: ca simp del: set_visit)
  qed
  show thesis
  proof (cases ret)
    case True
    then have res: "err = None" "svc' = svc" and cs': "cs' = addToConditions meta ?csa (mk_condition (api_Now api) ''Ready''
        ConditionFalse ''InvalidCronExpression'' ''One or more action cron expressions are invalid'')"
      using r by (simp_all add: reconcile_schedule_def Let_def ca actions_def [symmetric])
    show thesis
      by (rule that [of ?csa]) (use res cs' ok bad True view in simp_all)
  next
    case False
    let ?sched = "GetActions ord svc x"
    obtain returned svc1 cs2 log1 where ra: "refresh_actions lib ord (api_Now api) meta x actions ?sched
        (visit ord [''refresh''] (mkeys ?sched)) (svc, ?csa, log) = (returned, svc1, cs2, log1)"
      by (metis prod_cases4)
    note sp = refresh_actions_spec [OF ok ra]
    have reg: "registry lib svc (x, b, z) \<noteq> None \<longleftrightarrow> lookup3 (svc_m svc) (x, b, z) \<noteq> None" for b z
      by (simp only: registry_None_iff [OF ok])
    have ret: "returned \<longleftrightarrow> orphaned_actions (registry lib svc) x actions"
      using sp mem_mkeys_GetActions [of svc x _ _ ord]
      unfolding orphaned_actions_def reg set_visit midx_GetActions_nonempty by blast
    have all: "registry lib svc1 (x, b, z) = refreshed (lib_ParseStandard lib) actions b (registry lib svc (x, b, z))"
      if "\<not> returned" for b z
    proof (cases "registry lib svc (x, b, z)")
      case None
      with sp have "registry lib svc1 (x, b, z) = None"
        unfolding partly_refreshed_def by (metis refreshed_None_iff)
      with None show ?thesis by (metis refreshed_None_iff)
    next
      case (Some e)
      then have "b \<in> set (mkeys ?sched) \<and> z \<in> set (mkeys (midx ?sched b))"
        using reg [of b z] by (intro mem_mkeys_GetActions) simp
      then show ?thesis
        using sp that unfolding set_visit by blast
    qed
    have res: "err = None" "svc' = svc1"
      and cs': "\<not> returned \<Longrightarrow> cs' = addToConditions meta cs2 (if ScheduleSpec_IsActive (sc_Spec sched)
        then mk_condition (api_Now api) ''Ready'' ConditionTrue ''Active'' ''''
        else mk_condition (api_Now api) ''Ready'' ConditionFalse ''Disabled'' '''')"
      and cs'': "returned \<Longrightarrow> cs' = cs2"
      using r False ra
      by (auto simp: reconcile_schedule_def Let_def ca actions_def [symmetric] x_def [symmetric]
          split: bool.splits if_splits)
    show thesis
    proof (rule that [of ?csa], goal_cases)
      case 5
      then show ?case using False bad by blast
    next
      case 6
      then show ?case using ret sp all cs' unfolding res(2) by blast
    next
      case 7
      then show ?case using ret sp cs'' by blast
    qed (use res sp view in simp_all)
  qed
qed

text \<open>Reconciling a schedule that is found and has ordered periods is \<open>reconcile_schedule\<close> plus the
  status update.\<close>

lemma Schedule_Reconcile_found:
  assumes get: "api_GetSchedule api (rc_log st) name = Inr sched" and per: "ordered_periods (sc_Spec sched)"
    and r: "Schedule_Reconcile lib ord api meta st name = (err, st')" and ok: "svc_ok lib (rc_svc st)"
  obtains svc' cs' log1 log2 rest where
    "reconcile_schedule lib ord api meta sched (rc_svc st, sc_Conditions sched, log1) = (None, svc', cs', log2)"
    and "rc_svc st' = svc'" and "err = api_StatusUpdate api log2 schedule_kind (sc_Name sched) cs'"
    and "rc_log st' = log2 @ [EvStatusUpdate schedule_kind (sc_Name sched) cs', rest]"
    and "\<And>k n cs. rest \<noteq> EvStatusUpdate k n cs"
proof -
  obtain bad log1 where c: "check_periods api (sc_Name sched) ''InactivePeriods'' (ss_InactivePeriods (sc_Spec sched))
      (check_periods api (sc_Name sched) ''ActivePeriods'' (ss_ActivePeriods (sc_Spec sched)) (False, rc_log st)) = (bad, log1)"
    by (metis prod.exhaust)
  with per check_both_periods [of api "sc_Name sched" _ "sc_Spec sched"] have nb: "\<not> bad"
    by (metis fst_conv)
  obtain e svc' cs' log2 where rs:
    "reconcile_schedule lib ord api meta sched (rc_svc st, sc_Conditions sched, log1) = (e, svc', cs', log2)"
    by (metis prod_cases4)
  have "e = None"
    by (rule reconcile_schedule_spec [OF ok rs])
  then show thesis
    using r get nb c rs that [of log1 svc' cs' log2]
    by (auto simp: Schedule_Reconcile_def Let_def split: option.splits)
qed

lemma Schedule_Reconcile_early:
  assumes "Schedule_Reconcile lib ord api meta st name = (err, st')"
    and "\<And>sched. api_GetSchedule api (rc_log st) name = Inr sched \<Longrightarrow> \<not> ordered_periods (sc_Spec sched)"
  shows "rc_svc st' = rc_svc st"
proof (cases "api_GetSchedule api (rc_log st) name")
  case (Inl e)
  with assms(1) show ?thesis by (auto simp: Schedule_Reconcile_def split: if_splits)
next
  case (Inr sched)
  obtain bad log1 where c: "check_periods api (sc_Name sched) ''InactivePeriods'' (ss_InactivePeriods (sc_Spec sched))
      (check_periods api (sc_Name sched) ''ActivePeriods'' (ss_ActivePeriods (sc_Spec sched)) (False, rc_log st)) = (bad, log1)"
    by (metis prod.exhaust)
  with assms(2) [OF Inr] check_both_periods [of api "sc_Name sched" _ "sc_Spec sched"] have "bad"
    by (metis fst_conv)
  with assms(1) Inr c show ?thesis by (auto simp: Schedule_Reconcile_def Let_def)
qed

section \<open>Properties\<close>

lemma Schedule_Reconcile_registry:
  assumes ok: "svc_ok lib (rc_svc st)" and r: "Schedule_Reconcile lib ord api meta st name = (err, st')"
  shows "svc_ok lib (rc_svc st') \<and> (rc_svc st' = rc_svc st \<or>
    (\<exists>sched. api_GetSchedule api (rc_log st) name = Inr sched \<and>
       partly_refreshed (lib_ParseStandard lib) (ss_Actions (sc_Spec sched)) (sc_Name sched)
         (registry lib (rc_svc st)) (registry lib (rc_svc st'))))"
proof (cases "\<exists>sched. api_GetSchedule api (rc_log st) name = Inr sched \<and> ordered_periods (sc_Spec sched)")
  case False
  then have "rc_svc st' = rc_svc st"
    using Schedule_Reconcile_early [OF r] by blast
  with ok show ?thesis by simp
next
  case True
  then obtain sched where get: "api_GetSchedule api (rc_log st) name = Inr sched" and per: "ordered_periods (sc_Spec sched)"
    by blast
  show ?thesis
  proof (rule Schedule_Reconcile_found [OF get per r ok], goal_cases)
    case (1 svc' cs' log1 log2 rest)
    show ?thesis
      by (rule reconcile_schedule_spec [OF ok 1(1)]) (use get 1(2) in simp)
  qed
qed

text \<open>
  Claim C12. Reconciling a valid schedule moves every cron entry registered under it to the cron
  expression its action has now, keeps the jobs, and leaves the entries of other schedules
  alone. Valid means: ordered periods, cron expressions that parse, and no registered action
  that the schedule no longer defines.
\<close>

theorem schedule_refresh_exact:
  assumes "cron_contract lib" and "svc_inv lib (rc_svc st)"
    and "api_GetSchedule api (rc_log st) name = Inr sched" and "ordered_periods (sc_Spec sched)"
    and "\<not> invalid_crons lib (ss_Actions (sc_Spec sched))"
    and "\<not> orphaned_actions (registry lib (rc_svc st)) (sc_Name sched) (ss_Actions (sc_Spec sched))"
    and "Schedule_Reconcile lib ord api meta st name = (err, st')"
  shows "\<forall>a b z. registry lib (rc_svc st') (a, b, z) =
    (if a = sc_Name sched
     then (case (registry lib (rc_svc st) (a, b, z), mget (ss_Actions (sc_Spec sched)) b) of
         (Some (sch0, j), Some sa) \<Rightarrow> (case lib_ParseStandard lib (sa_Cron sa) of
             Inr sch \<Rightarrow> Some (sch, j) | Inl e \<Rightarrow> None)
       | _ \<Rightarrow> None)
     else registry lib (rc_svc st) (a, b, z))"
proof -
  from assms have ok: "svc_ok lib (rc_svc st)" by (simp add: svc_ok_def)
  let ?ref = "refreshed (lib_ParseStandard lib) (ss_Actions (sc_Spec sched))"
  have all: "(\<forall>b z. registry lib (rc_svc st') (sc_Name sched, b, z) =
      ?ref b (registry lib (rc_svc st) (sc_Name sched, b, z))) \<and>
    partly_refreshed (lib_ParseStandard lib) (ss_Actions (sc_Spec sched)) (sc_Name sched)
      (registry lib (rc_svc st)) (registry lib (rc_svc st'))"
  proof (rule Schedule_Reconcile_found [OF assms(3,4,7) ok], goal_cases)
    case (1 svc' cs' log1 log2 rest)
    show ?case
      by (rule reconcile_schedule_spec [OF ok 1(1)]) (use assms(5,6) 1(2) in simp)
  qed
  show ?thesis
  proof (intro allI)
    fix a b z
    show "registry lib (rc_svc st') (a, b, z) = (if a = sc_Name sched
     then (case (registry lib (rc_svc st) (a, b, z), mget (ss_Actions (sc_Spec sched)) b) of
         (Some (sch0, j), Some sa) \<Rightarrow> (case lib_ParseStandard lib (sa_Cron sa) of
             Inr sch \<Rightarrow> Some (sch, j) | Inl e \<Rightarrow> None)
       | _ \<Rightarrow> None)
     else registry lib (rc_svc st) (a, b, z))"
    proof (cases "a = sc_Name sched")
      case x: True
      have eq: "registry lib (rc_svc st') (a, b, z) = ?ref b (registry lib (rc_svc st) (a, b, z))"
        using all x by blast
      show ?thesis
      proof (cases "registry lib (rc_svc st) (a, b, z)")
        case None
        with eq x show ?thesis by (simp add: refreshed_def)
      next
        case (Some e)
        with x assms(6) obtain sa where sa: "mget (ss_Actions (sc_Spec sched)) b = Some sa"
          unfolding orphaned_actions_def by (metis option.exhaust option.distinct(1))
        with assms(5) obtain sch where "lib_ParseStandard lib (sa_Cron sa) = Inr sch"
          unfolding invalid_crons_def IsValidCron_def by (metis sum.exhaust sum.simps(5))
        with eq x Some sa show ?thesis by (cases e) (simp add: refreshed_def)
      qed
    next
      case False
      then show ?thesis using all unfolding partly_refreshed_def by (simp only: if_False) blast
    qed
  qed
qed

text \<open>A state with two registered actions of one resource, for the witnesses.\<close>

definition two_ops :: "(range_order \<times> nat cron_op) list" where
  "two_ops = [(insertion_order, AddOp (''office'', ''start'', ''r'') ''@daily'' 1),
              (insertion_order, AddOp (''office'', ''stop'', ''r'') ''@daily'' 2)]"

definition two_jobs :: "(int \<times> string \<times> nat) list rc_state" where
  "two_jobs = \<lparr>rc_svc = exec_ops list_cron (New list_cron) two_ops, rc_log = []\<rparr>"

definition api_for :: "(string, schedule_action) gomap \<Rightarrow> api_server" where
  "api_for actions = demo_api\<lparr>api_GetSchedule := \<lambda>_ _. Inr (demo_schedule\<lparr>sc_Spec :=
     (sc_Spec demo_schedule)\<lparr>ss_Actions := actions\<rparr>\<rparr>)\<rparr>"

lemma two_jobs_refine:
  "svc_ok list_cron (rc_svc two_jobs) \<and>
   registry list_cron (rc_svc two_jobs) = spec_ops (lib_ParseStandard (list_cron :: (_, nat, _) cron_lib)) Map.empty two_ops"
proof -
  have ok: "svc_ok list_cron (New (list_cron :: (_, nat, _) cron_lib))"
    by (rule svc_ok_New [OF list_cron_contract])
  have "all_enabled (lib_ParseStandard (list_cron :: (_, nat, _) cron_lib)) (registry list_cron (New list_cron)) two_ops"
    by (simp add: list_cron_def two_ops_def)
  from exec_ops_refine [OF ok this] show ?thesis
    by (simp add: two_jobs_def)
qed

lemma two_jobs_inv: "svc_inv list_cron (rc_svc two_jobs)"
  using two_jobs_refine by (simp add: svc_ok_def)

lemma two_jobs_registry:
  "registry list_cron (rc_svc two_jobs) =
     [(''office'', ''start'', ''r'') \<mapsto> (''@daily'', 1), (''office'', ''stop'', ''r'') \<mapsto> (''@daily'', 2)]"
  using two_jobs_refine by (simp add: list_cron_def two_ops_def)

theorem schedule_refresh_exact_witness:
  "let acts = [(''start'', \<lparr>sa_Enabled = None, sa_Cron = ''@hourly''\<rparr>),
               (''stop'', \<lparr>sa_Enabled = None, sa_Cron = ''@hourly''\<rparr>)]
   in registry list_cron (rc_svc (snd (Schedule_Reconcile list_cron reverse_order (api_for acts) keyed_meta two_jobs ''office'')))
        (''office'', ''stop'', ''r'') = Some (''@hourly'', 2)"
proof -
  let ?acts = "[(''start'', \<lparr>sa_Enabled = None, sa_Cron = ''@hourly''\<rparr>),
               (''stop'', \<lparr>sa_Enabled = None, sa_Cron = ''@hourly''\<rparr>)]"
  let ?sched = "demo_schedule\<lparr>sc_Spec := (sc_Spec demo_schedule)\<lparr>ss_Actions := ?acts\<rparr>\<rparr>"
  have get: "api_GetSchedule (api_for ?acts) (rc_log two_jobs) ''office'' = Inr ?sched"
    by (simp add: api_for_def)
  have per: "ordered_periods (sc_Spec ?sched)"
    by (simp add: ordered_periods_def demo_schedule_def)
  have inval: "\<not> invalid_crons (list_cron :: (_, nat, _) cron_lib) (ss_Actions (sc_Spec ?sched))"
    by (simp add: invalid_crons_def IsValidCron_def list_cron_def)
  have orph: "\<not> orphaned_actions (registry list_cron (rc_svc two_jobs)) (sc_Name ?sched) (ss_Actions (sc_Spec ?sched))"
    by (simp add: orphaned_actions_def two_jobs_registry)
  have "lib_ParseStandard (list_cron :: (_, nat, _) cron_lib) ''@hourly'' = Inr ''@hourly''"
    by (simp add: list_cron_def)
  then show ?thesis
    using schedule_refresh_exact [OF list_cron_contract two_jobs_inv get per inval orph surjective_pairing,
        of reverse_order keyed_meta]
    by (simp add: two_jobs_registry demo_schedule_def)
qed

text \<open>
  Whatever the schedule says and whichever errors occur, reconciling it keeps the
  service invariant, adds and removes no registration, changes no job, and touches only the
  schedule that was fetched.
\<close>

theorem schedule_reconcile_safe:
  assumes "cron_contract lib" and "svc_inv lib (rc_svc st)"
    and "Schedule_Reconcile lib ord api meta st name = (err, st')"
  shows "svc_inv lib (rc_svc st') \<and>
    (\<forall>a b z. map_option snd (registry lib (rc_svc st') (a, b, z)) = map_option snd (registry lib (rc_svc st) (a, b, z))) \<and>
    (\<forall>a b z. (\<forall>sched. api_GetSchedule api (rc_log st) name = Inr sched \<longrightarrow> a \<noteq> sc_Name sched) \<longrightarrow>
       registry lib (rc_svc st') (a, b, z) = registry lib (rc_svc st) (a, b, z))"
proof -
  from assms have ok: "svc_ok lib (rc_svc st)" by (simp add: svc_ok_def)
  have ref: "map_option snd (refreshed parse actions b old) = map_option snd old"
    for parse :: "string \<Rightarrow> go_error + 's" and actions b and old :: "('s \<times> 'j) option"
    by (auto simp: refreshed_def split: option.splits sum.splits)
  have "svc_inv lib (rc_svc st')"
    using Schedule_Reconcile_registry [OF ok assms(3)] by (simp add: svc_ok_def)
  moreover have "map_option snd (registry lib (rc_svc st') (a, b, z)) = map_option snd (registry lib (rc_svc st) (a, b, z))" for a b z
    using Schedule_Reconcile_registry [OF ok assms(3)] ref unfolding partly_refreshed_def by metis
  moreover have "registry lib (rc_svc st') (a, b, z) = registry lib (rc_svc st) (a, b, z)"
    if "\<forall>sched. api_GetSchedule api (rc_log st) name = Inr sched \<longrightarrow> a \<noteq> sc_Name sched" for a b z
    using Schedule_Reconcile_registry [OF ok assms(3)] that unfolding partly_refreshed_def by metis
  ultimately show ?thesis by blast
qed

theorem schedule_reconcile_safe_witness:
  "svc_inv list_cron (rc_svc (snd (Schedule_Reconcile list_cron reverse_order (api_for []) keyed_meta two_jobs ''office'')))"
  using schedule_reconcile_safe [OF list_cron_contract two_jobs_inv surjective_pairing] by blast



text \<open>
  A schedule with a period that ends before it starts is refused: the status written
  has Ready False with reason InvalidPeriod, one warning per wrong period is recorded before it,
  and no cron entry changes.
\<close>

theorem schedule_invalid_period:
  assumes "meta_contract meta" and "api_GetSchedule api (rc_log st) name = Inr sched"
    and "\<not> ordered_periods (sc_Spec sched)" and "Schedule_Reconcile lib ord api meta st name = (err, st')"
  shows "rc_svc st' = rc_svc st \<and>
    (\<exists>events cs. rc_log st' = rc_log st @ events @ [EvStatusUpdate ''Schedule'' (sc_Name sched) cs] \<and>
       length events = length (filter (\<lambda>p. \<not> ordered_period p)
         (ss_ActivePeriods (sc_Spec sched) @ ss_InactivePeriods (sc_Spec sched))) \<and>
       cond_view cs ''Ready'' = Some (ConditionFalse, ''InvalidPeriod'', ''Start date must be before end date in periods'') \<and>
       err = api_StatusUpdate api (rc_log st @ events) ''Schedule'' (sc_Name sched) cs)"
proof -
  have logs: "\<exists>events. snd (check_periods api n f ps (b, log)) = log @ events \<and>
      length events = length (filter (\<lambda>p. \<not> ordered_period p) ps)" for n f ps b log
  proof (induction ps arbitrary: b log)
    case (Cons p ps)
    show ?case
    proof (cases "tp_End p < tp_Start p")
      case True
      obtain ev where step: "check_periods api n f (p # ps) (b, log) = check_periods api n f ps (True, log @ [ev])"
        using True by simp
      obtain events where "snd (check_periods api n f ps (True, log @ [ev])) = (log @ [ev]) @ events"
        and "length events = length (filter (\<lambda>p. \<not> ordered_period p) ps)"
        using Cons.IH by blast
      with True step show ?thesis
        by (intro exI [of _ "ev # events"]) (simp add: ordered_period_def)
    next
      case False
      then show ?thesis
        using Cons.IH [of b log] by (simp add: ordered_period_def)
    qed
  qed simp
  obtain b1 l1 where c1: "check_periods api (sc_Name sched) ''ActivePeriods'' (ss_ActivePeriods (sc_Spec sched))
      (False, rc_log st) = (b1, l1)"
    by (metis prod.exhaust)
  obtain bad l2 where c2: "check_periods api (sc_Name sched) ''InactivePeriods'' (ss_InactivePeriods (sc_Spec sched))
      (b1, l1) = (bad, l2)"
    by (metis prod.exhaust)
  have bad: "bad"
    using assms(3) check_both_periods [of api "sc_Name sched" "''InactivePeriods''" "sc_Spec sched" "''ActivePeriods''"
        "rc_log st"] by (simp add: c1 c2)
  obtain e1 where e1: "l1 = rc_log st @ e1" "length e1 = length (filter (\<lambda>p. \<not> ordered_period p) (ss_ActivePeriods (sc_Spec sched)))"
    using logs [of "sc_Name sched" "''ActivePeriods''" "ss_ActivePeriods (sc_Spec sched)" False "rc_log st"] by (auto simp: c1)
  obtain e2 where e2: "l2 = l1 @ e2" "length e2 = length (filter (\<lambda>p. \<not> ordered_period p) (ss_InactivePeriods (sc_Spec sched)))"
    using logs [of "sc_Name sched" "''InactivePeriods''" "ss_InactivePeriods (sc_Spec sched)" b1 l1] by (auto simp: c2)
  let ?cs = "addToConditions meta (sc_Conditions sched) (mk_condition (api_Now api) ''Ready'' ConditionFalse ''InvalidPeriod''
      ''Start date must be before end date in periods'')"
  have "rc_svc st' = rc_svc st" and "rc_log st' = l2 @ [EvStatusUpdate ''Schedule'' (sc_Name sched) ?cs]"
    and "err = api_StatusUpdate api l2 ''Schedule'' (sc_Name sched) ?cs"
    using assms(2,4) bad by (auto simp: Schedule_Reconcile_def Let_def c1 c2)
  then show ?thesis
    using assms(1) e1 e2 by (intro conjI exI [of _ "e1 @ e2"] exI [of _ ?cs]) simp_all
qed

theorem schedule_invalid_period_witness:
  "rc_svc (snd (Schedule_Reconcile list_cron insertion_order (demo_api\<lparr>api_GetSchedule := \<lambda>_ _. Inr (demo_schedule\<lparr>sc_Spec :=
     (sc_Spec demo_schedule)\<lparr>ss_InactivePeriods := [\<lparr>tp_Start = 2, tp_End = 1, tp_Actions = []\<rparr>]\<rparr>\<rparr>)\<rparr>)
     keyed_meta two_jobs ''office'')) = rc_svc two_jobs"
proof -
  let ?sched = "demo_schedule\<lparr>sc_Spec := (sc_Spec demo_schedule)\<lparr>ss_InactivePeriods := [\<lparr>tp_Start = 2, tp_End = 1, tp_Actions = []\<rparr>]\<rparr>\<rparr>"
  have get: "api_GetSchedule (demo_api\<lparr>api_GetSchedule := \<lambda>_ _. Inr ?sched\<rparr>) (rc_log two_jobs) ''office'' = Inr ?sched"
    by simp
  have per: "\<not> ordered_periods (sc_Spec ?sched)"
    by (simp add: ordered_periods_def ordered_period_def)
  from schedule_invalid_period [OF keyed_meta_contract get per surjective_pairing] show ?thesis by blast
qed

text \<open>
  The refresh stops at the first registered action that the schedule no longer
  defines, so which cron entries follow a changed schedule depends on the order in which Go
  visits the map: with one order the entry of the other action keeps its old cron expression,
  with another it gets the new one.
\<close>

lift_definition refresh_reversed :: range_order is "\<lambda>site ks. if site = [''refresh''] then rev ks else ks"
  by simp

lemma visit_refresh_reversed [simp]:
  "visit refresh_reversed site ks = (if site = [''refresh''] then rev ks else ks)"
  by transfer simp

theorem refresh_depends_on_order:
  "let api = api_for [(''stop'', \<lparr>sa_Enabled = None, sa_Cron = ''@hourly''\<rparr>)];
       after = (\<lambda>ord. registry list_cron (rc_svc (snd (Schedule_Reconcile list_cron ord api keyed_meta two_jobs ''office'')))
                  (''office'', ''stop'', ''r''))
   in after insertion_order = Some (''@daily'', 2) \<and> after refresh_reversed = Some (''@hourly'', 2)"
proof -
  note defs = Let_def Schedule_Reconcile_def api_for_def demo_api_def demo_schedule_def reconcile_schedule_def two_jobs_def
    two_ops_def IsValidCron_def list_cron_def Add_def Add_locked_def New_def next_id_def mensure_def midx_def
    GetActions_def UpdateCronSpec_def Get_def registry_def lookup3_def ScheduleSpec_IsActive_def
  show ?thesis
    by (simp add: defs)
qed

end
