(* ===== verification/Job_Common.thy ===== *)
theory Job_Common
  imports Cron_Job
begin

text \<open>
  The parts every job of the seven kinds of resources ends with, which the sources repeat word for
  word: the condition and the metadata of a job that failed for some of its targets or succeeded
  for all of them, and the early returns with an error. The clock is read once at the start and
  once at the end of a job; the printed form of a time depends on the time zone and is a parameter.
  A failed status update is only logged by the sources, so its answer plays no role.
\<close>

record job_clock =
  je_Start :: int
  je_End :: int
  je_RFC3339 :: "int \<Rightarrow> string"

type_synonym job_answer = "JobResult \<times> job_metadata \<times> effect_log"

definition finish_job :: "'z job_clock_scheme \<Rightarrow> meta_api \<Rightarrow> string \<Rightarrow> string \<Rightarrow> condition list \<Rightarrow> string \<Rightarrow> string list \<Rightarrow> effect_log \<Rightarrow> job_answer" where
  "finish_job env meta kind name conditions actionName errorsList log =
     (if 0 < length errorsList
      then (JobResultFailure, [(''error_list'', MetaList errorsList)],
            log @ [EvStatusUpdate kind name (addToConditions meta conditions
              (mk_condition (je_End env) (conditionTypeForAction actionName) ConditionFalse ''Failed''
                 (strings_Join errorsList '';'')))])
      else (JobResultSuccess, [],
            log @ [EvStatusUpdate kind name (addToConditions meta conditions
              (mk_condition (je_End env) (conditionTypeForAction actionName) ConditionTrue ''Active''
                 (''last execution started:'' @ quoted (je_RFC3339 env (je_Start env)) @ '' ended:'' @
                  quoted (je_RFC3339 env (je_End env)))))]))"

definition job_error :: "string \<Rightarrow> effect_log \<Rightarrow> job_answer" where
  "job_error text log = (JobResultError, [(''error'', MetaString text)], log)"

text \<open>A job whose tail is \<open>finish_job\<close> writes the status last, and it fails exactly when some error
  was collected.\<close>

lemma finish_job_spec:
  assumes "meta_contract meta"
  obtains conds where
    "finish_job env meta kind nm conditions a errs log =
      (if errs = [] then JobResultSuccess else JobResultFailure,
       if errs = [] then [] else [(''error_list'', MetaList errs)], log @ [EvStatusUpdate kind nm conds])"
    and "errs \<noteq> [] \<Longrightarrow> cond_view conds (conditionTypeForAction a) = Some (ConditionFalse, ''Failed'', strings_Join errs '';'')"
    and "errs = [] \<Longrightarrow> \<exists>msg. cond_view conds (conditionTypeForAction a) = Some (ConditionTrue, ''Active'', msg)"
    and "\<And>t. t \<noteq> conditionTypeForAction a \<Longrightarrow> cond_view conds t = cond_view conditions t"
  using assms by (cases "errs = []") (auto simp: finish_job_def)

end
