(* ===== verification/Feature_Gates.thy ===== *)
theory Feature_Gates
  imports Go_Text
begin

text \<open>
  Feature gates and the environment of the operator: \<^verbatim>\<open>internal/feature/feature.go\<close> and the
  parts of \<^verbatim>\<open>cmd/main.go\<close> that read the flag \<^verbatim>\<open>--feature-gates\<close> and the
  environment. A feature is its name; an environment maps the set variables to their values; a nil
  registry is \<^const>\<open>None\<close>. \<^verbatim>\<open>os.Exit(1)\<close> is the left value of a sum.
\<close>

section \<open>The registry (feature.go)\<close>

type_synonym Feature = string

definition AuroraVerticalScaling :: Feature where
  "AuroraVerticalScaling = ''AuroraVerticalScaling''"

definition DocumentDBVerticalScaling :: Feature where
  "DocumentDBVerticalScaling = ''DocumentDBVerticalScaling''"

definition All_features :: "Feature list" where
  "All_features = [AuroraVerticalScaling, DocumentDBVerticalScaling]"

record feature_registry =
  fr_enabled :: "(Feature, bool) gomap"

definition NewRegistry :: "Feature list \<Rightarrow> feature_registry" where
  "NewRegistry features = \<lparr>fr_enabled = fold (\<lambda>f. mput f True) features []\<rparr>"

text \<open>Indexing a Go map of bools reads a missing key as false.\<close>

definition IsEnabled :: "feature_registry option \<Rightarrow> Feature \<Rightarrow> bool" where
  "IsEnabled r f = (case r of None \<Rightarrow> False
     | Some reg \<Rightarrow> (case mget (fr_enabled reg) f of None \<Rightarrow> False | Some b \<Rightarrow> b))"

definition EnabledList :: "feature_registry option \<Rightarrow> Feature list" where
  "EnabledList r = (case r of None \<Rightarrow> []
     | Some reg \<Rightarrow> fold (\<lambda>f out. if (case mget (fr_enabled reg) f of None \<Rightarrow> False | Some b \<Rightarrow> b)
                                  then out @ [f] else out) All_features [])"

section \<open>Flag and environment (main.go)\<close>

type_synonym environment = "(string, string) gomap"

text \<open>\<^verbatim>\<open>os.Getenv\<close> reads an unset variable as the empty string.\<close>

definition Getenv :: "environment \<Rightarrow> string \<Rightarrow> string" where
  "Getenv env k = (case mget env k of None \<Rightarrow> '''' | Some v \<Rightarrow> v)"

fun parse_names :: "string list \<Rightarrow> Feature list \<Rightarrow> string + Feature list" where
  "parse_names [] enabledFeatures = Inr enabledFeatures"
| "parse_names (raw # rest) enabledFeatures =
     (let name = TrimSpace raw in
      if name = '''' then parse_names rest enabledFeatures
      else if name \<notin> set All_features then Inl name
      else parse_names rest (enabledFeatures @ [name]))"

definition feature_gates :: "string \<Rightarrow> environment \<Rightarrow> string + Feature list" where
  "feature_gates cliFlag env =
     (let featureGates = (if cliFlag = '''' then Getenv env ''FEATURE_GATES'' else cliFlag) in
      if EqualFold (TrimSpace featureGates) ''all'' then Inr All_features
      else if featureGates \<noteq> '''' then parse_names (strings_Split featureGates (CHR '','')) []
      else Inr [])"

definition getOperatorNamespace :: "environment \<Rightarrow> go_error + string" where
  "getOperatorNamespace env = (case mget env ''NAMESPACE'' of
     None \<Rightarrow> Inl (Err (''NAMESPACE'' @ '' not found'')) | Some ns \<Rightarrow> Inr ns)"

definition getWatchNamespace :: "environment \<Rightarrow> go_error + string" where
  "getWatchNamespace env = (case mget env ''WATCH_NAMESPACE'' of
     None \<Rightarrow> Inl (Err (''WATCH_NAMESPACE'' @ '' not found'')) | Some ns \<Rightarrow> Inr ns)"

text \<open>The keys of \<^verbatim>\<open>cacheOptions.DefaultNamespaces\<close>; \<^const>\<open>None\<close> leaves the cache
  watching every namespace.\<close>

definition DefaultNamespaces :: "environment \<Rightarrow> (string, unit) gomap option" where
  "DefaultNamespaces env =
     (case getWatchNamespace env of
        Inl err \<Rightarrow> None
      | Inr watchNamespace \<Rightarrow>
          if watchNamespace = '''' then None
          else if CHR '','' \<in> set watchNamespace
          then Some (fold (\<lambda>namespace. mput namespace ()) (strings_Split watchNamespace (CHR '','')) [])
          else Some (mput watchNamespace () []))"

section \<open>Lemmas\<close>

lemma IsEnabled_NewRegistry: "IsEnabled (Some (NewRegistry fs)) f \<longleftrightarrow> f \<in> set fs"
  by (simp add: IsEnabled_def NewRegistry_def mget_fold_mput)

lemma fold_filter: "fold (\<lambda>f out. if P f then out @ [f] else out) xs acc = acc @ filter P xs"
  by (induction xs arbitrary: acc) auto

lemma EnabledList_NewRegistry: "EnabledList (Some (NewRegistry fs)) = filter (\<lambda>f. f \<in> set fs) All_features"
  by (simp add: EnabledList_def fold_filter NewRegistry_def mget_fold_mput)

lemma parse_names_Inr:
  "parse_names raws acc = Inr fs \<longleftrightarrow>
     fs = acc @ filter (\<lambda>n. n \<noteq> '''') (map TrimSpace raws) \<and>
     (\<forall>raw \<in> set raws. TrimSpace raw = '''' \<or> TrimSpace raw \<in> set All_features)"
  by (induction raws arbitrary: acc) (auto simp: Let_def)

lemma parse_names_Inl:
  "parse_names raws acc = Inl bad \<Longrightarrow> bad \<noteq> '''' \<and> bad \<notin> set All_features \<and> bad \<in> TrimSpace ` set raws"
  by (induction raws arbitrary: acc) (auto simp: Let_def split: if_splits)

lemma strings_Split_no_sep: "c \<notin> set s \<Longrightarrow> strings_Split s c = [s]"
  by (induction s) auto

lemma strings_Split_append: "c \<notin> set s \<Longrightarrow> strings_Split (s @ c # t) c = s # strings_Split t c"
  by (induction s) auto

text \<open>Splitting undoes joining.\<close>

lemma strings_Split_Join:
  "xs \<noteq> [] \<Longrightarrow> \<forall>x \<in> set xs. c \<notin> set x \<Longrightarrow> strings_Split (strings_Join xs [c]) c = xs"
proof (induction xs "[c]" rule: strings_Join.induct)
  case (3 x y ys)
  then show ?case by (simp add: strings_Split_append)
qed (simp_all add: strings_Split_no_sep)

text \<open>The names of the features: no blank, no comma, not the word for all of them.\<close>

lemma feature_names:
  assumes "f \<in> set All_features"
  shows "TrimSpace f = f" and "CHR '','' \<notin> set f" and "f \<noteq> ''''" and "3 < length f"
  using assms by (auto simp: All_features_def AuroraVerticalScaling_def DocumentDBVerticalScaling_def
      TrimSpace_def is_space_def)

lemma length_Join_ge: "f \<in> set fs \<Longrightarrow> length f \<le> length (strings_Join fs sep)"
  by (induction fs sep rule: strings_Join.induct) auto

section \<open>Properties\<close>

lemma feature_gates_sound:
  assumes "feature_gates cliFlag env = Inr fs"
  shows "set fs \<subseteq> set All_features \<and>
    (\<forall>f. IsEnabled (Some (NewRegistry fs)) f \<longleftrightarrow>
      f \<in> set All_features \<and>
      (let gates = (if cliFlag = '''' then Getenv env ''FEATURE_GATES'' else cliFlag)
       in EqualFold (TrimSpace gates) ''all'' \<or> f \<in> TrimSpace ` set (strings_Split gates (CHR '',''))))"
proof -
  have "'''' \<notin> set All_features"
    using feature_names(3) by blast
  moreover have "TrimSpace '''' = ''''"
    by (simp add: TrimSpace_def)
  ultimately show ?thesis
    using assms by (auto simp: feature_gates_def Let_def IsEnabled_NewRegistry parse_names_Inr split: if_splits)
qed

text \<open>
  The feature gates of a process that does not exit are known features, and a feature
  is enabled exactly when the gate value, from the flag or, when that is empty, from the
  environment, is the word ALL in any case or lists the feature's name, blanks around it ignored.
\<close>

theorem feature_gates_enabled:
  assumes "feature_gates cliFlag env = Inr fs"
  shows "set fs \<subseteq> set All_features \<and>
    (\<forall>f. IsEnabled (Some (NewRegistry fs)) f \<longleftrightarrow>
      f \<in> set All_features \<and>
      (let gates = (if cliFlag = '''' then Getenv env ''FEATURE_GATES'' else cliFlag)
       in EqualFold (TrimSpace gates) ''all'' \<or> f \<in> TrimSpace ` set (strings_Split gates (CHR '',''))))"
  by (rule feature_gates_sound [OF assms])

theorem feature_gates_enabled_witness:
  "IsEnabled (Some (NewRegistry [AuroraVerticalScaling])) AuroraVerticalScaling"
proof -
  have "feature_gates '' AuroraVerticalScaling,'' [] = Inr [AuroraVerticalScaling]"
    by (simp add: feature_gates_def EqualFold_def TrimSpace_def is_space_def lower_char_def Let_def
        All_features_def AuroraVerticalScaling_def)
  from feature_gates_enabled [OF this] show ?thesis
    by (auto simp: All_features_def AuroraVerticalScaling_def TrimSpace_def is_space_def)
qed

text \<open>
  The process exits exactly when the gate value is not ALL and lists, between commas, a
  name that is neither blank nor a known feature; the name it reports is such a name.
\<close>

theorem feature_gates_exit:
  "(case feature_gates cliFlag env of
      Inl bad \<Rightarrow> bad \<noteq> '''' \<and> bad \<notin> set All_features \<and>
        bad \<in> TrimSpace ` set (strings_Split (if cliFlag = '''' then Getenv env ''FEATURE_GATES'' else cliFlag) (CHR '',''))
    | Inr fs \<Rightarrow> EqualFold (TrimSpace (if cliFlag = '''' then Getenv env ''FEATURE_GATES'' else cliFlag)) ''all'' \<or>
        TrimSpace ` set (strings_Split (if cliFlag = '''' then Getenv env ''FEATURE_GATES'' else cliFlag) (CHR '',''))
          \<subseteq> insert '''' (set All_features))"
proof (cases "feature_gates cliFlag env")
  case (Inl bad)
  then show ?thesis
    using parse_names_Inl by (auto simp: feature_gates_def Let_def split: if_splits)
next
  case (Inr fs)
  moreover have "TrimSpace '''' = ''''"
    by (simp add: TrimSpace_def)
  ultimately show ?thesis
    by (auto simp: feature_gates_def Let_def parse_names_Inr split: if_splits)
qed

text \<open>
  Printing the enabled features and reading them back is the identity: the list
  \<open>EnabledList\<close> of any registry, joined with commas and passed as the flag, is accepted and gives
  a registry with the same known features enabled.
\<close>

theorem enabled_list_roundtrip:
  "\<exists>fs. feature_gates (strings_Join (EnabledList (Some (NewRegistry gs))) '','') [] = Inr fs \<and>
     EnabledList (Some (NewRegistry fs)) = EnabledList (Some (NewRegistry gs))"
proof (cases "EnabledList (Some (NewRegistry gs)) = []")
  case True
  then show ?thesis
    by (intro exI [of _ "[]"])
      (simp add: feature_gates_def Getenv_def EqualFold_def TrimSpace_def Let_def EnabledList_NewRegistry)
next
  case False
  let ?es = "EnabledList (Some (NewRegistry gs))" and ?s = "strings_Join (EnabledList (Some (NewRegistry gs))) '',''"
  have sub: "set ?es \<subseteq> set All_features"
    by (auto simp: EnabledList_NewRegistry)
  have split: "strings_Split ?s (CHR '','') = ?es"
    using False sub feature_names(2) by (intro strings_Split_Join) blast+
  have trim: "map TrimSpace ?es = ?es" and nonempty: "filter (\<lambda>n. n \<noteq> '''') ?es = ?es"
    using sub feature_names(1,3) by (auto intro!: map_idI filter_True)
  obtain f where f: "f \<in> set ?es"
    using False by (cases ?es) auto
  then have len: "3 < length ?s"
    using length_Join_ge [OF f, of "'',''"] feature_names(4) [of f] sub by fastforce
  have parse: "parse_names (strings_Split ?s (CHR '','')) [] = Inr ?es"
    unfolding split parse_names_Inr using trim nonempty sub feature_names(1) by auto
  have "\<not> EqualFold (TrimSpace ?s) ''all''"
    unfolding EnabledList_NewRegistry
    by (cases "AuroraVerticalScaling \<in> set gs"; cases "DocumentDBVerticalScaling \<in> set gs")
      (simp_all add: All_features_def EqualFold_def TrimSpace_def is_space_def
         AuroraVerticalScaling_def DocumentDBVerticalScaling_def)
  with parse len have "feature_gates ?s [] = Inr ?es"
    by (auto simp: feature_gates_def Let_def)
  moreover have "EnabledList (Some (NewRegistry ?es)) = ?es"
    by (auto simp: EnabledList_NewRegistry intro!: filter_cong)
  ultimately show ?thesis by blast
qed

text \<open>
  The registry itself does not check names: an unknown name given to \<open>NewRegistry\<close> is
  enabled, although \<open>EnabledList\<close> does not show it, and an empty flag on the command line still
  falls back to the environment.
\<close>

theorem registry_keeps_unknown_names:
  "IsEnabled (Some (NewRegistry [''Foo''])) ''Foo'' \<and> EnabledList (Some (NewRegistry [''Foo''])) = [] \<and>
   feature_gates '''' [(''FEATURE_GATES'', ''ALL'')] = Inr All_features"
  by (simp add: IsEnabled_NewRegistry EnabledList_NewRegistry All_features_def AuroraVerticalScaling_def
      DocumentDBVerticalScaling_def feature_gates_def Getenv_def EqualFold_def TrimSpace_def is_space_def
      lower_char_def char_of_def bit_0 Let_def)

text \<open>
  A list of namespaces written with commas in the environment restricts the cache to
  exactly these namespaces; an unset or empty variable leaves it unrestricted.
\<close>

theorem watch_namespaces_exact:
  assumes "nss \<noteq> []" and "\<forall>ns \<in> set nss. ns \<noteq> '''' \<and> CHR '','' \<notin> set ns"
  shows "map_option (\<lambda>m. set (mkeys m)) (DefaultNamespaces [(''WATCH_NAMESPACE'', strings_Join nss '','')]) = Some (set nss) \<and>
    DefaultNamespaces [] = None \<and> DefaultNamespaces [(''WATCH_NAMESPACE'', '''')] = None"
proof -
  let ?s = "strings_Join nss '',''"
  obtain ns where ns: "ns \<in> set nss" using assms(1) by (cases nss) auto
  have ne: "?s \<noteq> ''''"
    using length_Join_ge [OF ns, of "'',''"] assms(2) ns by (cases ns) auto
  have split: "strings_Split ?s (CHR '','') = nss"
    using assms by (intro strings_Split_Join) auto
  have keys: "set (mkeys (fold (\<lambda>namespace. mput namespace ()) xs [])) = set xs" for xs :: "string list"
    by (rule set_eqI) (simp only: mem_mkeys_iff mget_fold_mput, simp)
  have "set nss = {?s}" if "CHR '','' \<notin> set ?s"
    using split strings_Split_no_sep [OF that] by (metis list.simps(15) empty_set)
  then show ?thesis
    using ne split by (auto simp: DefaultNamespaces_def getWatchNamespace_def keys simp del: set_map)
qed

theorem watch_namespaces_exact_witness:
  "map_option (\<lambda>m. set (mkeys m)) (DefaultNamespaces [(''WATCH_NAMESPACE'', ''a,b'')]) = Some {''a'', ''b''}"
  using watch_namespaces_exact [of "[''a'', ''b'']"] by simp

end
