(* ===== verification/Json.thy ===== *)
theory Json
  imports Go_Text "HOL-Library.List_Lexorder" "HOL-Library.Char_ord"
begin

text \<open>
  The part of Go's \<^verbatim>\<open>encoding/json\<close> the operator uses: \<^verbatim>\<open>Marshal\<close> of the values it
  sends and stores, and \<^verbatim>\<open>Unmarshal\<close> into a struct with one string field and into a slice of
  strings. Strings are bytes; valid UTF-8 is copied, as Go does, except that Go's replacement of
  invalid UTF-8 and its escapes for U+2028 and U+2029 are left out. Numbers are kept as their text.
  The texts of decoding errors are not modelled: one text stands for them.
\<close>

section \<open>Values and Marshal\<close>

datatype json =
    JNull
  | JBool bool
  | JNumber string
  | JString string
  | JArray "json list"
  | JObject "(string \<times> json) list"

abbreviation quote :: char where
  "quote \<equiv> CHR 0x22"

abbreviation backslash :: char where
  "backslash \<equiv> CHR 0x5C"

text \<open>A character as \<^verbatim>\<open>Marshal\<close> writes it inside a string, with HTML escaping on.\<close>

definition json_char :: "char \<Rightarrow> string" where
  "json_char c =
     (if c = quote \<or> c = backslash then [backslash, c]
      else if c = CHR 0x08 then [backslash, CHR ''b'']
      else if c = CHR 0x0C then [backslash, CHR ''f'']
      else if c = CHR 0x0A then [backslash, CHR ''n'']
      else if c = CHR 0x0D then [backslash, CHR ''r'']
      else if c = CHR 0x09 then [backslash, CHR ''t'']
      else if of_char c < (32::nat) \<or> c = CHR ''<'' \<or> c = CHR ''>'' \<or> c = CHR ''&''
      then [backslash, CHR ''u'', CHR ''0'', CHR ''0'', hex_digit (of_char c div 16), hex_digit (of_char c mod 16)]
      else [c])"

definition json_string :: "string \<Rightarrow> string" where
  "json_string s = quote # concat (map json_char s) @ [quote]"

text \<open>An object written from a Go map has its keys sorted; one written from a struct has them in
  the order of the fields. \<open>JObject\<close> lists the members in the order written; \<open>json_map\<close> sorts.\<close>

definition json_map :: "(string, json) gomap \<Rightarrow> json" where
  "json_map m = JObject (sort_key fst m)"

fun Marshal :: "json \<Rightarrow> string" where
  "Marshal JNull = ''null''"
| "Marshal (JBool b) = (if b then ''true'' else ''false'')"
| "Marshal (JNumber t) = t"
| "Marshal (JString s) = json_string s"
| "Marshal (JArray vs) = ''['' @ strings_Join (map Marshal vs) '','' @ '']''"
| "Marshal (JObject ms) = ''{'' @ strings_Join (map (\<lambda>(k, v). json_string k @ '':'' @ Marshal v) ms) '','' @ ''}''"

section \<open>The parser\<close>

definition json_space :: "char \<Rightarrow> bool" where
  "json_space c \<longleftrightarrow> c = CHR '' '' \<or> c = CHR 0x09 \<or> c = CHR 0x0A \<or> c = CHR 0x0D"

definition hex_value :: "char \<Rightarrow> nat option" where
  "hex_value c = (let n = of_char c :: nat in
     if 48 \<le> n \<and> n \<le> 57 then Some (n - 48)
     else if 97 \<le> n \<and> n \<le> 102 then Some (n - 87)
     else if 65 \<le> n \<and> n \<le> 70 then Some (n - 55)
     else None)"

fun hex4 :: "string \<Rightarrow> (nat \<times> string) option" where
  "hex4 (a # b # c # d # s) =
     (case (hex_value a, hex_value b, hex_value c, hex_value d) of
        (Some w, Some x, Some y, Some z) \<Rightarrow> Some (((w * 16 + x) * 16 + y) * 16 + z, s)
      | _ \<Rightarrow> None)"
| "hex4 _ = None"

text \<open>The UTF-8 bytes of a code point.\<close>

definition utf8 :: "nat \<Rightarrow> string" where
  "utf8 n = map char_of
     (if n < 128 then [n]
      else if n < 2048 then [192 + n div 64, 128 + n mod 64]
      else if n < 65536 then [224 + n div 4096, 128 + n div 64 mod 64, 128 + n mod 64]
      else [240 + n div 262144, 128 + n div 4096 mod 64, 128 + n div 64 mod 64, 128 + n mod 64])"

definition is_surrogate :: "nat \<Rightarrow> bool" where
  "is_surrogate n \<longleftrightarrow> 0xD800 \<le> n \<and> n < 0xE000"

text \<open>
  The code point of an escape \<^verbatim>\<open>\uXXXX\<close> and what follows it: two escapes that form a surrogate
  pair give one code point, any other surrogate U+FFFD.
\<close>

definition unicode_escape :: "string \<Rightarrow> (string \<times> string) option" where
  "unicode_escape s =
     (case hex4 s of
        None \<Rightarrow> None
      | Some (n, rest) \<Rightarrow>
          if \<not> is_surrogate n then Some (utf8 n, rest)
          else (case rest of
              x # y # rest' \<Rightarrow>
                (if x = backslash \<and> y = CHR ''u''
                 then (case hex4 rest' of
                     Some (l, rest'') \<Rightarrow>
                       (if n < 0xDC00 \<and> 0xDC00 \<le> l \<and> l < 0xE000
                        then Some (utf8 ((n - 0xD800) * 1024 + (l - 0xDC00) + 0x10000), rest'')
                        else Some (utf8 0xFFFD, rest))
                   | None \<Rightarrow> Some (utf8 0xFFFD, rest))
                 else Some (utf8 0xFFFD, rest))
            | _ \<Rightarrow> Some (utf8 0xFFFD, rest)))"

definition simple_escape :: "char \<Rightarrow> char option" where
  "simple_escape c =
     (if c = quote \<or> c = backslash \<or> c = CHR ''/'' then Some c
      else if c = CHR ''b'' then Some (CHR 0x08)
      else if c = CHR ''f'' then Some (CHR 0x0C)
      else if c = CHR ''n'' then Some (CHR 0x0A)
      else if c = CHR ''r'' then Some (CHR 0x0D)
      else if c = CHR ''t'' then Some (CHR 0x09)
      else None)"

text \<open>The rest of a string after its opening quote; the fuel bounds the number of characters.\<close>

fun parse_string :: "nat \<Rightarrow> string \<Rightarrow> (string \<times> string) option" where
  "parse_string 0 s = None"
| "parse_string (Suc n) [] = None"
| "parse_string (Suc n) (c # s) =
     (if c = quote then Some ([], s)
      else if c = backslash
      then (case s of
          [] \<Rightarrow> None
        | e # s' \<Rightarrow>
            if e = CHR ''u''
            then (case unicode_escape s' of
                None \<Rightarrow> None
              | Some (u, s'') \<Rightarrow> map_option (\<lambda>(t, r). (u @ t, r)) (parse_string n s''))
            else (case simple_escape e of
                None \<Rightarrow> None
              | Some d \<Rightarrow> map_option (\<lambda>(t, r). (d # t, r)) (parse_string n s')))
      else if of_char c < (32::nat) then None
      else map_option (\<lambda>(t, r). (c # t, r)) (parse_string n s))"

definition is_digit :: "char \<Rightarrow> bool" where
  "is_digit c \<longleftrightarrow> (let n = of_char c :: nat in 48 \<le> n \<and> n \<le> 57)"

text \<open>A number of the JSON grammar at the start of the input, with what follows it.\<close>

definition int_part :: "string \<Rightarrow> (string \<times> string) option" where
  "int_part s = (case s of
       [] \<Rightarrow> None
     | c # r \<Rightarrow> if c = CHR ''0'' then Some ([c], r)
               else if is_digit c then Some (takeWhile is_digit s, dropWhile is_digit s)
               else None)"

definition digits1 :: "string \<Rightarrow> (string \<times> string) option" where
  "digits1 s = (if takeWhile is_digit s = [] then None else Some (takeWhile is_digit s, dropWhile is_digit s))"

definition frac_part :: "string \<Rightarrow> (string \<times> string) option" where
  "frac_part s = (case s of
       [] \<Rightarrow> Some ([], [])
     | c # r \<Rightarrow> if c = CHR ''.'' then map_option (\<lambda>(d, t). (c # d, t)) (digits1 r) else Some ([], s))"

definition exp_part :: "string \<Rightarrow> (string \<times> string) option" where
  "exp_part s = (case s of
       [] \<Rightarrow> Some ([], [])
     | c # r \<Rightarrow>
         if c = CHR ''e'' \<or> c = CHR ''E''
         then (case r of
             g # r' \<Rightarrow> if g = CHR ''+'' \<or> g = CHR ''-'' then map_option (\<lambda>(d, t). (c # g # d, t)) (digits1 r')
                      else map_option (\<lambda>(d, t). (c # d, t)) (digits1 r)
           | [] \<Rightarrow> None)
         else Some ([], s))"

definition parse_number :: "string \<Rightarrow> (string \<times> string) option" where
  "parse_number s =
     (let (sign, s0) = (case s of c # r \<Rightarrow> if c = CHR ''-'' then ([c], r) else ([], s) | [] \<Rightarrow> ([], s)) in
      case int_part s0 of
        None \<Rightarrow> None
      | Some (i, s1) \<Rightarrow> (case frac_part s1 of
          None \<Rightarrow> None
        | Some (f, s2) \<Rightarrow> (case exp_part s2 of
            None \<Rightarrow> None
          | Some (e, s3) \<Rightarrow> Some (sign @ i @ f @ e, s3))))"

definition skip_space :: "string \<Rightarrow> string" where
  "skip_space = dropWhile json_space"

text \<open>
  Values, the elements of an array after its bracket and the members of an object after its brace.
  The fuel bounds the length of the input; every call consumes input.
\<close>

fun parse_value :: "nat \<Rightarrow> string \<Rightarrow> (json \<times> string) option"
  and parse_elems :: "nat \<Rightarrow> string \<Rightarrow> (json list \<times> string) option"
  and parse_members :: "nat \<Rightarrow> string \<Rightarrow> ((string \<times> json) list \<times> string) option" where
  "parse_value 0 s = None"
| "parse_value (Suc n) s =
     (case skip_space s of
        [] \<Rightarrow> None
      | c # r \<Rightarrow>
          if c = quote then map_option (\<lambda>(t, r'). (JString t, r')) (parse_string (length r) r)
          else if c = CHR ''['' then
            (case skip_space r of
               d # r' \<Rightarrow> if d = CHR '']'' then Some (JArray [], r')
                        else map_option (\<lambda>(vs, t). (JArray vs, t)) (parse_elems n r)
             | [] \<Rightarrow> None)
          else if c = CHR ''{'' then
            (case skip_space r of
               d # r' \<Rightarrow> if d = CHR ''}'' then Some (JObject [], r')
                        else map_option (\<lambda>(ms, t). (JObject ms, t)) (parse_members n r)
             | [] \<Rightarrow> None)
          else if HasPrefix (c # r) ''null'' then Some (JNull, drop 4 (c # r))
          else if HasPrefix (c # r) ''true'' then Some (JBool True, drop 4 (c # r))
          else if HasPrefix (c # r) ''false'' then Some (JBool False, drop 5 (c # r))
          else map_option (\<lambda>(t, r'). (JNumber t, r')) (parse_number (c # r)))"
| "parse_elems 0 s = None"
| "parse_elems (Suc n) s =
     (case parse_value n s of
        None \<Rightarrow> None
      | Some (v, r) \<Rightarrow>
          (case skip_space r of
             d # r' \<Rightarrow> if d = CHR '']'' then Some ([v], r')
                      else if d = CHR '','' then map_option (\<lambda>(vs, t). (v # vs, t)) (parse_elems n r')
                      else None
           | [] \<Rightarrow> None))"
| "parse_members 0 s = None"
| "parse_members (Suc n) s =
     (case skip_space s of
        [] \<Rightarrow> None
      | c # r \<Rightarrow>
          if c \<noteq> quote then None
          else (case parse_string (length r) r of
              None \<Rightarrow> None
            | Some (k, r1) \<Rightarrow>
                (case skip_space r1 of
                   [] \<Rightarrow> None
                 | d # r2 \<Rightarrow>
                     if d \<noteq> CHR '':'' then None
                     else (case parse_value n r2 of
                         None \<Rightarrow> None
                       | Some (v, r3) \<Rightarrow>
                           (case skip_space r3 of
                              e # r4 \<Rightarrow> if e = CHR ''}'' then Some ([(k, v)], r4)
                                       else if e = CHR '','' then map_option (\<lambda>(ms, t). ((k, v) # ms, t)) (parse_members n r4)
                                       else None
                            | [] \<Rightarrow> None)))))"

text \<open>A whole document: one value with nothing but blanks after it.\<close>

definition parse_document :: "string \<Rightarrow> json option" where
  "parse_document s = (case parse_value (2 * length s + 1) s of
      None \<Rightarrow> None
    | Some (v, r) \<Rightarrow> if skip_space r = [] then Some v else None)"

section \<open>Unmarshal\<close>

definition json_error :: go_error where
  "json_error = Err ''json: cannot unmarshal''"

text \<open>
  Into a struct with one string field: members whose key is the field's name, or equals it up to
  case, are decoded in order, null leaves the field as it is, and any other value is an error that
  does not stop the decoding.
\<close>

fun decode_field :: "string \<Rightarrow> (string \<times> json) list \<Rightarrow> string \<times> bool \<Rightarrow> string \<times> bool" where
  "decode_field name [] acc = acc"
| "decode_field name ((k, v) # ms) (field, failed) =
     decode_field name ms
       (if EqualFold k name
        then (case v of JString s \<Rightarrow> (s, failed) | JNull \<Rightarrow> (field, failed) | _ \<Rightarrow> (field, True))
        else (field, failed))"

definition Unmarshal_field :: "string \<Rightarrow> string \<Rightarrow> go_error + string" where
  "Unmarshal_field name s =
     (case parse_document s of
        None \<Rightarrow> Inl json_error
      | Some JNull \<Rightarrow> Inr ''''
      | Some (JObject ms) \<Rightarrow> (case decode_field name ms ('''', False) of
            (field, failed) \<Rightarrow> if failed then Inl json_error else Inr field)
      | Some _ \<Rightarrow> Inl json_error)"

text \<open>
  Into a slice of strings, with the error ignored: a document that is not an array leaves the nil
  slice, an element that is not a string becomes the empty string.
\<close>

definition Unmarshal_strings :: "string \<Rightarrow> string list" where
  "Unmarshal_strings s =
     (case parse_document s of
        Some (JArray vs) \<Rightarrow> map (\<lambda>v. case v of JString t \<Rightarrow> t | _ \<Rightarrow> '''') vs
      | _ \<Rightarrow> [])"

section \<open>Reading back what Marshal wrote\<close>

lemma hex_value_digit: "k < 16 \<Longrightarrow> hex_value (hex_digit k) = Some k"
  by (simp add: hex_value_def hex_digit_def Let_def)

lemma of_char_less: "of_char c < (256 :: nat)"
  by (cases c) (simp add: of_char_def)

lemma utf8_byte: "of_char c < (128 :: nat) \<Longrightarrow> utf8 (of_char c) = [c]"
  by (simp add: utf8_def)

lemma unicode_escape_byte:
  assumes "of_char c < (128 :: nat)"
  shows "unicode_escape (CHR ''0'' # CHR ''0'' # hex_digit (of_char c div 16) # hex_digit (of_char c mod 16) # t) =
    Some ([c], t)"
proof -
  have z: "hex_value (CHR ''0'') = Some 0"
    by (simp add: hex_value_def)
  have "hex_value (hex_digit (of_char c div 16)) = Some (of_char c div 16)"
    using assms by (intro hex_value_digit) simp
  moreover have "hex_value (hex_digit (of_char c mod 16)) = Some (of_char c mod 16)"
    by (intro hex_value_digit) simp
  ultimately have h: "hex4 (CHR ''0'' # CHR ''0'' # hex_digit (of_char c div 16) # hex_digit (of_char c mod 16) # t) =
      Some (of_char c, t)"
    using z by simp
  show ?thesis
    using assms by (simp add: unicode_escape_def h is_surrogate_def utf8_byte del: hex4.simps)
qed

lemma parse_string_char:
  "parse_string (Suc n) (json_char c @ t) = map_option (\<lambda>(u, r). (c # u, r)) (parse_string n t)"
proof -
  let ?esc = "{quote, backslash, CHR 0x08, CHR 0x0C, CHR 0x0A, CHR 0x0D, CHR 0x09}"
  let ?uni = "of_char c < (32::nat) \<or> c = CHR ''<'' \<or> c = CHR ''>'' \<or> c = CHR ''&''"
  show ?thesis
  proof (cases "c \<in> ?esc")
    case True
    then show ?thesis by (auto simp: json_char_def simple_escape_def)
  next
    case no_esc: False
    show ?thesis
    proof (cases ?uni)
      case True
      then have "json_char c = [backslash, CHR ''u'', CHR ''0'', CHR ''0'', hex_digit (of_char c div 16), hex_digit (of_char c mod 16)]"
        using no_esc unfolding json_char_def by simp
      moreover have "of_char c < (128 :: nat)"
        using True by auto
      ultimately show ?thesis
        by (simp add: unicode_escape_byte)
    next
      case False
      then have "json_char c = [c]" and "c \<noteq> quote" and "c \<noteq> backslash" and "\<not> of_char c < (32::nat)"
        using no_esc unfolding json_char_def by simp_all
      then show ?thesis by simp
    qed
  qed
qed

lemma parse_string_escaped:
  "length s < n \<Longrightarrow> parse_string n (concat (map json_char s) @ quote # t) = Some (s, t)"
proof (induction s arbitrary: n)
  case Nil
  then show ?case by (cases n) simp_all
next
  case (Cons c s)
  then obtain m where n: "n = Suc m" and "length s < m" by (cases n) auto
  with Cons.IH show ?case
    by (simp add: parse_string_char del: parse_string.simps)
qed

lemma json_char_nonempty [simp]: "json_char c \<noteq> []"
  by (simp add: json_char_def)

lemma length_escaped: "length s \<le> length (concat (map json_char s))"
proof (induction s)
  case (Cons c s)
  have "1 \<le> length (json_char c)"
    by (cases "json_char c") simp_all
  with Cons show ?case by simp
qed simp

lemma parse_string_json:
  "parse_string (length (concat (map json_char s) @ quote # t)) (concat (map json_char s) @ quote # t) = Some (s, t)"
  using length_escaped [of s] by (intro parse_string_escaped) simp

lemma skip_space_cons [simp]: "\<not> json_space c \<Longrightarrow> skip_space (c # s) = c # s"
  by (simp add: skip_space_def)

lemma not_space [simp]: "\<not> json_space quote" "\<not> json_space (CHR ''['')" "\<not> json_space (CHR '']'')"
  "\<not> json_space (CHR ''{'')" "\<not> json_space (CHR ''}'')" "\<not> json_space (CHR '','')" "\<not> json_space (CHR '':'')"
  "\<not> json_space (CHR ''n'')"
  by (simp_all add: json_space_def)

lemma parse_value_string: "parse_value (Suc n) (json_string s @ t) = Some (JString s, t)"
  using parse_string_json [of s t] by (simp add: json_string_def del: length_append)

lemma parse_elems_strings:
  "ss \<noteq> [] \<Longrightarrow> length ss < n \<Longrightarrow>
     parse_elems n (strings_Join (map json_string ss) '','' @ CHR '']'' # t) = Some (map JString ss, t)"
proof (induction ss arbitrary: n)
  case (Cons s ss)
  then obtain m where n: "n = Suc (Suc m)" and m: "length ss < Suc m"
    by (cases n; cases "n - 1") auto
  show ?case
  proof (cases ss)
    case Nil
    then show ?thesis by (simp add: n parse_value_string del: parse_value.simps)
  next
    case (Cons s' ss')
    let ?rest = "strings_Join (map json_string ss) '','' @ CHR '']'' # t"
    have "strings_Join (map json_string (s # ss)) '','' @ CHR '']'' # t = json_string s @ CHR '','' # ?rest"
      by (simp add: Cons)
    moreover have "parse_elems (Suc m) ?rest = Some (map JString ss, t)"
      using Cons.IH m Cons by blast
    ultimately show ?thesis
      by (simp add: n parse_value_string del: parse_value.simps strings_Join.simps)
  qed
qed simp

text \<open>A slice of strings as \<^verbatim>\<open>Marshal\<close> writes it: null for the nil slice.\<close>

definition Marshal_strings :: "string list \<Rightarrow> string" where
  "Marshal_strings ss = Marshal (if ss = [] then JNull else JArray (map JString ss))"

definition Marshal_field :: "string \<Rightarrow> string \<Rightarrow> string" where
  "Marshal_field name v = Marshal (JObject [(name, JString v)])"

lemma skip_space_json_string [simp]: "skip_space (json_string s @ t) = json_string s @ t"
  by (simp add: json_string_def)

lemma length_Join_strings: "length ss \<le> length (strings_Join (map json_string ss) '','')"
proof (induction ss)
  case (Cons s ss)
  have "1 \<le> length (json_string s)" by (simp add: json_string_def)
  with Cons show ?case by (cases ss) (simp_all del: length_greater_0_conv)
qed simp

lemma parse_document_strings:
  "ss \<noteq> [] \<Longrightarrow> parse_document (Marshal (JArray (map JString ss))) = Some (JArray (map JString ss))"
proof -
  assume ne: "ss \<noteq> []"
  let ?body = "strings_Join (map json_string ss) '','' @ '']''"
  have m: "Marshal (JArray (map JString ss)) = CHR ''['' # ?body"
    by (simp add: comp_def)
  obtain s ss' where ss: "ss = s # ss'" using ne by (cases ss) auto
  obtain r where body: "?body = quote # r"
    unfolding ss by (cases ss') (auto simp: json_string_def)
  have fuel: "length ss < 2 * Suc (length ?body)"
    using length_Join_strings [of ss] by simp
  have "parse_elems (2 * Suc (length ?body)) ?body = Some (map JString ss, [])"
    using parse_elems_strings [OF ne fuel, of "[]"] by simp
  then show ?thesis
    unfolding parse_document_def m by (simp add: body skip_space_def del: parse_elems.simps)
qed

lemma Unmarshal_Marshal_strings [simp]: "Unmarshal_strings (Marshal_strings ss) = ss"
proof (cases "ss = []")
  case True
  then show ?thesis
    by (simp add: Marshal_strings_def Unmarshal_strings_def parse_document_def HasPrefix_def skip_space_def
        eval_nat_numeral)
next
  case False
  then show ?thesis
    by (simp add: Marshal_strings_def Unmarshal_strings_def parse_document_strings comp_def del: Marshal.simps)
qed

lemma EqualFold_refl [simp]: "EqualFold s s"
  by (simp add: EqualFold_def)

lemma Unmarshal_Marshal_field [simp]: "Unmarshal_field name (Marshal_field name v) = Inr v"
proof -
  let ?r = "concat (map json_char name) @ quote # CHR '':'' # json_string v @ ''}''"
  have m: "Marshal_field name v = CHR ''{'' # quote # ?r"
    by (simp add: Marshal_field_def json_string_def)
  let ?n = "2 * Suc (Suc (length ?r))"
  obtain k where k: "?n = Suc (Suc k)" by (cases ?n; cases "?n - 1") auto
  have "parse_members ?n (quote # ?r) = Some ([(name, JString v)], [])"
    using parse_string_json [of name "CHR '':'' # json_string v @ ''}''"]
    by (simp add: k parse_value_string del: parse_value.simps length_append)
  then have "parse_document (Marshal_field name v) = Some (JObject [(name, JString v)])"
    unfolding parse_document_def m by (simp add: skip_space_def del: parse_members.simps)
  then show ?thesis
    by (simp add: Unmarshal_field_def)
qed

section \<open>Every document without numbers reads back\<close>

text \<open>The operator never writes a number, so what it writes is a value of this form.\<close>

fun numberless :: "json \<Rightarrow> bool" where
  "numberless (JNumber t) = False"
| "numberless (JArray vs) = list_all numberless vs"
| "numberless (JObject ms) = list_all (\<lambda>(k, v). numberless v) ms"
| "numberless _ = True"

definition reads_back :: "json \<Rightarrow> bool" where
  "reads_back j \<longleftrightarrow> (\<forall>n t. 2 * length (Marshal j) \<le> n \<longrightarrow> parse_value n (Marshal j @ t) = Some (j, t))"

lemma Marshal_start:
  assumes "numberless j"
  obtains c s where "Marshal j = c # s" and "c \<in> {CHR ''n'', CHR ''t'', CHR ''f'', quote, CHR ''['', CHR ''{''}"
proof (cases j)
  case (JBool b)
  then show ?thesis by (cases b) (auto intro: that)
qed (use assms in \<open>auto simp: json_string_def intro: that\<close>)

lemma Join_start: "xs \<noteq> [] \<Longrightarrow> hd xs = c # s \<Longrightarrow> \<exists>r. strings_Join xs sep = c # r"
  by (cases "(xs, sep)" rule: strings_Join.cases) auto

lemma parse_elems_reads_back:
  assumes "\<forall>v \<in> set vs. reads_back v" and "vs \<noteq> []" and "2 * length (strings_Join (map Marshal vs) '','') < n"
  shows "parse_elems n (strings_Join (map Marshal vs) '','' @ CHR '']'' # t) = Some (vs, t)"
  using assms
proof (induction vs arbitrary: n)
  case (Cons v vs)
  then obtain m where n: "n = Suc m" by (cases n) auto
  show ?case
  proof (cases vs)
    case Nil
    with Cons.prems n have "parse_value m (Marshal v @ CHR '']'' # t) = Some (v, CHR '']'' # t)"
      by (simp add: reads_back_def)
    then show ?thesis by (simp add: n Nil del: parse_value.simps)
  next
    case (Cons v' vs')
    let ?rest = "strings_Join (map Marshal vs) '','' @ CHR '']'' # t"
    have "strings_Join (map Marshal (v # vs)) '','' = Marshal v @ CHR '','' # strings_Join (map Marshal vs) '',''"
      by (simp add: Cons)
    moreover from this have "2 * length (Marshal v) \<le> m" and "2 * length (strings_Join (map Marshal vs) '','') < m"
      using Cons.prems(3) by (simp_all add: n)
    moreover from this(1) have "parse_value m (Marshal v @ CHR '','' # ?rest) = Some (v, CHR '','' # ?rest)"
      using Cons.prems(1) by (simp add: reads_back_def)
    moreover have "parse_elems m ?rest = Some (vs, t)"
      using Cons.IH Cons.prems(1) \<open>2 * length (strings_Join (map Marshal vs) '','') < m\<close> Cons by simp
    ultimately show ?thesis by (simp add: n del: parse_value.simps strings_Join.simps)
  qed
qed simp

abbreviation member_text :: "string \<times> json \<Rightarrow> string" where
  "member_text \<equiv> (\<lambda>(k, v). json_string k @ CHR '':'' # Marshal v)"

lemma parse_members_reads_back:
  assumes "\<forall>(k, v) \<in> set ms. reads_back v" and "ms \<noteq> []" and "2 * length (strings_Join (map member_text ms) '','') < n"
  shows "parse_members n (strings_Join (map member_text ms) '','' @ CHR ''}'' # t) = Some (ms, t)"
  using assms
proof (induction ms arbitrary: n)
  case (Cons p ms)
  obtain k v where p: "p = (k, v)" by (cases p)
  obtain m where n: "n = Suc m" using Cons.prems(3) by (cases n) auto
  have key: "parse_string (length (concat (map json_char k) @ quote # r)) (concat (map json_char k) @ quote # r) = Some (k, r)" for r
    by (rule parse_string_json)
  show ?case
  proof (cases ms)
    case Nil
    with Cons.prems n p have "parse_value m (Marshal v @ CHR ''}'' # t) = Some (v, CHR ''}'' # t)"
      by (simp add: reads_back_def)
    with key [of "CHR '':'' # Marshal v @ CHR ''}'' # t"] show ?thesis
      by (simp add: n p Nil json_string_def del: parse_value.simps length_append)
  next
    case (Cons p' ms')
    let ?rest = "strings_Join (map member_text ms) '','' @ CHR ''}'' # t"
    have split: "strings_Join (map member_text (p # ms)) '','' = member_text p @ CHR '','' # strings_Join (map member_text ms) '',''"
      by (simp add: Cons)
    then have le: "2 * length (Marshal v) \<le> m" and less: "2 * length (strings_Join (map member_text ms) '','') < m"
      using Cons.prems(3) by (simp_all add: n p)
    define J where "J = strings_Join (map member_text ms) '','' @ CHR ''}'' # t"
    have whole: "strings_Join (map member_text (p # ms)) '','' @ CHR ''}'' # t =
        quote # concat (map json_char k) @ quote # CHR '':'' # Marshal v @ CHR '','' # J"
      unfolding split J_def by (simp add: p json_string_def del: strings_Join.simps)
    from le have "parse_value m (Marshal v @ CHR '','' # J) = Some (v, CHR '','' # J)"
      using Cons.prems(1) by (simp add: reads_back_def p)
    moreover have "parse_members m J = Some (ms, t)"
      using Cons.IH Cons.prems(1) less Cons by (simp add: J_def)
    ultimately show ?thesis
      using key [of "CHR '':'' # Marshal v @ CHR '','' # J"]
      unfolding whole by (simp add: n p del: parse_value.simps length_append)
  qed
qed simp

lemma numberless_reads_back: "numberless j \<Longrightarrow> reads_back j"
proof (induction j)
  case JNull
  show ?case
    unfolding reads_back_def
  proof (intro allI impI)
    fix n t assume "2 * length (Marshal JNull) \<le> n"
    then obtain m where "n = Suc m" by (cases n) auto
    then show "parse_value n (Marshal JNull @ t) = Some (JNull, t)" by (simp add: HasPrefix_def)
  qed
next
  case (JBool b)
  show ?case
    unfolding reads_back_def
  proof (intro allI impI)
    fix n t assume "2 * length (Marshal (JBool b)) \<le> n"
    then obtain m where "n = Suc m" by (cases n; cases b) auto
    then show "parse_value n (Marshal (JBool b) @ t) = Some (JBool b, t)"
      by (cases b) (simp_all add: HasPrefix_def json_space_def)
  qed
next
  case (JNumber x)
  then show ?case by simp
next
  case (JString x)
  show ?case
    unfolding reads_back_def
  proof (intro allI impI)
    fix n t assume "2 * length (Marshal (JString x)) \<le> n"
    then obtain m where "n = Suc m" by (cases n) (auto simp: json_string_def)
    then show "parse_value n (Marshal (JString x) @ t) = Some (JString x, t)"
      using parse_value_string [of m x t] by simp
  qed
next
  case (JArray vs)
  then have vs: "\<forall>v \<in> set vs. reads_back v" by (simp add: list_all_iff)
  show ?case
    unfolding reads_back_def
  proof (intro allI impI)
    fix n t assume le: "2 * length (Marshal (JArray vs)) \<le> n"
    then obtain m where n: "n = Suc m" by (cases n) auto
    show "parse_value n (Marshal (JArray vs) @ t) = Some (JArray vs, t)"
    proof (cases vs)
      case Nil
      then show ?thesis by (simp add: n)
    next
      case (Cons v vs')
      with JArray.prems have "numberless v" by simp
      then obtain c s where c: "Marshal v = c # s" "c \<in> {CHR ''n'', CHR ''t'', CHR ''f'', quote, CHR ''['', CHR ''{''}"
        by (rule Marshal_start)
      then obtain r where r: "strings_Join (map Marshal vs) '','' = c # r"
        using Join_start [of "map Marshal vs" c s "'',''"] by (auto simp: Cons)
      have "parse_elems m (strings_Join (map Marshal vs) '','' @ CHR '']'' # t) = Some (vs, t)"
        using le by (intro parse_elems_reads_back vs) (simp_all add: n Cons)
      then show ?thesis
        using c(2) by (auto simp: n r json_space_def simp del: parse_elems.simps)
    qed
  qed
next
  case (JObject ms)
  then have ms: "\<forall>(k, v) \<in> set ms. reads_back v" by (fastforce simp: list_all_iff)
  show ?case
    unfolding reads_back_def
  proof (intro allI impI)
    fix n t assume le: "2 * length (Marshal (JObject ms)) \<le> n"
    then obtain m where n: "n = Suc m" by (cases n) auto
    show "parse_value n (Marshal (JObject ms) @ t) = Some (JObject ms, t)"
    proof (cases ms)
      case Nil
      then show ?thesis by (simp add: n)
    next
      case (Cons p ms')
      obtain s where "hd (map member_text ms) = quote # s"
        by (cases p) (auto simp: Cons json_string_def)
      then obtain r where r: "strings_Join (map member_text ms) '','' = quote # r"
        using Join_start [of "map member_text ms" quote s "'',''"] by (auto simp: Cons)
      have "parse_members m (strings_Join (map member_text ms) '','' @ CHR ''}'' # t) = Some (ms, t)"
        using le by (intro parse_members_reads_back ms) (simp_all add: n Cons)
      then show ?thesis
        by (simp add: n r del: parse_members.simps)
    qed
  qed
qed

lemma parse_Marshal: "numberless j \<Longrightarrow> parse_document (Marshal j) = Some j"
  using numberless_reads_back [of j] by (auto simp: parse_document_def reads_back_def skip_space_def dest!: spec [of _ "2 * length (Marshal j) + 1"] spec [of _ "[]"])

end
