(* ===== verification/Aws_Jobs.thy ===== *)
theory Aws_Jobs
  imports Job_Common Feature_Gates Json
begin

text \<open>
  The controllers of the AWS kinds: \<^verbatim>\<open>awsrdsauroracluster_controller.go\<close>,
  \<^verbatim>\<open>awsdocumentdbcluster_controller.go\<close>, \<^verbatim>\<open>awsec2instance_controller.go\<close>,
  \<^verbatim>\<open>awstransferfamily_controller.go\<close> and the credentials of \<^verbatim>\<open>aws_utils.go\<close>. The
  sources of the four jobs share their shape, and the model shares it as functions: the loop over
  the targets and the credentials. The AWS clients, the API server
  and the printed form of times, which depends on the time zone, are parameters. Event texts are
  the texts passed to the recorder: a percent sign in an identifier, which the recorder would read
  as a format verb, is not interpreted.
\<close>

section \<open>Parameters\<close>

type_synonym secret_data = "(string, string) gomap option"

record job_env = job_clock +
  je_LoadConfig :: "effect_log \<Rightarrow> go_error option"
  je_GetSecret :: "effect_log \<Rightarrow> string \<Rightarrow> string \<Rightarrow> go_error + secret_data"
  je_Aws :: "effect_log \<Rightarrow> aws_credentials \<Rightarrow> aws_request \<Rightarrow> go_error option"
  je_CreateAction :: "effect_log \<Rightarrow> action_execution \<Rightarrow> go_error option"

section \<open>Credentials (aws\_utils.go)\<close>

definition key_or :: "string \<Rightarrow> string \<Rightarrow> string" where
  "key_or override dflt = (if override \<noteq> '''' then override else dflt)"

definition getAwsCredentialProviderFromSecret :: "secret_data \<Rightarrow> aws_keys_ref option \<Rightarrow>
    go_error + (string \<times> string \<times> string)" where
  "getAwsCredentialProviderFromSecret secret keysRef =
     (case secret of
        None \<Rightarrow> Inl (Err ''secret resource contains no data'')
      | Some m \<Rightarrow>
          (let (kAccess, kSecret, kSession) =
             (case keysRef of
                None \<Rightarrow> (''aws_access_key_id'', ''aws_secret_access_key'', ''aws_session_token'')
              | Some ref \<Rightarrow> (key_or (kr_AccessKey ref) ''aws_access_key_id'',
                             key_or (kr_SecretKey ref) ''aws_secret_access_key'', kr_SessionKey ref))
           in case mget m kAccess of
                None \<Rightarrow> Inl (Err (''failed to get AccessKeyId from Secret resource, no '' @ quoted kAccess @ '' key found''))
              | Some accessKey \<Rightarrow> (case mget m kSecret of
                  None \<Rightarrow> Inl (Err (''failed to get SecretAccessKey from Secret resource, no '' @ quoted kSecret @ '' key found''))
                | Some secretKey \<Rightarrow>
                    if kSession = '''' then Inr (accessKey, secretKey, '''')
                    else (case mget m kSession of
                        None \<Rightarrow> if keysRef \<noteq> None
                          then Inl (Err (''failed to get SessionToken from Secret resource, no '' @ quoted kSession @ '' key found''))
                          else Inr (accessKey, secretKey, '''')
                      | Some token \<Rightarrow> Inr (accessKey, secretKey, token)))))"

text \<open>The credentials part of every AWS job: load the SDK's configuration, then the secret.\<close>

definition job_credentials :: "'z job_env_scheme \<Rightarrow> string \<Rightarrow> aws_credentials_spec option \<Rightarrow> effect_log \<Rightarrow> go_error + aws_credentials" where
  "job_credentials env operatorNamespace creds log =
     (case je_LoadConfig env log of
        Some err \<Rightarrow> Inl err
      | None \<Rightarrow> (case creds of
          None \<Rightarrow> Inr None
        | Some c \<Rightarrow> (case je_GetSecret env log (defaultNamespace operatorNamespace (cr_Namespace c)) (cr_SecretName c) of
            Inl err \<Rightarrow> Inl err
          | Inr secret \<Rightarrow> (case getAwsCredentialProviderFromSecret secret (cr_KeysRef c) of
              Inl err \<Rightarrow> Inl err
            | Inr k \<Rightarrow> Inr (Some k)))))"

section \<open>The shared shape of a job\<close>

text \<open>What to do for one target: the request, the message and reason of a failure, the reason and
  message of a success. A command that is none of the known ones does nothing.\<close>

record target_plan =
  tp_Request :: aws_request
  tp_FailMsg :: string
  tp_FailReason :: string
  tp_OkReason :: string
  tp_OkMsg :: string

fun target_loop :: "job_env \<Rightarrow> aws_credentials \<Rightarrow> string \<Rightarrow> string \<Rightarrow> ('t \<Rightarrow> target_plan option) \<Rightarrow> 't list \<Rightarrow>
    string list \<times> effect_log \<Rightarrow> string list \<times> effect_log" where
  "target_loop env creds kind name plan [] acc = acc"
| "target_loop env creds kind name plan (t # ts) (errorsList, log) =
     target_loop env creds kind name plan ts
       (case plan t of
          None \<Rightarrow> (errorsList, log)
        | Some p \<Rightarrow>
            (case je_Aws env log creds (tp_Request p) of
               Some err \<Rightarrow> (errorsList @ [tp_FailMsg p],
                 log @ [EvAws creds (tp_Request p), EvEvent kind name EventWarning (tp_FailReason p) (tp_FailMsg p)])
             | None \<Rightarrow> (errorsList,
                 log @ [EvAws creds (tp_Request p), EvEvent kind name EventNormal (tp_OkReason p) (tp_OkMsg p)])))"

text \<open>The four kinds of resources have the same fields; they differ in their actions.\<close>

record 'a aws_resource =
  ar_Name :: string
  ar_Namespace :: string
  ar_Enabled :: "bool option"
  ar_Schedule :: string
  ar_ServiceEndpoint :: "string option"
  ar_Targets :: "(string \<times> string) list"
  ar_Actions :: "(string, 'a) gomap"
  ar_Credentials :: "aws_credentials_spec option"
  ar_Conditions :: "condition list"

section \<open>Database clusters\<close>

record db_action =
  da_Enabled :: "bool option"
  da_Command :: string
  da_InstanceClass :: "string option"

type_synonym AwsRdsAuroraCluster = "db_action aws_resource"

type_synonym AwsDocumentDBCluster = "db_action aws_resource"

text \<open>What differs between the two controllers: names, the feature and the kind of action.\<close>

record db_kind =
  dk_Service :: string
  dk_Kind :: string
  dk_Label :: string
  dk_Feature :: Feature
  dk_ActionType :: string

definition rds_kind :: db_kind where
  "rds_kind = \<lparr>dk_Service = ''rds'', dk_Kind = ''AwsRdsAuroraCluster'', dk_Label = ''AWSRdsCluster'',
     dk_Feature = AuroraVerticalScaling, dk_ActionType = ''AuroraVerticalScale''\<rparr>"

definition docdb_kind :: db_kind where
  "docdb_kind = \<lparr>dk_Service = ''docdb'', dk_Kind = ''AwsDocumentDBCluster'', dk_Label = ''AWSDocumentDb'',
     dk_Feature = DocumentDBVerticalScaling, dk_ActionType = ''DocumentDbVerticalScale''\<rparr>"

definition db_plan :: "db_kind \<Rightarrow> string option \<Rightarrow> string \<Rightarrow> string \<times> string \<Rightarrow> target_plan option" where
  "db_plan k endpoint command target =
     (case target of (ident, region) \<Rightarrow>
        if command = ''start''
        then Some \<lparr>tp_Request = StartDBCluster (dk_Service k) region endpoint ident,
                   tp_FailMsg = ''unable to start cluster '' @ quoted ident, tp_FailReason = ''StartClusterFailed'',
                   tp_OkReason = ''StartClusterSucceeded'', tp_OkMsg = ''Cluster '' @ quoted ident @ '' is starting''\<rparr>
        else if command = ''stop''
        then Some \<lparr>tp_Request = StopDBCluster (dk_Service k) region endpoint ident,
                   tp_FailMsg = ''unable to stop cluster '' @ quoted ident, tp_FailReason = ''StopClusterFailed'',
                   tp_OkReason = ''StopClusterSucceeded'', tp_OkMsg = ''Cluster '' @ quoted ident @ '' is stopping''\<rparr>
        else None)"

text \<open>Seconds since 1970 of a time in nanoseconds since the year 1.\<close>

definition Unix :: "int \<Rightarrow> int" where
  "Unix t = t div 1000000000 - 62135596800"

definition scale_execution :: "db_kind \<Rightarrow> string \<Rightarrow> int \<Rightarrow> string \<Rightarrow> string \<Rightarrow> string \<Rightarrow> db_action \<Rightarrow> action_execution" where
  "scale_execution k operatorNamespace now keyNamespace keyName actionName act =
     \<lparr>ae_Name = keyName @ ''-'' @ actionName @ ''-'' @ show_int (Unix now),
      ae_Namespace = operatorNamespace, ae_CreationTimestamp = None, ae_DeletionTimestamp = None,
      ae_Spec = \<lparr>as_TargetResource = \<lparr>or_APIVersion = ''timeterra.d3vlo0p.dev/v1alpha1'', or_Kind = dk_Kind k,
                   or_Name = keyName, or_Namespace = keyNamespace\<rparr>,
                 as_ActionType = dk_ActionType k, as_ActionName = actionName,
                 as_Parameters = (case da_InstanceClass act of
                     None \<Rightarrow> '''' | Some cls \<Rightarrow> Marshal_field ''instanceClass'' cls)\<rparr>,
      ae_Status = \<lparr>st_Phase = '''', st_StateData = None\<rparr>\<rparr>"

definition scale_cluster :: "db_kind \<Rightarrow> job_env \<Rightarrow> meta_api \<Rightarrow> feature_registry option \<Rightarrow> string \<Rightarrow> db_action aws_resource \<Rightarrow>
    db_action \<Rightarrow> string \<Rightarrow> string \<Rightarrow> string \<Rightarrow> effect_log \<Rightarrow> job_answer" where
  "scale_cluster k env meta features operatorNamespace obj act keyNamespace keyName actionName log =
     (if \<not> IsEnabled features (dk_Feature k)
      then (JobResultSkipped, [], log @ [EvEvent (dk_Kind k) (ar_Name obj) EventWarning ''FeatureDisabled''
              (''Action '' @ quoted actionName @ '' skipped: '' @ dk_Feature k @ '' feature gate is not enabled'')])
      else (let op = scale_execution k operatorNamespace (je_End env) keyNamespace keyName actionName act;
                err = je_CreateAction env log op;
                log1 = log @ [EvCreateAction op]
            in case err of
                 Some e \<Rightarrow> job_error (err_Error e) log1
               | None \<Rightarrow>
                   (JobResultSuccess, [],
                    log1 @ [EvEvent (dk_Kind k) (ar_Name obj) EventNormal ''ScalingTriggered''
                              (''Vertical scaling triggered via ActionExecution '' @ ae_Name op),
                            EvStatusUpdate (dk_Kind k) (ar_Name obj) (addToConditions meta (ar_Conditions obj)
                              (mk_condition (je_End env) (conditionTypeForAction actionName) ConditionTrue ''Active''
                                 (''Scaling triggered at:'' @ quoted (je_RFC3339 env (je_End env)))))])))"

definition startStopCluster :: "db_kind \<Rightarrow> job_env \<Rightarrow> meta_api \<Rightarrow> feature_registry option \<Rightarrow> string \<Rightarrow>
    (effect_log \<Rightarrow> string \<Rightarrow> string \<Rightarrow> go_error + db_action aws_resource) \<Rightarrow>
    effect_log \<Rightarrow> string \<Rightarrow> string \<Rightarrow> string \<Rightarrow> job_answer" where
  "startStopCluster k env meta features operatorNamespace getObj log keyNamespace keyName actionName =
     (case getObj log keyNamespace keyName of
        Inl err \<Rightarrow> job_error (err_Error err) log
      | Inr obj \<Rightarrow> (case mget (ar_Actions obj) actionName of
          None \<Rightarrow> job_error (''Action '' @ quoted actionName @ '' not found in '' @ dk_Label k @ '' resource.'') log
        | Some act \<Rightarrow>
            if da_Command act = ''scale''
            then scale_cluster k env meta features operatorNamespace obj act keyNamespace keyName actionName log
            else (case job_credentials env operatorNamespace (ar_Credentials obj) log of
                Inl err \<Rightarrow> job_error (err_Error err) log
              | Inr creds \<Rightarrow>
                  (case target_loop env creds (dk_Kind k) (ar_Name obj) (db_plan k (ar_ServiceEndpoint obj) (da_Command act))
                          (ar_Targets obj) ([], log) of
                     (errorsList, log1) \<Rightarrow>
                       finish_job env meta (dk_Kind k) (ar_Name obj) (ar_Conditions obj) actionName errorsList log1))))"

definition AwsRdsAuroraCluster_startStopCluster where
  "AwsRdsAuroraCluster_startStopCluster = startStopCluster rds_kind"

definition AwsDocumentDBCluster_startStopCluster where
  "AwsDocumentDBCluster_startStopCluster = startStopCluster docdb_kind"

section \<open>EC2 instances\<close>

record ec2_action =
  ea_Enabled :: "bool option"
  ea_Command :: string
  ea_Force :: "bool option"

type_synonym AwsEc2Instance = "ec2_action aws_resource"

definition ec2_plan :: "string option \<Rightarrow> ec2_action \<Rightarrow> string \<times> string \<Rightarrow> target_plan option" where
  "ec2_plan endpoint act target =
     (case target of (ident, region) \<Rightarrow>
        if ea_Command act = ''start''
        then Some \<lparr>tp_Request = StartInstances region endpoint ident,
                   tp_FailMsg = ''unable to start ec2 '' @ quoted ident, tp_FailReason = ''StartEc2Failed'',
                   tp_OkReason = ''StartEc2Succeeded'', tp_OkMsg = ''Ec2 '' @ quoted ident @ '' is starting''\<rparr>
        else if ea_Command act = ''stop'' \<or> ea_Command act = ''hibernate''
        then Some \<lparr>tp_Request = StopInstances region endpoint ident (ea_Command act = ''hibernate'') (ea_Force act),
                   tp_FailMsg = ''unable to stop ec2 '' @ quoted ident, tp_FailReason = ''StopEc2Failed'',
                   tp_OkReason = ''StopEc2Succeeded'', tp_OkMsg = ''Ec2 '' @ quoted ident @ '' is stopping''\<rparr>
        else None)"

definition startStopInstances :: "job_env \<Rightarrow> meta_api \<Rightarrow> string \<Rightarrow>
    (effect_log \<Rightarrow> string \<Rightarrow> string \<Rightarrow> go_error + AwsEc2Instance) \<Rightarrow> effect_log \<Rightarrow> string \<Rightarrow> string \<Rightarrow> string \<Rightarrow> job_answer" where
  "startStopInstances env meta operatorNamespace getObj log keyNamespace keyName actionName =
     (case getObj log keyNamespace keyName of
        Inl err \<Rightarrow> job_error (err_Error err) log
      | Inr obj \<Rightarrow> (case mget (ar_Actions obj) actionName of
          None \<Rightarrow> job_error (''Action '' @ quoted actionName @ '' not found in AWSEc2Instance resource'') log
        | Some act \<Rightarrow> (case job_credentials env operatorNamespace (ar_Credentials obj) log of
            Inl err \<Rightarrow> job_error (err_Error err) log
          | Inr creds \<Rightarrow>
              (case target_loop env creds ''AwsEc2Instance'' (ar_Name obj) (ec2_plan (ar_ServiceEndpoint obj) act)
                      (ar_Targets obj) ([], log) of
                 (errorsList, log1) \<Rightarrow>
                   finish_job env meta ''AwsEc2Instance'' (ar_Name obj) (ar_Conditions obj) actionName errorsList log1))))"

section \<open>Transfer servers\<close>

record transfer_action =
  ta_Enabled :: "bool option"
  ta_Command :: string

type_synonym AwsTransferFamily = "transfer_action aws_resource"

definition transfer_plan :: "string option \<Rightarrow> transfer_action \<Rightarrow> string \<times> string \<Rightarrow> target_plan option" where
  "transfer_plan endpoint act target =
     (case target of (ident, region) \<Rightarrow>
        if ta_Command act = ''start''
        then Some \<lparr>tp_Request = StartServer region endpoint ident,
                   tp_FailMsg = ''unable to start server '' @ quoted ident, tp_FailReason = ''StartServerFailed'',
                   tp_OkReason = ''StartServerSucceeded'', tp_OkMsg = ''Server '' @ quoted ident @ '' is starting''\<rparr>
        else if ta_Command act = ''stop''
        then Some \<lparr>tp_Request = StopServer region endpoint ident,
                   tp_FailMsg = ''unable to stop server '' @ quoted ident, tp_FailReason = ''StopServerFailed'',
                   tp_OkReason = ''StopServerSucceeded'', tp_OkMsg = ''Server '' @ quoted ident @ '' is stopping''\<rparr>
        else None)"

definition startStopServer :: "job_env \<Rightarrow> meta_api \<Rightarrow> string \<Rightarrow>
    (effect_log \<Rightarrow> string \<Rightarrow> string \<Rightarrow> go_error + AwsTransferFamily) \<Rightarrow> effect_log \<Rightarrow> string \<Rightarrow> string \<Rightarrow> string \<Rightarrow> job_answer" where
  "startStopServer env meta operatorNamespace getObj log keyNamespace keyName actionName =
     (case getObj log keyNamespace keyName of
        Inl err \<Rightarrow> job_error (err_Error err) log
      | Inr obj \<Rightarrow> (case mget (ar_Actions obj) actionName of
          None \<Rightarrow> job_error (''Action '' @ quoted actionName @ '' not found in AWSTransferFamily resource'') log
        | Some act \<Rightarrow> (case job_credentials env operatorNamespace (ar_Credentials obj) log of
            Inl err \<Rightarrow> job_error (err_Error err) log
          | Inr creds \<Rightarrow>
              (case target_loop env creds ''AwsTransferFamily'' (ar_Name obj) (transfer_plan (ar_ServiceEndpoint obj) act)
                      (ar_Targets obj) ([], log) of
                 (errorsList, log1) \<Rightarrow>
                   finish_job env meta ''AwsTransferFamily'' (ar_Name obj) (ar_Conditions obj) actionName errorsList log1))))"

section \<open>Reconciling an AWS resource\<close>

definition aws_reconcile_resource :: "string \<Rightarrow> 'a aws_resource \<Rightarrow> reconcile_resource" where
  "aws_reconcile_resource kind obj =
     \<lparr>rr_Kind = kind, rr_Name = ar_Name obj, rr_Namespace = ar_Namespace obj, rr_Schedule = ar_Schedule obj,
      rr_Active = IsActive (ar_Enabled obj), rr_Conditions = ar_Conditions obj\<rparr>"

definition aws_Reconcile :: "('c, 's) job_lib \<Rightarrow> range_order \<Rightarrow> api_server \<Rightarrow> meta_api \<Rightarrow> job_env \<Rightarrow> string \<Rightarrow>
    (effect_log \<Rightarrow> string \<Rightarrow> go_error + 'a aws_resource) \<Rightarrow> ('a \<Rightarrow> bool) \<Rightarrow> string \<Rightarrow> 'c rc_state \<Rightarrow> string \<Rightarrow>
    go_error option \<times> 'c rc_state" where
  "aws_Reconcile lib ord api meta env kind getObj isActive operatorNamespace st name =
     (let resource = resourceName (''v1alpha1.'' @ kind) name in
      case getObj (rc_log st) name of
        Inl err \<Rightarrow>
          if err_IsNotFound err then (None, st\<lparr>rc_svc := RemoveResource lib ord (rc_svc st) resource\<rparr>) else (Some err, st)
      | Inr obj \<Rightarrow>
          (let go = reconcileResource lib ord api meta st (aws_reconcile_resource kind obj) resource (ar_Actions obj) isActive in
           case ar_Credentials obj of
             None \<Rightarrow> go
           | Some c \<Rightarrow>
               (let ns = defaultNamespace operatorNamespace (cr_Namespace c) in
                case je_GetSecret env (rc_log st) ns (cr_SecretName c) of
                  Inl err \<Rightarrow> (Some err, st\<lparr>rc_log := rc_log st @ [EvEvent kind (ar_Name obj) EventWarning ''SecretError''
                      (''Secret '' @ quoted (ns @ ''/'' @ cr_SecretName c) @ '' error: '' @ err_Error err)]\<rparr>)
                | Inr secret \<Rightarrow> go)))"

definition AwsRdsAuroraCluster_Reconcile :: "('c, 's) job_lib \<Rightarrow> range_order \<Rightarrow> api_server \<Rightarrow> meta_api \<Rightarrow> job_env \<Rightarrow>
    (effect_log \<Rightarrow> string \<Rightarrow> go_error + AwsRdsAuroraCluster) \<Rightarrow> string \<Rightarrow> 'c rc_state \<Rightarrow> string \<Rightarrow> go_error option \<times> 'c rc_state" where
  "AwsRdsAuroraCluster_Reconcile lib ord api meta env getObj =
     aws_Reconcile lib ord api meta env ''AwsRdsAuroraCluster'' getObj (\<lambda>a. IsActive (da_Enabled a))"

definition AwsDocumentDBCluster_Reconcile :: "('c, 's) job_lib \<Rightarrow> range_order \<Rightarrow> api_server \<Rightarrow> meta_api \<Rightarrow> job_env \<Rightarrow>
    (effect_log \<Rightarrow> string \<Rightarrow> go_error + AwsDocumentDBCluster) \<Rightarrow> string \<Rightarrow> 'c rc_state \<Rightarrow> string \<Rightarrow> go_error option \<times> 'c rc_state" where
  "AwsDocumentDBCluster_Reconcile lib ord api meta env getObj =
     aws_Reconcile lib ord api meta env ''AwsDocumentDBCluster'' getObj (\<lambda>a. IsActive (da_Enabled a))"

definition AwsEc2Instance_Reconcile :: "('c, 's) job_lib \<Rightarrow> range_order \<Rightarrow> api_server \<Rightarrow> meta_api \<Rightarrow> job_env \<Rightarrow>
    (effect_log \<Rightarrow> string \<Rightarrow> go_error + AwsEc2Instance) \<Rightarrow> string \<Rightarrow> 'c rc_state \<Rightarrow> string \<Rightarrow> go_error option \<times> 'c rc_state" where
  "AwsEc2Instance_Reconcile lib ord api meta env getObj =
     aws_Reconcile lib ord api meta env ''AwsEc2Instance'' getObj (\<lambda>a. IsActive (ea_Enabled a))"

definition AwsTransferFamily_Reconcile :: "('c, 's) job_lib \<Rightarrow> range_order \<Rightarrow> api_server \<Rightarrow> meta_api \<Rightarrow> job_env \<Rightarrow>
    (effect_log \<Rightarrow> string \<Rightarrow> go_error + AwsTransferFamily) \<Rightarrow> string \<Rightarrow> 'c rc_state \<Rightarrow> string \<Rightarrow> go_error option \<times> 'c rc_state" where
  "AwsTransferFamily_Reconcile lib ord api meta env getObj =
     aws_Reconcile lib ord api meta env ''AwsTransferFamily'' getObj (\<lambda>a. IsActive (ta_Enabled a))"

section \<open>What a job asked of the cloud\<close>

text \<open>
  The requests of a log from a position on, and those that the service answered with an error. A
  request's answer depends on the log before it, so the failures are read off the log's prefixes.
\<close>

fun aws_calls :: "effect_log \<Rightarrow> (aws_credentials \<times> aws_request) list" where
  "aws_calls [] = []"
| "aws_calls (EvAws c q # es) = (c, q) # aws_calls es"
| "aws_calls (e # es) = aws_calls es"

fun aws_failures :: "job_env \<Rightarrow> effect_log \<Rightarrow> effect_log \<Rightarrow> aws_request list" where
  "aws_failures env log [] = []"
| "aws_failures env log (EvAws c q # es) =
     (if je_Aws env log c q = None then [] else [q]) @ aws_failures env (log @ [EvAws c q]) es"
| "aws_failures env log (e # es) = aws_failures env (log @ [e]) es"

lemma aws_calls_append [simp]: "aws_calls (xs @ ys) = aws_calls xs @ aws_calls ys"
  by (induction xs rule: aws_calls.induct) auto

lemma aws_failures_append [simp]:
  "aws_failures env log (xs @ ys) = aws_failures env log xs @ aws_failures env (log @ xs) ys"
  by (induction env log xs rule: aws_failures.induct) auto

text \<open>
  The interface between a kind's switch and the shared loop: the message of a failure is a
  function of the request. Of the loop: every planned request is sent once, in the order of the
  targets, whatever the answers; the messages collected are those of the failed requests.
\<close>

locale target_plans =
  fixes plan :: "'t \<Rightarrow> target_plan option"
    and message :: "aws_request \<Rightarrow> string"
  assumes plan_message: "plan t = Some p \<Longrightarrow> tp_FailMsg p = message (tp_Request p)"
begin

lemma loop_effects:
  "\<exists>new. target_loop env creds kind name plan ts (errs, log) =
       (errs @ map message (aws_failures env log new), log @ new) \<and>
     aws_calls new = map (\<lambda>p. (creds, tp_Request p)) (List.map_filter plan ts)"
proof (induction ts arbitrary: errs log)
  case Nil
  show ?case
    by (rule exI [of _ "[]"]) (simp add: map_filter_simps)
next
  case (Cons t ts)
  show ?case
  proof (cases "plan t")
    case None
    then show ?thesis
      using Cons by (simp add: map_filter_simps)
  next
    case (Some p)
    let ?q = "tp_Request p"
    define ev where "ev = (case je_Aws env log creds ?q of
        Some err \<Rightarrow> EvEvent kind name EventWarning (tp_FailReason p) (tp_FailMsg p)
      | None \<Rightarrow> EvEvent kind name EventNormal (tp_OkReason p) (tp_OkMsg p))"
    define errs1 where "errs1 = (if je_Aws env log creds ?q = None then errs else errs @ [message ?q])"
    have "target_loop env creds kind name plan (t # ts) (errs, log) =
        target_loop env creds kind name plan ts (errs1, log @ [EvAws creds ?q, ev])"
      by (simp add: Some ev_def errs1_def plan_message [OF Some] split: option.splits)
    moreover obtain new where "target_loop env creds kind name plan ts (errs1, log @ [EvAws creds ?q, ev]) =
        (errs1 @ map message (aws_failures env (log @ [EvAws creds ?q, ev]) new), (log @ [EvAws creds ?q, ev]) @ new)"
      and "aws_calls new = map (\<lambda>p. (creds, tp_Request p)) (List.map_filter plan ts)"
      using Cons by blast
    moreover have "\<exists>a b c d e. ev = EvEvent a b c d e"
      by (simp add: ev_def split: option.splits)
    ultimately show ?thesis
      by (intro exI [of _ "EvAws creds ?q # ev # new"]) (auto simp: Some errs1_def map_filter_simps)
  qed
qed

text \<open>The loop followed by the tail of the job.\<close>

lemma job_effects:
  assumes meta: "meta_contract meta"
    and run: "(case target_loop env creds kind name plan ts ([], log) of (errorsList, log1) \<Rightarrow>
      finish_job env meta kind nm conditions actionName errorsList log1) = (r, md, log')"
  shows "\<exists>new conds. log' = log @ new \<and> last log' = EvStatusUpdate kind nm conds \<and>
    aws_calls new = map (\<lambda>p. (creds, tp_Request p)) (List.map_filter plan ts) \<and>
    (let failed = map message (aws_failures env log new) in
     if failed = [] then r = JobResultSuccess \<and> md = [] \<and>
       (\<exists>msg. cond_view conds (conditionTypeForAction actionName) = Some (ConditionTrue, ''Active'', msg))
     else r = JobResultFailure \<and> md = [(''error_list'', MetaList failed)] \<and>
       cond_view conds (conditionTypeForAction actionName) =
         Some (ConditionFalse, ''Failed'', strings_Join failed '';''))"
proof -
  obtain new where loop: "target_loop env creds kind name plan ts ([], log) =
      (map message (aws_failures env log new), log @ new)"
    and calls: "aws_calls new = map (\<lambda>p. (creds, tp_Request p)) (List.map_filter plan ts)"
    using loop_effects [of env creds kind name ts "[]" log] by auto
  show ?thesis
  proof (cases "aws_failures env log new")
    case Nil
    with run obtain conds where log': "log' = log @ new @ [EvStatusUpdate kind nm conds]"
      and rest: "r = JobResultSuccess" "md = []"
        "\<exists>msg. cond_view conds (conditionTypeForAction actionName) = Some (ConditionTrue, ''Active'', msg)"
      by (auto simp: loop finish_job_def meta)
    show ?thesis
      by (intro exI [of _ "new @ [EvStatusUpdate kind nm conds]"] exI [of _ conds]) (use rest in \<open>simp add: log' calls Nil\<close>)
  next
    case (Cons q qs)
    with run obtain conds where log': "log' = log @ new @ [EvStatusUpdate kind nm conds]"
      and rest: "r = JobResultFailure" "md = [(''error_list'', MetaList (map message (q # qs)))]"
        "cond_view conds (conditionTypeForAction actionName) = Some (ConditionFalse, ''Failed'', strings_Join (map message (q # qs)) '';'')"
      by (auto simp: loop finish_job_def meta)
    show ?thesis
      by (intro exI [of _ "new @ [EvStatusUpdate kind nm conds]"] exI [of _ conds]) (use rest in \<open>simp add: log' calls Cons\<close>)
  qed
qed

end

text \<open>The failure messages of the four kinds.\<close>

fun failure_message :: "aws_request \<Rightarrow> string" where
  "failure_message (StartDBCluster s r e i) = ''unable to start cluster '' @ quoted i"
| "failure_message (StopDBCluster s r e i) = ''unable to stop cluster '' @ quoted i"
| "failure_message (StartInstances r e i) = ''unable to start ec2 '' @ quoted i"
| "failure_message (StopInstances r e i h f) = ''unable to stop ec2 '' @ quoted i"
| "failure_message (StartServer r e i) = ''unable to start server '' @ quoted i"
| "failure_message (StopServer r e i) = ''unable to stop server '' @ quoted i"

interpretation db: target_plans "db_plan k endpoint command" failure_message
  by unfold_locales (auto simp: db_plan_def split: prod.splits if_splits)

interpretation ec2: target_plans "ec2_plan endpoint act" failure_message
  by unfold_locales (auto simp: ec2_plan_def split: prod.splits if_splits)

interpretation transfer: target_plans "transfer_plan endpoint act" failure_message
  by unfold_locales (auto simp: transfer_plan_def split: prod.splits if_splits)

section \<open>What a job reports\<close>

text \<open>
  The specification of a start or stop job: it only appends to the log; the requests it sent are
  the given ones, each with the credentials; the job fails exactly when some request failed, its
  metadata and condition list the failed ones, and the last thing it does is to write the status.
\<close>

definition job_report :: "job_env \<Rightarrow> string \<Rightarrow> string \<Rightarrow> string \<Rightarrow> aws_credentials \<Rightarrow> aws_request list \<Rightarrow> effect_log \<Rightarrow> job_answer \<Rightarrow> bool" where
  "job_report env kind nm actionName creds requests log answer \<longleftrightarrow>
     (case answer of (r, md, log') \<Rightarrow>
       \<exists>new conds. log' = log @ new \<and> last log' = EvStatusUpdate kind nm conds \<and>
         aws_calls new = map (Pair creds) requests \<and>
         (let failed = map failure_message (aws_failures env log new) in
          if failed = [] then r = JobResultSuccess \<and> md = [] \<and>
            (\<exists>msg. cond_view conds (conditionTypeForAction actionName) = Some (ConditionTrue, ''Active'', msg))
          else r = JobResultFailure \<and> md = [(''error_list'', MetaList failed)] \<and>
            cond_view conds (conditionTypeForAction actionName) =
              Some (ConditionFalse, ''Failed'', strings_Join failed '';'')))"

lemma map_filter_total: "(\<And>t. t \<in> set ts \<Longrightarrow> plan t = Some (f t)) \<Longrightarrow> List.map_filter plan ts = map f ts"
  by (induction ts) (auto simp: map_filter_simps)

lemma job_reportI:
  assumes "\<exists>new conds. log' = log @ new \<and> last log' = EvStatusUpdate kind nm conds \<and>
      aws_calls new = map (\<lambda>p. (creds, tp_Request p)) (List.map_filter plan ts) \<and>
      (let failed = map failure_message (aws_failures env log new) in
       if failed = [] then r = JobResultSuccess \<and> md = [] \<and>
         (\<exists>msg. cond_view conds (conditionTypeForAction actionName) = Some (ConditionTrue, ''Active'', msg))
       else r = JobResultFailure \<and> md = [(''error_list'', MetaList failed)] \<and>
         cond_view conds (conditionTypeForAction actionName) =
           Some (ConditionFalse, ''Failed'', strings_Join failed '';''))"
    and "map tp_Request (List.map_filter plan ts) = requests"
  shows "job_report env kind nm actionName creds requests log (r, md, log')"
proof -
  have "map (\<lambda>p. (creds, tp_Request p)) (List.map_filter plan ts) = map (Pair creds) requests"
    using assms(2) by auto
  with assms(1) show ?thesis
    by (simp only: job_report_def prod.case)
qed

definition db_request :: "db_kind \<Rightarrow> string option \<Rightarrow> string \<Rightarrow> string \<times> string \<Rightarrow> aws_request" where
  "db_request k endpoint command = (\<lambda>(ident, region).
     if command = ''start'' then StartDBCluster (dk_Service k) region endpoint ident
     else StopDBCluster (dk_Service k) region endpoint ident)"

definition ec2_request :: "string option \<Rightarrow> ec2_action \<Rightarrow> string \<times> string \<Rightarrow> aws_request" where
  "ec2_request endpoint act = (\<lambda>(ident, region).
     if ea_Command act = ''start'' then StartInstances region endpoint ident
     else StopInstances region endpoint ident (ea_Command act = ''hibernate'') (ea_Force act))"

definition transfer_request :: "string option \<Rightarrow> transfer_action \<Rightarrow> string \<times> string \<Rightarrow> aws_request" where
  "transfer_request endpoint act = (\<lambda>(ident, region).
     if ta_Command act = ''start'' then StartServer region endpoint ident else StopServer region endpoint ident)"

lemma db_requests:
  "command \<in> {''start'', ''stop''} \<Longrightarrow>
     map tp_Request (List.map_filter (db_plan k endpoint command) ts) = map (db_request k endpoint command) ts"
  by (induction ts) (auto simp: map_filter_simps db_plan_def db_request_def split: prod.splits)

lemma ec2_requests:
  "ea_Command act \<in> {''start'', ''stop'', ''hibernate''} \<Longrightarrow>
     map tp_Request (List.map_filter (ec2_plan endpoint act) ts) = map (ec2_request endpoint act) ts"
  by (induction ts) (auto simp: map_filter_simps ec2_plan_def ec2_request_def split: prod.splits)

lemma transfer_requests:
  "ta_Command act \<in> {''start'', ''stop''} \<Longrightarrow>
     map tp_Request (List.map_filter (transfer_plan endpoint act) ts) = map (transfer_request endpoint act) ts"
  by (induction ts) (auto simp: map_filter_simps transfer_plan_def transfer_request_def split: prod.splits)

text \<open>A cloud for the witnesses: it refuses to stop the cluster \<open>b\<close> and accepts everything else.\<close>

definition demo_env :: job_env where
  "demo_env = \<lparr>je_Start = 0, je_End = 5, je_RFC3339 = show_int, je_LoadConfig = (\<lambda>_. None),
     je_GetSecret = (\<lambda>_ ns name. if name = ''keys'' then Inr (Some [(''aws_access_key_id'', ''AK''), (''aws_secret_access_key'', ''SK'')])
                                else Inl (ErrNotFound ''no secret'')),
     je_Aws = (\<lambda>_ _ q. if q = StopDBCluster ''rds'' ''eu-west-1'' None ''b'' then Some (Err ''busy'') else None),
     je_CreateAction = (\<lambda>_ _. None)\<rparr>"

definition demo_aws :: "'a \<Rightarrow> 'a aws_resource" where
  "demo_aws act = \<lparr>ar_Name = ''prod'', ar_Namespace = '''', ar_Enabled = None, ar_Schedule = ''office'', ar_ServiceEndpoint = None,
     ar_Targets = [(''a'', ''eu-west-1''), (''b'', ''eu-west-1'')], ar_Actions = [(''night'', act)],
     ar_Credentials = Some \<lparr>cr_SecretName = ''keys'', cr_Namespace = '''', cr_KeysRef = None\<rparr>, ar_Conditions = []\<rparr>"

lemma demo_action: "mget (ar_Actions (demo_aws act)) ''night'' = Some act"
  by (simp add: demo_aws_def)

lemma demo_credentials: "job_credentials demo_env ''ops'' (ar_Credentials (demo_aws act)) log = Inr (Some (''AK'', ''SK'', ''''))"
  by (simp add: job_credentials_def demo_env_def demo_aws_def getAwsCredentialProviderFromSecret_def)

text \<open>
  Claim C18. Start and stop of database clusters: when the resource has the action and the
  credentials are found, the job sends one request per cluster identifier of the spec, in their
  order, to the identifier's region and with the credentials, also after requests that failed. It
  reports Failure exactly when some request failed, with the messages of exactly the failed ones
  in the notification's metadata and in the status condition.
\<close>

theorem db_job_every_target:
  assumes "meta_contract meta" and "getObj log ns name = Inr obj" and "mget (ar_Actions obj) a = Some act"
    and "da_Command act \<in> {''start'', ''stop''}"
    and "job_credentials env operatorNamespace (ar_Credentials obj) log = Inr creds"
  shows "job_report env (dk_Kind k) (ar_Name obj) a creds
    (map (db_request k (ar_ServiceEndpoint obj) (da_Command act)) (ar_Targets obj)) log
    (startStopCluster k env meta features operatorNamespace getObj log ns name a)"
proof -
  obtain r md log' where run: "startStopCluster k env meta features operatorNamespace getObj log ns name a = (r, md, log')"
    by (rule prod_cases3)
  then have "(case target_loop env creds (dk_Kind k) (ar_Name obj)
        (db_plan k (ar_ServiceEndpoint obj) (da_Command act)) (ar_Targets obj) ([], log) of
      (errorsList, log1) \<Rightarrow> finish_job env meta (dk_Kind k) (ar_Name obj) (ar_Conditions obj) a errorsList log1) = (r, md, log')"
    using assms(2-5) by (auto simp: startStopCluster_def)
  from db.job_effects [OF assms(1) this] show ?thesis
    unfolding run by (rule job_reportI) (rule db_requests [OF assms(4)])
qed

theorem db_job_every_target_witness:
  "job_report demo_env ''AwsRdsAuroraCluster'' ''prod'' ''night'' (Some (''AK'', ''SK'', ''''))
     [StopDBCluster ''rds'' ''eu-west-1'' None ''a'', StopDBCluster ''rds'' ''eu-west-1'' None ''b''] []
     (startStopCluster rds_kind demo_env keyed_meta None ''ops''
        (\<lambda>_ _ _. Inr (demo_aws \<lparr>da_Enabled = None, da_Command = ''stop'', da_InstanceClass = None\<rparr>)) [] '''' ''prod'' ''night'')"
  using db_job_every_target [OF keyed_meta_contract, where getObj = "\<lambda>_ _ _. Inr (demo_aws \<lparr>da_Enabled = None, da_Command = ''stop'', da_InstanceClass = None\<rparr>)"
      and log = "[]" and a = "''night''" and k = rds_kind and ns = "''''" and name = "''prod''" and features = None
      and act = "\<lparr>da_Enabled = None, da_Command = ''stop'', da_InstanceClass = None\<rparr>", OF refl _ _ demo_credentials]
  by (simp add: demo_aws_def db_request_def rds_kind_def)

text \<open>
  The same for EC2 instances, for the commands start, stop and hibernate: a hibernate
  sends a stop with the hibernation flag, and the force option of the action is passed on.
\<close>

theorem ec2_job_every_target:
  assumes "meta_contract meta" and "getObj log ns name = Inr obj" and "mget (ar_Actions obj) a = Some act"
    and "ea_Command act \<in> {''start'', ''stop'', ''hibernate''}"
    and "job_credentials env operatorNamespace (ar_Credentials obj) log = Inr creds"
  shows "job_report env ''AwsEc2Instance'' (ar_Name obj) a creds
    (map (ec2_request (ar_ServiceEndpoint obj) act) (ar_Targets obj)) log
    (startStopInstances env meta operatorNamespace getObj log ns name a)"
proof -
  obtain r md log' where run: "startStopInstances env meta operatorNamespace getObj log ns name a = (r, md, log')"
    by (rule prod_cases3)
  then have "(case target_loop env creds ''AwsEc2Instance'' (ar_Name obj)
        (ec2_plan (ar_ServiceEndpoint obj) act) (ar_Targets obj) ([], log) of
      (errorsList, log1) \<Rightarrow> finish_job env meta ''AwsEc2Instance'' (ar_Name obj) (ar_Conditions obj) a errorsList log1) = (r, md, log')"
    using assms(2,3,5) by (simp add: startStopInstances_def)
  from ec2.job_effects [OF assms(1) this] show ?thesis
    unfolding run by (rule job_reportI) (rule ec2_requests [OF assms(4)])
qed

theorem ec2_job_every_target_witness:
  "job_report demo_env ''AwsEc2Instance'' ''prod'' ''night'' (Some (''AK'', ''SK'', ''''))
     [StopInstances ''eu-west-1'' None ''a'' True (Some True), StopInstances ''eu-west-1'' None ''b'' True (Some True)] []
     (startStopInstances demo_env keyed_meta ''ops''
        (\<lambda>_ _ _. Inr (demo_aws \<lparr>ea_Enabled = None, ea_Command = ''hibernate'', ea_Force = Some True\<rparr>)) [] '''' ''prod'' ''night'')"
  using ec2_job_every_target [OF keyed_meta_contract, where getObj = "\<lambda>_ _ _. Inr (demo_aws \<lparr>ea_Enabled = None, ea_Command = ''hibernate'', ea_Force = Some True\<rparr>)"
      and log = "[]" and a = "''night''" and ns = "''''" and name = "''prod''"
      and act = "\<lparr>ea_Enabled = None, ea_Command = ''hibernate'', ea_Force = Some True\<rparr>", OF refl _ _ demo_credentials]
  by (simp add: demo_aws_def ec2_request_def)

text \<open>
  The same for the servers of AWS Transfer Family.
\<close>

theorem transfer_job_every_target:
  assumes "meta_contract meta" and "getObj log ns name = Inr obj" and "mget (ar_Actions obj) a = Some act"
    and "ta_Command act \<in> {''start'', ''stop''}"
    and "job_credentials env operatorNamespace (ar_Credentials obj) log = Inr creds"
  shows "job_report env ''AwsTransferFamily'' (ar_Name obj) a creds
    (map (transfer_request (ar_ServiceEndpoint obj) act) (ar_Targets obj)) log
    (startStopServer env meta operatorNamespace getObj log ns name a)"
proof -
  obtain r md log' where run: "startStopServer env meta operatorNamespace getObj log ns name a = (r, md, log')"
    by (rule prod_cases3)
  then have "(case target_loop env creds ''AwsTransferFamily'' (ar_Name obj)
        (transfer_plan (ar_ServiceEndpoint obj) act) (ar_Targets obj) ([], log) of
      (errorsList, log1) \<Rightarrow> finish_job env meta ''AwsTransferFamily'' (ar_Name obj) (ar_Conditions obj) a errorsList log1) = (r, md, log')"
    using assms(2,3,5) by (simp add: startStopServer_def)
  from transfer.job_effects [OF assms(1) this] show ?thesis
    unfolding run by (rule job_reportI) (rule transfer_requests [OF assms(4)])
qed

theorem transfer_job_every_target_witness:
  "job_report demo_env ''AwsTransferFamily'' ''prod'' ''night'' (Some (''AK'', ''SK'', ''''))
     [StartServer ''eu-west-1'' None ''a'', StartServer ''eu-west-1'' None ''b''] []
     (startStopServer demo_env keyed_meta ''ops''
        (\<lambda>_ _ _. Inr (demo_aws \<lparr>ta_Enabled = None, ta_Command = ''start''\<rparr>)) [] '''' ''prod'' ''night'')"
  using transfer_job_every_target [OF keyed_meta_contract, where getObj = "\<lambda>_ _ _. Inr (demo_aws \<lparr>ta_Enabled = None, ta_Command = ''start''\<rparr>)"
      and log = "[]" and a = "''night''" and ns = "''''" and name = "''prod''"
      and act = "\<lparr>ta_Enabled = None, ta_Command = ''start''\<rparr>", OF refl _ _ demo_credentials]
  by (simp add: demo_aws_def transfer_request_def)

section \<open>Credentials and the feature gate\<close>

definition key_names_hold :: "aws_keys_ref option \<Rightarrow> (string, string) gomap \<Rightarrow> string \<Rightarrow> string \<Rightarrow> string \<Rightarrow> bool" where
  "key_names_hold keysRef m access secret token \<longleftrightarrow>
     (case keysRef of
        None \<Rightarrow> mget m ''aws_access_key_id'' = Some access \<and> mget m ''aws_secret_access_key'' = Some secret \<and>
          (mget m ''aws_session_token'' = Some token \<or> mget m ''aws_session_token'' = None \<and> token = '''')
      | Some ref \<Rightarrow>
          mget m (if kr_AccessKey ref = '''' then ''aws_access_key_id'' else kr_AccessKey ref) = Some access \<and>
          mget m (if kr_SecretKey ref = '''' then ''aws_secret_access_key'' else kr_SecretKey ref) = Some secret \<and>
          (if kr_SessionKey ref = '''' then token = '''' else mget m (kr_SessionKey ref) = Some token))"

lemma provider_exact:
  "getAwsCredentialProviderFromSecret secret keysRef = Inr (access, key, token) \<longleftrightarrow>
     (\<exists>m. secret = Some m \<and> key_names_hold keysRef m access key token)"
proof (cases secret)
  case (Some m)
  show ?thesis
  proof (cases keysRef)
    case None
    show ?thesis
      by (auto simp: getAwsCredentialProviderFromSecret_def key_names_hold_def Some None split: option.split)
  next
    case (Some ref)
    have or: "key_or a b = (if a = '''' then b else a)" for a b
      by (simp add: key_or_def)
    show ?thesis
      by (auto simp: getAwsCredentialProviderFromSecret_def key_names_hold_def or \<open>secret = Some m\<close> Some
        split: option.split)
  qed
qed (simp add: getAwsCredentialProviderFromSecret_def)

text \<open>
  The credentials of a job: without a secret in the spec the SDK's default chain is
  used; with one, the job goes on only when the secret exists and holds an access key and a
  secret key under the names the spec gives (or the default names), and sends exactly these. A
  session token is required when the spec names its key, left empty when the spec has keys but
  none for the token, and taken when present otherwise.
\<close>

theorem job_credentials_exact:
  "job_credentials env operatorNamespace spec log = Inr creds \<longleftrightarrow>
     je_LoadConfig env log = None \<and>
     (case spec of
        None \<Rightarrow> creds = None
      | Some c \<Rightarrow> (\<exists>m access secret token.
          je_GetSecret env log (if cr_Namespace c = '''' then operatorNamespace else cr_Namespace c) (cr_SecretName c) = Inr (Some m) \<and>
          creds = Some (access, secret, token) \<and>
          (case cr_KeysRef c of
             None \<Rightarrow> mget m ''aws_access_key_id'' = Some access \<and> mget m ''aws_secret_access_key'' = Some secret \<and>
               (mget m ''aws_session_token'' = Some token \<or> mget m ''aws_session_token'' = None \<and> token = '''')
           | Some ref \<Rightarrow>
               mget m (if kr_AccessKey ref = '''' then ''aws_access_key_id'' else kr_AccessKey ref) = Some access \<and>
               mget m (if kr_SecretKey ref = '''' then ''aws_secret_access_key'' else kr_SecretKey ref) = Some secret \<and>
               (if kr_SessionKey ref = '''' then token = '''' else mget m (kr_SessionKey ref) = Some token))))"
proof (cases spec)
  case None
  then show ?thesis
    by (cases "je_LoadConfig env log") (auto simp: job_credentials_def)
next
  case (Some c)
  let ?get = "je_GetSecret env log (if cr_Namespace c = '''' then operatorNamespace else cr_Namespace c) (cr_SecretName c)"
  have "job_credentials env operatorNamespace spec log = Inr creds \<longleftrightarrow> je_LoadConfig env log = None \<and>
      (\<exists>secret access key token. ?get = Inr secret \<and> creds = Some (access, key, token) \<and>
         getAwsCredentialProviderFromSecret secret (cr_KeysRef c) = Inr (access, key, token))"
    by (auto simp: job_credentials_def defaultNamespace_def Some split: option.split sum.split)
  also have "\<dots> \<longleftrightarrow> je_LoadConfig env log = None \<and> (\<exists>m access key token. ?get = Inr (Some m) \<and> creds = Some (access, key, token) \<and>
         key_names_hold (cr_KeysRef c) m access key token)"
    unfolding provider_exact by blast
  finally show ?thesis
    by (simp add: Some key_names_hold_def)
qed

fun created_actions :: "effect_log \<Rightarrow> action_execution list" where
  "created_actions [] = []"
| "created_actions (EvCreateAction op # es) = op # created_actions es"
| "created_actions (e # es) = created_actions es"

lemma created_actions_append [simp]: "created_actions (xs @ ys) = created_actions xs @ created_actions ys"
  by (induction xs rule: created_actions.induct) auto

text \<open>
  The scale command is behind its kind's feature gate: with the gate off the job is
  skipped and creates nothing. With the gate on it creates exactly one action execution, for the
  resource, the action and the kind's action type, whose parameters decode to the instance class
  of the action; it reports Success exactly when the API server accepted it. In no case does it
  call AWS itself.
\<close>

theorem scale_command_gated:
  assumes "getObj log ns name = Inr obj" and "mget (ar_Actions obj) a = Some act" and "da_Command act = ''scale''"
    and "startStopCluster k env meta features operatorNamespace getObj log ns name a = (r, md, log')"
  shows "\<exists>new. log' = log @ new \<and> aws_calls new = [] \<and>
    (if IsEnabled features (dk_Feature k)
     then \<exists>op. created_actions new = [op] \<and> (r = JobResultSuccess \<longleftrightarrow> je_CreateAction env log op = None) \<and>
       ae_Namespace op = operatorNamespace \<and> as_ActionType (ae_Spec op) = dk_ActionType k \<and> as_ActionName (ae_Spec op) = a \<and>
       or_Kind (as_TargetResource (ae_Spec op)) = dk_Kind k \<and> or_Name (as_TargetResource (ae_Spec op)) = name \<and>
       (\<forall>cls. da_InstanceClass act = Some cls \<longrightarrow>
          Unmarshal_field ''instanceClass'' (as_Parameters (ae_Spec op)) = Inr cls)
     else r = JobResultSkipped \<and> created_actions new = [])"
proof -
  let ?op = "scale_execution k operatorNamespace (je_End env) ns name a act"
  have "scale_cluster k env meta features operatorNamespace obj act ns name a log = (r, md, log')"
    using assms by (simp add: startStopCluster_def)
  then show ?thesis
    by (auto simp: scale_cluster_def Let_def scale_execution_def job_error_def split: if_splits option.splits)
qed

theorem scale_command_gated_witness:
  "let act = \<lparr>da_Enabled = None, da_Command = ''scale'', da_InstanceClass = Some ''db.r6g.large''\<rparr>;
       run = (\<lambda>features. startStopCluster rds_kind demo_env keyed_meta features ''ops'' (\<lambda>_ _ _. Inr (demo_aws act)) [] '''' ''prod'' ''night'')
   in fst (run None) = JobResultSkipped \<and> fst (run (Some (NewRegistry [AuroraVerticalScaling]))) = JobResultSuccess"
proof -
  let ?act = "\<lparr>da_Enabled = None, da_Command = ''scale'', da_InstanceClass = Some ''db.r6g.large''\<rparr>"
  let ?run = "\<lambda>features. startStopCluster rds_kind demo_env keyed_meta features ''ops'' (\<lambda>_ _ _. Inr (demo_aws ?act)) [] '''' ''prod'' ''night''"
  have accepted: "je_CreateAction demo_env log op = None" for log op
    by (simp add: demo_env_def)
  have gated: "fst (?run features) = (if IsEnabled features (dk_Feature rds_kind) then JobResultSuccess else JobResultSkipped)" for features
  proof -
    obtain r md log' where run: "?run features = (r, md, log')" by (rule prod_cases3)
    show ?thesis
      using scale_command_gated [where act = ?act and obj = "demo_aws ?act", OF _ _ _ run] by (auto simp: run demo_action accepted split: if_splits)
  qed
  have "\<not> IsEnabled None (dk_Feature rds_kind)" and "IsEnabled (Some (NewRegistry [AuroraVerticalScaling])) (dk_Feature rds_kind)"
    by (simp_all add: IsEnabled_def rds_kind_def NewRegistry_def)
  then show ?thesis
    using gated [of None] gated [of "Some (NewRegistry [AuroraVerticalScaling])"] by (simp add: Let_def)
qed

section \<open>The reconcilers\<close>

text \<open>
  Reconciling an AWS resource, whatever the API server answers: the service invariant
  is kept and no job of another resource is touched; a deleted resource has no job left; a
  missing secret is reported as an error before any job changes.
\<close>

theorem aws_reconcile_safe:
  assumes "cron_contract lib" and "svc_inv lib (rc_svc st)"
    and "\<And>obj. getObj (rc_log st) name = Inr obj \<Longrightarrow> gomap_ok (ar_Actions obj)"
    and "aws_Reconcile lib ord api meta env kind getObj isActive operatorNamespace st name = (err, st')"
  shows "svc_inv lib (rc_svc st') \<and>
    (\<forall>a b c. c \<noteq> resourceName (''v1alpha1.'' @ kind) name \<longrightarrow>
       registry lib (rc_svc st') (a, b, c) = registry lib (rc_svc st) (a, b, c)) \<and>
    (\<forall>e. getObj (rc_log st) name = Inl e \<and> err_IsNotFound e \<longrightarrow>
       err = None \<and> (\<forall>a b. registry lib (rc_svc st') (a, b, resourceName (''v1alpha1.'' @ kind) name) = None)) \<and>
    (\<forall>obj c e. getObj (rc_log st) name = Inr obj \<and> ar_Credentials obj = Some c \<and>
         je_GetSecret env (rc_log st) (defaultNamespace operatorNamespace (cr_Namespace c)) (cr_SecretName c) = Inl e \<longrightarrow>
       err = Some e \<and> rc_svc st' = rc_svc st)"
proof -
  let ?z = "resourceName (''v1alpha1.'' @ kind) name"
  from assms(1,2) have ok: "svc_ok lib (rc_svc st)" by (simp add: svc_ok_def)
  show ?thesis
  proof (cases "getObj (rc_log st) name")
    case (Inl e)
    then show ?thesis
      using assms(4) RemoveResource_ok [OF ok, of ord ?z] assms(2)
      by (auto simp: aws_Reconcile_def Let_def registry_RemoveResource [OF ok] svc_ok_def split: if_splits)
  next
    case (Inr obj)
    let ?rec = "reconcileResource lib ord api meta st (aws_reconcile_resource kind obj) ?z (ar_Actions obj) isActive"
    obtain c0 where "c0 \<noteq> ?z" using that [of "CHR ''x'' # ?z"] by simp
    note frame = reconcile_other_resources [OF ok assms(3) [OF Inr], where z = ?z]
    from frame(1) [OF \<open>c0 \<noteq> ?z\<close>] have ok': "svc_inv lib (rc_svc (snd ?rec))"
      by (simp add: svc_ok_def)
    have "(err, st') = ?rec \<and> (\<forall>c. ar_Credentials obj = Some c \<longrightarrow>
          (\<exists>x. je_GetSecret env (rc_log st) (defaultNamespace operatorNamespace (cr_Namespace c)) (cr_SecretName c) = Inr x))
      \<or> rc_svc st' = rc_svc st \<and> (\<exists>c e. ar_Credentials obj = Some c \<and> err = Some e \<and>
          je_GetSecret env (rc_log st) (defaultNamespace operatorNamespace (cr_Namespace c)) (cr_SecretName c) = Inl e)"
      using assms(4) Inr by (auto simp: aws_Reconcile_def Let_def split: option.splits sum.splits)
    then show ?thesis
    proof
      assume run: "(err, st') = ?rec \<and> (\<forall>c. ar_Credentials obj = Some c \<longrightarrow>
          (\<exists>x. je_GetSecret env (rc_log st) (defaultNamespace operatorNamespace (cr_Namespace c)) (cr_SecretName c) = Inr x))"
      then have "st' = snd ?rec" by (metis snd_conv)
      with run ok' frame(2) Inr show ?thesis by fastforce
    next
      assume "rc_svc st' = rc_svc st \<and> (\<exists>c e. ar_Credentials obj = Some c \<and> err = Some e \<and>
          je_GetSecret env (rc_log st) (defaultNamespace operatorNamespace (cr_Namespace c)) (cr_SecretName c) = Inl e)"
      with Inr assms(2) show ?thesis by fastforce
    qed
  qed
qed

theorem aws_reconcile_safe_witness:
  "registry list_cron (rc_svc (snd (AwsEc2Instance_Reconcile list_cron insertion_order demo_api keyed_meta demo_env
      (\<lambda>_ _. Inl (ErrNotFound ''gone'')) ''ops'' demo_state ''vm''))) (''office'', ''stop'', ''v1alpha1.AwsEc2Instance:vm'') = None"
  using aws_reconcile_safe [OF list_cron_contract, of demo_state "\<lambda>_ _. Inl (ErrNotFound ''gone'') :: go_error + AwsEc2Instance" "''vm''",
      OF _ _ surjective_pairing, of insertion_order demo_api keyed_meta demo_env "''AwsEc2Instance''" "\<lambda>a. IsActive (ea_Enabled a)" "''ops''"] demo_inv
  by (simp add: AwsEc2Instance_Reconcile_def resourceName_def)

end
