(* ===== verification/Cluster_Scale.thy ===== *)
theory Cluster_Scale
  imports Json World
begin

text \<open>
  Vertical scaling of database clusters: the phase machine of \<^verbatim>\<open>internal/action/generic_scale.go\<close>
  and the two cluster managers it runs on, \<^verbatim>\<open>aurora_scale.go\<close> and \<^verbatim>\<open>docdb_scale.go\<close>,
  whose code is the same over two AWS clients. The AWS SDK is a parameter: its answers may depend
  on every call made before. A call is logged with its answer. The locale \<open>cluster_manager\<close> is the
  interface between the machine and the managers.
\<close>

section \<open>Definitions\<close>

record ctrl_result =
  cr_Requeue :: bool
  cr_RequeueAfter :: int

definition no_requeue :: ctrl_result where
  "no_requeue = \<lparr>cr_Requeue = False, cr_RequeueAfter = 0\<rparr>"

definition requeue_now :: ctrl_result where
  "requeue_now = \<lparr>cr_Requeue = True, cr_RequeueAfter = 0\<rparr>"

definition requeue_after :: "int \<Rightarrow> ctrl_result" where
  "requeue_after s = \<lparr>cr_Requeue = False, cr_RequeueAfter = s * 1000000000\<rparr>"

record 'w cluster_manager_ops =
  cm_DescribeCluster :: "'w \<Rightarrow> string \<Rightarrow> (go_error + string \<times> string list) \<times> 'w"
  cm_ModifyInstance :: "'w \<Rightarrow> string \<Rightarrow> string \<Rightarrow> go_error option \<times> 'w"
  cm_CheckInstancesAvailable :: "'w \<Rightarrow> string list \<Rightarrow> string \<Rightarrow> (go_error + bool) \<times> 'w"
  cm_FailoverCluster :: "'w \<Rightarrow> string \<Rightarrow> go_error option \<times> 'w"

subsection \<open>The phases (generic\_scale.go)\<close>

text \<open>A phase answers with the result, whether the execution is done, the error, the new status and
  the world.\<close>

type_synonym 'w phase_result = "ctrl_result \<times> bool \<times> go_error option \<times> action_execution_status \<times> 'w"

definition state_get :: "action_execution_status \<Rightarrow> string \<Rightarrow> string" where
  "state_get st k = (case st_StateData st of None \<Rightarrow> '''' | Some m \<Rightarrow> (case mget m k of None \<Rightarrow> '''' | Some v \<Rightarrow> v))"

definition state_put :: "string \<Rightarrow> string \<Rightarrow> action_execution_status \<Rightarrow> action_execution_status" where
  "state_put k v st = st\<lparr>st_StateData := Some (mput k v (case st_StateData st of None \<Rightarrow> [] | Some m \<Rightarrow> m))\<rparr>"

definition phase_Initialization :: "'w cluster_manager_ops \<Rightarrow> string \<Rightarrow> action_execution_status \<Rightarrow> 'w \<Rightarrow> 'w phase_result" where
  "phase_Initialization mgr identifier st w =
     (case cm_DescribeCluster mgr w identifier of
        (Inl err, w') \<Rightarrow> (no_requeue, False, Some err, st, w')
      | (Inr (writer, readers), w') \<Rightarrow>
          if writer = ''''
          then (no_requeue, False, Some (Err (''no writer instance found for cluster '' @ identifier)), st, w')
          else (let st1 = state_put ''readers'' (Marshal_strings readers) (state_put ''writer'' writer st)
                in (requeue_now, False, None,
                    st1\<lparr>st_Phase := if length readers = 0 then ''ScalingWriter'' else ''ScalingReplicas''\<rparr>, w')))"

fun modify_readers :: "'w cluster_manager_ops \<Rightarrow> string \<Rightarrow> string list \<Rightarrow> 'w \<Rightarrow> go_error option \<times> 'w" where
  "modify_readers mgr cls [] w = (None, w)"
| "modify_readers mgr cls (reader # readers) w =
     (case cm_ModifyInstance mgr w reader cls of
        (Some err, w') \<Rightarrow> (Some err, w')
      | (None, w') \<Rightarrow> modify_readers mgr cls readers w')"

definition phase_ScalingReplicas :: "'w cluster_manager_ops \<Rightarrow> string \<Rightarrow> action_execution_status \<Rightarrow> 'w \<Rightarrow> 'w phase_result" where
  "phase_ScalingReplicas mgr cls st w =
     (case modify_readers mgr cls (Unmarshal_strings (state_get st ''readers'')) w of
        (Some err, w') \<Rightarrow> (no_requeue, False, Some err, st, w')
      | (None, w') \<Rightarrow> (requeue_after 30, False, None, st\<lparr>st_Phase := ''WaitReplicas''\<rparr>, w'))"

definition phase_WaitReplicas :: "'w cluster_manager_ops \<Rightarrow> string \<Rightarrow> action_execution_status \<Rightarrow> 'w \<Rightarrow> 'w phase_result" where
  "phase_WaitReplicas mgr cls st w =
     (case cm_CheckInstancesAvailable mgr w (Unmarshal_strings (state_get st ''readers'')) cls of
        (Inl err, w') \<Rightarrow> (no_requeue, False, Some err, st, w')
      | (Inr allAvailable, w') \<Rightarrow>
          if allAvailable then (requeue_now, False, None, st\<lparr>st_Phase := ''PerformingFailover''\<rparr>, w')
          else (requeue_after 60, False, None, st, w'))"

definition phase_PerformingFailover :: "'w cluster_manager_ops \<Rightarrow> string \<Rightarrow> action_execution_status \<Rightarrow> 'w \<Rightarrow> 'w phase_result" where
  "phase_PerformingFailover mgr identifier st w =
     (case cm_FailoverCluster mgr w identifier of
        (Some err, w') \<Rightarrow> (no_requeue, False, Some err, st, w')
      | (None, w') \<Rightarrow> (requeue_after 30, False, None, st\<lparr>st_Phase := ''WaitWriterFailover''\<rparr>, w'))"

text \<open>The writer from the state, looked up in the cluster when the state has none; a failure of the
  lookup is ignored and leaves the empty name.\<close>

definition recall_writer :: "'w cluster_manager_ops \<Rightarrow> string \<Rightarrow> action_execution_status \<Rightarrow> 'w \<Rightarrow>
    string \<times> action_execution_status \<times> 'w" where
  "recall_writer mgr identifier st w =
     (let writer = state_get st ''writer'' in
      if writer \<noteq> '''' then (writer, st, w)
      else (case cm_DescribeCluster mgr w identifier of
          (Inl err, w') \<Rightarrow> (writer, st, w')
        | (Inr (discovered, readers), w') \<Rightarrow>
            if discovered \<noteq> '''' then (discovered, state_put ''writer'' discovered st, w') else (writer, st, w')))"

definition phase_WaitWriterFailover :: "'w cluster_manager_ops \<Rightarrow> string \<Rightarrow> action_execution_status \<Rightarrow> 'w \<Rightarrow> 'w phase_result" where
  "phase_WaitWriterFailover mgr identifier st w =
     (case recall_writer mgr identifier st w of (writer, st1, w1) \<Rightarrow>
       (case cm_DescribeCluster mgr w1 identifier of
          (Inl err, w2) \<Rightarrow> (no_requeue, False, Some err, st1, w2)
        | (Inr (currentWriter, readers), w2) \<Rightarrow>
            if currentWriter \<noteq> writer \<and> currentWriter \<noteq> ''''
            then (requeue_now, False, None, st1\<lparr>st_Phase := ''ScalingWriter''\<rparr>, w2)
            else (requeue_after 30, False, None, st1, w2)))"

definition scale_writer :: "'w cluster_manager_ops \<Rightarrow> string \<Rightarrow> string \<Rightarrow> action_execution_status \<Rightarrow> 'w \<Rightarrow> 'w phase_result" where
  "scale_writer mgr cls writer st w =
     (case cm_ModifyInstance mgr w writer cls of
        (Some err, w') \<Rightarrow> (no_requeue, False, Some err, st, w')
      | (None, w') \<Rightarrow> (requeue_after 30, False, None, st\<lparr>st_Phase := ''WaitOldWriter''\<rparr>, w'))"

definition phase_ScalingWriter :: "'w cluster_manager_ops \<Rightarrow> string \<Rightarrow> string \<Rightarrow> action_execution_status \<Rightarrow> 'w \<Rightarrow> 'w phase_result" where
  "phase_ScalingWriter mgr identifier cls st w =
     (let writer = state_get st ''writer'' in
      if writer \<noteq> '''' then scale_writer mgr cls writer st w
      else (let failure = Err (''writer instance is empty and could not be rediscovered for cluster '' @ identifier) in
        case cm_DescribeCluster mgr w identifier of
          (Inl err, w') \<Rightarrow> (no_requeue, False, Some failure, st, w')
        | (Inr (discovered, readers), w') \<Rightarrow>
            if discovered = '''' then (no_requeue, False, Some failure, st, w')
            else scale_writer mgr cls discovered (state_put ''writer'' discovered st) w'))"

definition phase_WaitOldWriter :: "'w cluster_manager_ops \<Rightarrow> string \<Rightarrow> string \<Rightarrow> action_execution_status \<Rightarrow> 'w \<Rightarrow> 'w phase_result" where
  "phase_WaitOldWriter mgr identifier cls st w =
     (case recall_writer mgr identifier st w of (writer, st1, w1) \<Rightarrow>
       (case cm_CheckInstancesAvailable mgr w1 [writer] cls of
          (Inl err, w2) \<Rightarrow> (no_requeue, False, Some err, st1, w2)
        | (Inr allAvailable, w2) \<Rightarrow>
            if allAvailable then (no_requeue, True, None, st1\<lparr>st_Phase := ''Completed''\<rparr>, w2)
            else (requeue_after 60, False, None, st1, w2)))"

definition run_phase :: "'w cluster_manager_ops \<Rightarrow> string \<Rightarrow> string \<Rightarrow> action_execution_status \<Rightarrow> 'w \<Rightarrow> 'w phase_result" where
  "run_phase mgr identifier cls st w =
     (if st_Phase st = ''Initialization'' then phase_Initialization mgr identifier st w
      else if st_Phase st = ''ScalingReplicas'' then phase_ScalingReplicas mgr cls st w
      else if st_Phase st = ''WaitReplicas'' then phase_WaitReplicas mgr cls st w
      else if st_Phase st = ''PerformingFailover'' then phase_PerformingFailover mgr identifier st w
      else if st_Phase st = ''WaitWriterFailover'' then phase_WaitWriterFailover mgr identifier st w
      else if st_Phase st = ''ScalingWriter'' then phase_ScalingWriter mgr identifier cls st w
      else if st_Phase st = ''WaitOldWriter'' then phase_WaitOldWriter mgr identifier cls st w
      else if st_Phase st = ''Completed'' then (no_requeue, True, None, st, w)
      else (no_requeue, True, Some (Err (''unknown phase '' @ st_Phase st)), st, w))"

definition enter_state :: "action_execution_status \<Rightarrow> action_execution_status" where
  "enter_state st =
     (let st1 = (if st_StateData st = None then st\<lparr>st_StateData := Some []\<rparr> else st)
      in if st_Phase st1 = '''' then st1\<lparr>st_Phase := ''Initialization''\<rparr> else st1)"

definition Execute :: "'w cluster_manager_ops \<Rightarrow> action_execution \<Rightarrow> string \<Rightarrow> 'w \<Rightarrow>
    ctrl_result \<times> bool \<times> go_error option \<times> action_execution \<times> 'w" where
  "Execute mgr op identifier w =
     (case Unmarshal_field ''instanceClass'' (as_Parameters (ae_Spec op)) of
        Inl err \<Rightarrow> (no_requeue, True, Some err, op, w)
      | Inr cls \<Rightarrow>
          if cls = '''' then (no_requeue, True, Some (Err ''instanceClass is empty''), op, w)
          else (case run_phase mgr identifier cls (enter_state (ae_Status op)) w of
              (res, fin, err, st, w') \<Rightarrow> (res, fin, err, op\<lparr>ae_Status := st\<rparr>, w')))"

subsection \<open>The managers (aurora\_scale.go, docdb\_scale.go)\<close>

datatype db_service = RDS | DocDB

record db_target =
  tg_Service :: db_service
  tg_Region :: string
  tg_Endpoint :: "string option"

record db_member =
  mb_Id :: "string option"
  mb_IsWriter :: "bool option"

record db_cluster =
  dc_Id :: "string option"
  dc_Members :: "db_member list"

record db_instance =
  di_Id :: "string option"
  di_ClusterId :: "string option"
  di_Status :: "string option"
  di_Class :: "string option"

datatype db_query = ByInstance string | ByCluster string

datatype db_call =
    DescribeDBClusters db_target string "go_error + db_cluster list"
  | DescribeDBInstances db_target db_query "go_error + db_instance list"
  | ModifyDBInstance db_target string string "go_error option"
  | FailoverDBCluster db_target string "go_error option"

type_synonym db_log = "db_call list"

record db_sdk =
  sdk_DescribeDBClusters :: "db_log \<Rightarrow> db_target \<Rightarrow> string \<Rightarrow> go_error + db_cluster list"
  sdk_DescribeDBInstances :: "db_log \<Rightarrow> db_target \<Rightarrow> db_query \<Rightarrow> go_error + db_instance list"
  sdk_ModifyDBInstance :: "db_log \<Rightarrow> db_target \<Rightarrow> string \<Rightarrow> string \<Rightarrow> go_error option"
  sdk_FailoverDBCluster :: "db_log \<Rightarrow> db_target \<Rightarrow> string \<Rightarrow> go_error option"

definition pick_cluster :: "string \<Rightarrow> db_cluster list \<Rightarrow> db_cluster option" where
  "pick_cluster identifier clusters =
     (case List.find (\<lambda>c. dc_Id c = Some identifier) clusters of
        Some c \<Rightarrow> Some c
      | None \<Rightarrow> (case clusters of [] \<Rightarrow> None | c # _ \<Rightarrow> Some c))"

fun member_loop :: "db_member list \<Rightarrow> string \<times> string list \<Rightarrow> string \<times> string list" where
  "member_loop [] acc = acc"
| "member_loop (member # members) (writer, readers) =
     member_loop members
       (case mb_Id member of
          None \<Rightarrow> (writer, readers)
        | Some i \<Rightarrow> if mb_IsWriter member = Some True then (i, readers) else (writer, readers @ [i]))"

fun instance_loop :: "string \<Rightarrow> db_instance list \<Rightarrow> string \<times> string list \<Rightarrow> string \<times> string list" where
  "instance_loop identifier [] acc = acc"
| "instance_loop identifier (inst # insts) (writer, readers) =
     instance_loop identifier insts
       (case di_Id inst of
          None \<Rightarrow> (writer, readers)
        | Some i \<Rightarrow>
            if di_ClusterId inst \<noteq> Some identifier then (writer, readers)
            else if writer = '''' then (i, readers) else (writer, readers @ [i]))"

text \<open>Writer and readers from the members, with the fallback for a cluster of a single instance.\<close>

definition members_of :: "db_cluster \<Rightarrow> string \<times> string list" where
  "members_of cluster =
     (case member_loop (dc_Members cluster) ('''', []) of (writer, readers) \<Rightarrow>
        if writer = '''' \<and> length (dc_Members cluster) = 1
        then (case mb_Id (hd (dc_Members cluster)) of Some i \<Rightarrow> (i, []) | None \<Rightarrow> (writer, readers))
        else (writer, readers))"

definition finish_describe :: "string \<Rightarrow> string \<times> string list \<Rightarrow> go_error + string \<times> string list" where
  "finish_describe identifier wr =
     (if fst wr = '''' then Inl (Err (''no writer instance found for cluster '' @ identifier)) else Inr wr)"

definition DescribeCluster :: "db_sdk \<Rightarrow> db_target \<Rightarrow> db_log \<Rightarrow> string \<Rightarrow> (go_error + string \<times> string list) \<times> db_log" where
  "DescribeCluster sdk tgt log identifier =
     (let resp = sdk_DescribeDBClusters sdk log tgt identifier;
          log1 = log @ [DescribeDBClusters tgt identifier resp]
      in case resp of
           Inl err \<Rightarrow> (Inl err, log1)
         | Inr clusters \<Rightarrow> (case pick_cluster identifier clusters of
             None \<Rightarrow> (Inl (Err ''cluster not found in AWS''), log1)
           | Some cluster \<Rightarrow>
               (case members_of cluster of (writer, readers) \<Rightarrow>
                 if writer = '''' \<and> length (dc_Members cluster) = 0
                 then (let iresp = sdk_DescribeDBInstances sdk log1 tgt (ByCluster identifier);
                           log2 = log1 @ [DescribeDBInstances tgt (ByCluster identifier) iresp]
                       in (finish_describe identifier (case iresp of
                             Inl err \<Rightarrow> (writer, readers)
                           | Inr insts \<Rightarrow> instance_loop identifier insts (writer, readers)), log2))
                 else (finish_describe identifier (writer, readers), log1))))"

definition ModifyInstance :: "db_sdk \<Rightarrow> db_target \<Rightarrow> db_log \<Rightarrow> string \<Rightarrow> string \<Rightarrow> go_error option \<times> db_log" where
  "ModifyInstance sdk tgt log identifier cls =
     (let err = sdk_ModifyDBInstance sdk log tgt identifier cls
      in (err, log @ [ModifyDBInstance tgt identifier cls err]))"

definition instance_ready :: "string \<Rightarrow> db_instance list \<Rightarrow> bool" where
  "instance_ready cls insts \<longleftrightarrow> (case insts of
      [] \<Rightarrow> False
    | inst # _ \<Rightarrow> di_Status inst = Some ''available'' \<and> di_Class inst = Some cls)"

fun CheckInstancesAvailable :: "db_sdk \<Rightarrow> db_target \<Rightarrow> db_log \<Rightarrow> string list \<Rightarrow> string \<Rightarrow> (go_error + bool) \<times> db_log" where
  "CheckInstancesAvailable sdk tgt log [] cls = (Inr True, log)"
| "CheckInstancesAvailable sdk tgt log (i # ids) cls =
     (let resp = sdk_DescribeDBInstances sdk log tgt (ByInstance i);
          log1 = log @ [DescribeDBInstances tgt (ByInstance i) resp]
      in case resp of
           Inl err \<Rightarrow> (Inl err, log1)
         | Inr insts \<Rightarrow> if instance_ready cls insts then CheckInstancesAvailable sdk tgt log1 ids cls
                        else (Inr False, log1))"

definition FailoverCluster :: "db_sdk \<Rightarrow> db_target \<Rightarrow> db_log \<Rightarrow> string \<Rightarrow> go_error option \<times> db_log" where
  "FailoverCluster sdk tgt log identifier =
     (let err = sdk_FailoverDBCluster sdk log tgt identifier
      in (err, log @ [FailoverDBCluster tgt identifier err]))"

definition manager_on :: "db_sdk \<Rightarrow> db_target \<Rightarrow> db_log cluster_manager_ops" where
  "manager_on sdk tgt =
     \<lparr>cm_DescribeCluster = DescribeCluster sdk tgt,
      cm_ModifyInstance = ModifyInstance sdk tgt,
      cm_CheckInstancesAvailable = CheckInstancesAvailable sdk tgt,
      cm_FailoverCluster = FailoverCluster sdk tgt\<rparr>"

definition rdsClusterManager :: "db_sdk \<Rightarrow> string \<Rightarrow> string option \<Rightarrow> db_log cluster_manager_ops" where
  "rdsClusterManager sdk region endpoint = manager_on sdk \<lparr>tg_Service = RDS, tg_Region = region, tg_Endpoint = endpoint\<rparr>"

definition docdbClusterManager :: "db_sdk \<Rightarrow> string \<Rightarrow> string option \<Rightarrow> db_log cluster_manager_ops" where
  "docdbClusterManager sdk region endpoint = manager_on sdk \<lparr>tg_Service = DocDB, tg_Region = region, tg_Endpoint = endpoint\<rparr>"

end
