(* ===== verification/Scale_Safety.thy ===== *)
theory Scale_Safety
  imports Cluster_Scale
begin

text \<open>
  Safety of vertical scaling. What a cluster manager does is seen as a history of events; the locale
  \<open>cluster_manager\<close> states what each manager operation adds to the history, and the phase machine is
  verified once against these laws. An execution is a sequence of calls of \<open>Execute\<close> on the status
  kept in the API server, where any status update may get lost. The managers for Aurora and
  DocumentDB are interpretations of the locale.
\<close>

section \<open>Histories\<close>

datatype scale_event =
    SawCluster string "string list"
  | AskedModify string string bool
  | SawReady string string
  | AskedFailover string bool

definition all_ready :: "scale_event list \<Rightarrow> string list \<Rightarrow> string \<Rightarrow> bool" where
  "all_ready h ids cls \<longleftrightarrow> (\<forall>i \<in> set ids. SawReady i cls \<in> set h)"

text \<open>After an accepted failover the cluster was seen with another writer.\<close>

definition handed_over :: "string \<Rightarrow> scale_event list \<Rightarrow> string \<Rightarrow> bool" where
  "handed_over ident h writer \<longleftrightarrow>
     (\<exists>h1 h2 current readers. h = h1 @ AskedFailover ident True # h2 \<and>
        SawCluster current readers \<in> set h2 \<and> current \<noteq> writer)"

text \<open>What must hold before an event: a failover only when every reader the cluster was seen with is
  available in the new class; a change of an instance only to the new class, of a reader, or of the
  writer when there are no readers or another instance has taken over.\<close>

fun justified :: "string \<Rightarrow> string \<Rightarrow> scale_event list \<Rightarrow> scale_event \<Rightarrow> bool" where
  "justified ident cls h (AskedFailover i ok) \<longleftrightarrow>
     i = ident \<and> (\<exists>writer readers. SawCluster writer readers \<in> set h \<and> all_ready h readers cls)"
| "justified ident cls h (AskedModify i c ok) \<longleftrightarrow>
     c = cls \<and> (\<exists>writer readers. SawCluster writer readers \<in> set h \<and>
       (i \<in> set readers \<or> i = writer \<and> (readers = [] \<or> all_ready h readers cls \<and> handed_over ident h writer)))"
| "justified ident cls h _ \<longleftrightarrow> True"

definition history_ok :: "string \<Rightarrow> string \<Rightarrow> scale_event list \<Rightarrow> bool" where
  "history_ok ident cls h \<longleftrightarrow> (\<forall>h1 e h2. h = h1 @ e # h2 \<longrightarrow> justified ident cls h1 e)"

lemma all_ready_append: "all_ready h ids cls \<Longrightarrow> all_ready (h @ g) ids cls"
  by (auto simp: all_ready_def)

lemma handed_over_append: "handed_over ident h writer \<Longrightarrow> handed_over ident (h @ g) writer"
  unfolding handed_over_def
proof (elim exE conjE)
  fix h1 h2 current readers
  assume "h = h1 @ AskedFailover ident True # h2" "SawCluster current readers \<in> set h2" "current \<noteq> writer"
  then have "h @ g = h1 @ AskedFailover ident True # (h2 @ g)" "SawCluster current readers \<in> set (h2 @ g)" by auto
  then show "\<exists>h1 h2 current readers. h @ g = h1 @ AskedFailover ident True # h2 \<and>
      SawCluster current readers \<in> set h2 \<and> current \<noteq> writer"
    using \<open>current \<noteq> writer\<close> by blast
qed

lemma justified_append: "justified ident cls h e \<Longrightarrow> justified ident cls (h @ g) e"
  by (cases e) (auto dest: all_ready_append handed_over_append)

lemma history_ok_snoc: "history_ok ident cls (h @ [e]) \<longleftrightarrow> history_ok ident cls h \<and> justified ident cls h e"
proof
  assume ok: "history_ok ident cls (h @ [e])"
  have "justified ident cls h1 e1" if "h = h1 @ e1 # h2" for h1 e1 h2
    using ok that unfolding history_ok_def by (metis append_Cons append_assoc)
  then show "history_ok ident cls h \<and> justified ident cls h e"
    using ok unfolding history_ok_def by blast
next
  assume ok: "history_ok ident cls h \<and> justified ident cls h e"
  show "history_ok ident cls (h @ [e])"
    unfolding history_ok_def
  proof (intro allI impI)
    fix h1 e1 h2 assume eq: "h @ [e] = h1 @ e1 # h2"
    show "justified ident cls h1 e1"
    proof (cases h2 rule: rev_cases)
      case Nil
      with eq ok show ?thesis by simp
    next
      case (snoc h3 x)
      with eq have "h = h1 @ e1 # h3" by simp
      with ok show ?thesis unfolding history_ok_def by blast
    qed
  qed
qed

lemma history_ok_append:
  "history_ok ident cls h \<Longrightarrow> \<forall>e \<in> set g. justified ident cls h e \<Longrightarrow> history_ok ident cls (h @ g)"
proof (induction g rule: rev_induct)
  case (snoc e g)
  then have "history_ok ident cls ((h @ g) @ [e])"
    unfolding history_ok_snoc by (simp add: justified_append)
  then show ?case by simp
qed simp

lemma history_ok_Nil [simp]: "history_ok ident cls []"
  by (simp add: history_ok_def)

section \<open>The interface of a cluster manager\<close>

locale cluster_manager =
  fixes mgr :: "'w cluster_manager_ops"
    and hist :: "'w \<Rightarrow> scale_event list"
  assumes describe_event: "cm_DescribeCluster mgr w i = (r, w') \<Longrightarrow>
      hist w' = hist w @ (case r of Inl err \<Rightarrow> [] | Inr (writer, readers) \<Rightarrow> [SawCluster writer readers])"
    and describe_writer: "cm_DescribeCluster mgr w i = (Inr (writer, readers), w') \<Longrightarrow> writer \<noteq> ''''"
    and modify_event: "cm_ModifyInstance mgr w i c = (err, w') \<Longrightarrow> hist w' = hist w @ [AskedModify i c (err = None)]"
    and check_event: "cm_CheckInstancesAvailable mgr w ids c = (avail, w') \<Longrightarrow>
      \<exists>g. hist w' = hist w @ g \<and> (\<forall>e \<in> set g. \<exists>i d. e = SawReady i d) \<and> (avail = Inr True \<longrightarrow> all_ready g ids c)"
    and failover_event: "cm_FailoverCluster mgr w i = (err, w') \<Longrightarrow> hist w' = hist w @ [AskedFailover i (err = None)]"
begin

lemma modify_readers_event:
  "modify_readers mgr c ids w = (err, w') \<Longrightarrow> \<exists>g. hist w' = hist w @ g \<and>
     (\<forall>e \<in> set g. \<exists>i ok. e = AskedModify i c ok \<and> i \<in> set ids) \<and>
     (err = None \<longrightarrow> (\<forall>i \<in> set ids. AskedModify i c True \<in> set g))"
proof (induction ids arbitrary: w)
  case (Cons i ids)
  obtain e1 w1 where m: "cm_ModifyInstance mgr w i c = (e1, w1)"
    by (cases "cm_ModifyInstance mgr w i c")
  note ev = modify_event [OF m]
  show ?case
  proof (cases e1)
    case None
    with Cons.prems m have "modify_readers mgr c ids w1 = (err, w')" by simp
    from Cons.IH [OF this] obtain g where "hist w' = hist w1 @ g"
      "\<forall>e \<in> set g. \<exists>i ok. e = AskedModify i c ok \<and> i \<in> set ids"
      "err = None \<longrightarrow> (\<forall>i \<in> set ids. AskedModify i c True \<in> set g)"
      by blast
    then show ?thesis
      by (intro exI [of _ "AskedModify i c True # g"]) (auto simp: ev None)
  next
    case (Some e)
    with Cons.prems m ev show ?thesis by auto
  qed
qed simp

end

section \<open>What each phase knows\<close>

text \<open>
  The writer and readers in the status were seen in the cluster; the events so far are those the
  phase allows. Phases are listed with what holds when the machine enters them.
\<close>

definition stored_readers :: "action_execution_status \<Rightarrow> string list" where
  "stored_readers st = Unmarshal_strings (state_get st ''readers'')"

definition stored_cluster :: "action_execution_status \<Rightarrow> scale_event list \<Rightarrow> bool" where
  "stored_cluster st h \<longleftrightarrow> state_get st ''writer'' \<noteq> '''' \<and>
     SawCluster (state_get st ''writer'') (stored_readers st) \<in> set h"

definition replicas_done :: "string \<Rightarrow> action_execution_status \<Rightarrow> scale_event list \<Rightarrow> bool" where
  "replicas_done cls st h \<longleftrightarrow> stored_cluster st h \<and> all_ready h (stored_readers st) cls"

definition writer_free :: "string \<Rightarrow> string \<Rightarrow> action_execution_status \<Rightarrow> scale_event list \<Rightarrow> bool" where
  "writer_free ident cls st h \<longleftrightarrow> replicas_done cls st h \<and>
     (stored_readers st = [] \<or> handed_over ident h (state_get st ''writer''))"

definition phase_inv :: "string \<Rightarrow> string \<Rightarrow> action_execution_status \<Rightarrow> scale_event list \<Rightarrow> bool" where
  "phase_inv ident cls st h \<longleftrightarrow>
     (st_Phase st = '''' \<or> st_Phase st = ''Initialization'') \<or>
     (st_Phase st = ''ScalingReplicas'' \<and> stored_cluster st h) \<or>
     (st_Phase st = ''WaitReplicas'' \<and> stored_cluster st h) \<or>
     (st_Phase st = ''PerformingFailover'' \<and> replicas_done cls st h) \<or>
     (st_Phase st = ''WaitWriterFailover'' \<and> replicas_done cls st h \<and>
        (\<exists>h1 h2. h = h1 @ AskedFailover ident True # h2)) \<or>
     (st_Phase st = ''ScalingWriter'' \<and> writer_free ident cls st h) \<or>
     (st_Phase st = ''WaitOldWriter'' \<and> writer_free ident cls st h) \<or>
     (st_Phase st = ''Completed'' \<and> writer_free ident cls st h \<and> SawReady (state_get st ''writer'') cls \<in> set h)"

lemma stored_cluster_append: "stored_cluster st h \<Longrightarrow> stored_cluster st (h @ g)"
  by (auto simp: stored_cluster_def)

lemma replicas_done_append: "replicas_done cls st h \<Longrightarrow> replicas_done cls st (h @ g)"
  by (auto simp: replicas_done_def stored_cluster_append all_ready_append)

lemma writer_free_append: "writer_free ident cls st h \<Longrightarrow> writer_free ident cls st (h @ g)"
  by (auto simp: writer_free_def replicas_done_append handed_over_append)

lemma split_append: "\<exists>h1 h2. h = h1 @ e # h2 \<Longrightarrow> \<exists>h1 h2. h @ g = h1 @ e # h2"
  by (metis append_Cons append_assoc)

lemma phase_inv_append: "phase_inv ident cls st h \<Longrightarrow> phase_inv ident cls st (h @ g)"
  unfolding phase_inv_def
  using stored_cluster_append [of st h g] replicas_done_append [of cls st h g] writer_free_append [of ident cls st h g]
    split_append [of h _ g] by (elim disjE) simp_all

lemma state_get_put [simp]: "state_get (state_put k v st) x = (if x = k then v else state_get st x)"
  by (auto simp: state_get_def state_put_def split: option.splits)

lemma state_get_phase [simp]: "state_get (st\<lparr>st_Phase := p\<rparr>) x = state_get st x"
  by (simp add: state_get_def)

lemma state_put_phase [simp]: "st_Phase (state_put k v st) = st_Phase st"
  by (simp add: state_put_def)

lemma stored_phase [simp]:
  "stored_readers (st\<lparr>st_Phase := p\<rparr>) = stored_readers st"
  "stored_cluster (st\<lparr>st_Phase := p\<rparr>) h = stored_cluster st h"
  "replicas_done cls (st\<lparr>st_Phase := p\<rparr>) h = replicas_done cls st h"
  "writer_free ident cls (st\<lparr>st_Phase := p\<rparr>) h = writer_free ident cls st h"
  by (simp_all add: stored_readers_def stored_cluster_def replicas_done_def writer_free_def)

lemma enter_state_inv: "phase_inv ident cls st h \<Longrightarrow> phase_inv ident cls (enter_state st) h"
  by (auto simp: enter_state_def phase_inv_def Let_def stored_readers_def stored_cluster_def replicas_done_def
      writer_free_def state_get_def split: if_splits)

definition machine_inv :: "string \<Rightarrow> string \<Rightarrow> action_execution_status \<Rightarrow> scale_event list \<Rightarrow> bool" where
  "machine_inv ident cls st h \<longleftrightarrow> phase_inv ident cls st h \<and> history_ok ident cls h"

lemma machine_invI:
  "phase_inv ident cls st' (h @ g) \<Longrightarrow> history_ok ident cls h \<Longrightarrow> \<forall>e \<in> set g. justified ident cls h e \<Longrightarrow>
     machine_inv ident cls st' (h @ g)"
  by (simp add: machine_inv_def history_ok_append)

lemma machine_inv_quiet:
  "machine_inv ident cls st h \<Longrightarrow> \<forall>e \<in> set g. justified ident cls h e \<Longrightarrow> machine_inv ident cls st (h @ g)"
  by (rule machine_invI) (auto simp: machine_inv_def phase_inv_append)

text \<open>A phase keeps the machine's invariant in the status it returns, and also in the status it was
  called with, which is what remains when the status update gets lost.\<close>

definition phase_safe :: "string \<Rightarrow> string \<Rightarrow> ('w \<Rightarrow> scale_event list) \<Rightarrow> action_execution_status \<Rightarrow> 'w \<Rightarrow> 'w phase_result \<Rightarrow> bool" where
  "phase_safe ident cls hist st w r \<longleftrightarrow> (case r of (res, fin, err, st', w') \<Rightarrow>
     machine_inv ident cls st' (hist w') \<and> machine_inv ident cls st (hist w') \<and>
     (fin \<and> err = None \<longrightarrow> st_Phase st' = ''Completed'') \<and>
     (\<not> fin \<and> err = None \<longrightarrow> cr_Requeue res \<or> 0 < cr_RequeueAfter res))"

context cluster_manager
begin

lemma Initialization_safe:
  assumes "machine_inv ident cls st (hist w)" and ph: "st_Phase st = ''Initialization''"
  shows "phase_safe ident cls hist st w (phase_Initialization mgr ident st w)"
proof -
  obtain r w' where d: "cm_DescribeCluster mgr w ident = (r, w')" by (cases "cm_DescribeCluster mgr w ident")
  note ev = describe_event [OF d]
  have old: "machine_inv ident cls st (hist w')"
    unfolding ev using assms(1) by (intro machine_inv_quiet) (auto split: sum.splits)
  show ?thesis
  proof (cases r)
    case (Inl e)
    with d old show ?thesis by (simp add: phase_Initialization_def phase_safe_def)
  next
    case (Inr p)
    obtain writer readers where p: "p = (writer, readers)" by (cases p)
    have ne: "writer \<noteq> ''''" using describe_writer [of w ident writer readers w'] d Inr p by simp
    let ?st = "(state_put ''readers'' (Marshal_strings readers) (state_put ''writer'' writer st))
      \<lparr>st_Phase := if length readers = 0 then ''ScalingWriter'' else ''ScalingReplicas''\<rparr>"
    have sr: "stored_readers ?st = readers" by (simp add: stored_readers_def)
    have h: "hist w' = hist w @ [SawCluster writer readers]" using ev Inr p by simp
    have "stored_cluster ?st (hist w')" using ne sr h by (simp add: stored_cluster_def)
    then have "phase_inv ident cls ?st (hist w')"
      using sr by (auto simp: phase_inv_def writer_free_def replicas_done_def all_ready_def)
    moreover have "history_ok ident cls (hist w')" using old by (simp add: machine_inv_def)
    ultimately have "machine_inv ident cls ?st (hist w')" by (simp add: machine_inv_def)
    with d old ne Inr p show ?thesis
      by (simp add: phase_Initialization_def phase_safe_def Let_def requeue_now_def)
  qed
qed

lemma ScalingReplicas_safe:
  assumes "machine_inv ident cls st (hist w)" and ph: "st_Phase st = ''ScalingReplicas''"
  shows "phase_safe ident cls hist st w (phase_ScalingReplicas mgr cls st w)"
proof -
  obtain err w' where m: "modify_readers mgr cls (stored_readers st) w = (err, w')"
    by (cases "modify_readers mgr cls (stored_readers st) w")
  obtain g where g: "hist w' = hist w @ g" "\<forall>e \<in> set g. \<exists>i ok. e = AskedModify i cls ok \<and> i \<in> set (stored_readers st)"
    using modify_readers_event [OF m] by blast
  have sc: "stored_cluster st (hist w)" using assms by (simp add: machine_inv_def phase_inv_def)
  have just: "\<forall>e \<in> set g. justified ident cls (hist w) e"
    using g(2) sc unfolding stored_cluster_def by fastforce
  have old: "machine_inv ident cls st (hist w')"
    unfolding g(1) by (rule machine_inv_quiet [OF assms(1) just])
  have "machine_inv ident cls (st\<lparr>st_Phase := ''WaitReplicas''\<rparr>) (hist w')"
    using old sc by (simp add: machine_inv_def phase_inv_def g(1) stored_cluster_append)
  with old m show ?thesis
    by (cases err) (simp_all add: phase_ScalingReplicas_def phase_safe_def stored_readers_def requeue_after_def)
qed

lemma WaitReplicas_safe:
  assumes "machine_inv ident cls st (hist w)" and ph: "st_Phase st = ''WaitReplicas''"
  shows "phase_safe ident cls hist st w (phase_WaitReplicas mgr cls st w)"
proof -
  obtain r w' where c: "cm_CheckInstancesAvailable mgr w (stored_readers st) cls = (r, w')"
    by (cases "cm_CheckInstancesAvailable mgr w (stored_readers st) cls")
  obtain g where g: "hist w' = hist w @ g" "\<forall>e \<in> set g. \<exists>i d. e = SawReady i d"
      "r = Inr True \<longrightarrow> all_ready g (stored_readers st) cls"
    using check_event [OF c] by blast
  have just: "\<forall>e \<in> set g. justified ident cls (hist w) e" using g(2) by auto
  have sc: "stored_cluster st (hist w)" using assms by (simp add: machine_inv_def phase_inv_def)
  have old: "machine_inv ident cls st (hist w')"
    unfolding g(1) by (rule machine_inv_quiet [OF assms(1) just])
  have "machine_inv ident cls (st\<lparr>st_Phase := ''PerformingFailover''\<rparr>) (hist w')" if "r = Inr True"
    using old g(3) that sc
    by (auto simp: machine_inv_def phase_inv_def g(1) replicas_done_def stored_cluster_append all_ready_def)
  with old c show ?thesis
    by (cases r) (simp_all add: phase_WaitReplicas_def phase_safe_def stored_readers_def [symmetric] requeue_after_def
        requeue_now_def)
qed

lemma PerformingFailover_safe:
  assumes "machine_inv ident cls st (hist w)" and ph: "st_Phase st = ''PerformingFailover''"
  shows "phase_safe ident cls hist st w (phase_PerformingFailover mgr ident st w)"
proof -
  obtain err w' where f: "cm_FailoverCluster mgr w ident = (err, w')" by (cases "cm_FailoverCluster mgr w ident")
  note ev = failover_event [OF f]
  have rd: "replicas_done cls st (hist w)" using assms by (simp add: machine_inv_def phase_inv_def)
  then have just: "justified ident cls (hist w) (AskedFailover ident (err = None))"
    unfolding replicas_done_def stored_cluster_def justified.simps by blast
  have old: "machine_inv ident cls st (hist w')"
    unfolding ev by (rule machine_inv_quiet [OF assms(1)]) (use just in simp)
  have "machine_inv ident cls (st\<lparr>st_Phase := ''WaitWriterFailover''\<rparr>) (hist w')" if "err = None"
    using old rd that by (auto simp: machine_inv_def phase_inv_def ev replicas_done_append)
  with old f show ?thesis
    by (cases err) (simp_all add: phase_PerformingFailover_def phase_safe_def requeue_after_def)
qed

lemma WaitWriterFailover_safe:
  assumes "machine_inv ident cls st (hist w)" and ph: "st_Phase st = ''WaitWriterFailover''"
  shows "phase_safe ident cls hist st w (phase_WaitWriterFailover mgr ident st w)"
proof -
  from assms have rd: "replicas_done cls st (hist w)" and fo: "\<exists>h1 h2. hist w = h1 @ AskedFailover ident True # h2"
    by (simp_all add: machine_inv_def phase_inv_def)
  then have wr: "state_get st ''writer'' \<noteq> ''''" by (simp add: replicas_done_def stored_cluster_def)
  obtain r w' where d: "cm_DescribeCluster mgr w ident = (r, w')" by (cases "cm_DescribeCluster mgr w ident")
  note ev = describe_event [OF d]
  have old: "machine_inv ident cls st (hist w')"
    unfolding ev using assms(1) by (intro machine_inv_quiet) (auto split: sum.splits)
  have "machine_inv ident cls (st\<lparr>st_Phase := ''ScalingWriter''\<rparr>) (hist w')"
    if r: "r = Inr (cw, rs)" and cw: "cw \<noteq> state_get st ''writer''" for cw rs
  proof -
    obtain h1 h2 where "hist w = h1 @ AskedFailover ident True # h2" using fo by blast
    then have "hist w' = h1 @ AskedFailover ident True # (h2 @ [SawCluster cw rs])" using ev r by simp
    then have "handed_over ident (hist w') (state_get st ''writer'')"
      unfolding handed_over_def using cw by (metis in_set_conv_decomp)
    moreover have "replicas_done cls st (hist w')" unfolding ev using rd by (rule replicas_done_append)
    ultimately show ?thesis
      using old by (simp add: machine_inv_def phase_inv_def writer_free_def)
  qed
  with old d wr show ?thesis
    by (cases r) (auto simp: phase_WaitWriterFailover_def recall_writer_def phase_safe_def requeue_after_def
        requeue_now_def Let_def split: if_splits)
qed

lemma ScalingWriter_safe:
  assumes "machine_inv ident cls st (hist w)" and ph: "st_Phase st = ''ScalingWriter''"
  shows "phase_safe ident cls hist st w (phase_ScalingWriter mgr ident cls st w)"
proof -
  from assms have wf: "writer_free ident cls st (hist w)" by (simp add: machine_inv_def phase_inv_def)
  then have wr: "state_get st ''writer'' \<noteq> ''''" by (simp add: writer_free_def replicas_done_def stored_cluster_def)
  obtain err w' where m: "cm_ModifyInstance mgr w (state_get st ''writer'') cls = (err, w')"
    by (cases "cm_ModifyInstance mgr w (state_get st ''writer'') cls")
  note ev = modify_event [OF m]
  have "justified ident cls (hist w) (AskedModify (state_get st ''writer'') cls (err = None))"
    using wf by (auto simp: writer_free_def replicas_done_def stored_cluster_def)
  then have old: "machine_inv ident cls st (hist w')"
    unfolding ev by (intro machine_inv_quiet [OF assms(1)]) simp
  have "machine_inv ident cls (st\<lparr>st_Phase := ''WaitOldWriter''\<rparr>) (hist w')"
    using old wf by (simp add: machine_inv_def phase_inv_def ev writer_free_append)
  with old m wr show ?thesis
    by (cases err) (simp_all add: phase_ScalingWriter_def scale_writer_def phase_safe_def requeue_after_def Let_def)
qed

lemma WaitOldWriter_safe:
  assumes "machine_inv ident cls st (hist w)" and ph: "st_Phase st = ''WaitOldWriter''"
  shows "phase_safe ident cls hist st w (phase_WaitOldWriter mgr ident cls st w)"
proof -
  from assms have wf: "writer_free ident cls st (hist w)" by (simp add: machine_inv_def phase_inv_def)
  then have wr: "state_get st ''writer'' \<noteq> ''''" by (simp add: writer_free_def replicas_done_def stored_cluster_def)
  obtain r w' where c: "cm_CheckInstancesAvailable mgr w [state_get st ''writer''] cls = (r, w')"
    by (cases "cm_CheckInstancesAvailable mgr w [state_get st ''writer''] cls")
  obtain g where g: "hist w' = hist w @ g" "\<forall>e \<in> set g. \<exists>i d. e = SawReady i d"
      "r = Inr True \<longrightarrow> all_ready g [state_get st ''writer''] cls"
    using check_event [OF c] by blast
  have just: "\<forall>e \<in> set g. justified ident cls (hist w) e" using g(2) by auto
  have old: "machine_inv ident cls st (hist w')"
    unfolding g(1) by (rule machine_inv_quiet [OF assms(1) just])
  have "machine_inv ident cls (st\<lparr>st_Phase := ''Completed''\<rparr>) (hist w')" if "r = Inr True"
    using old g(3) that wf
    by (auto simp: machine_inv_def phase_inv_def g(1) writer_free_append all_ready_def)
  with old c wr show ?thesis
    by (cases r) (simp_all add: phase_WaitOldWriter_def recall_writer_def phase_safe_def requeue_after_def Let_def)
qed

lemmas phases_safe = Initialization_safe ScalingReplicas_safe WaitReplicas_safe PerformingFailover_safe
  WaitWriterFailover_safe ScalingWriter_safe WaitOldWriter_safe

lemma run_phase_safe:
  assumes "machine_inv ident cls st (hist w)" and "st_Phase st \<noteq> ''''"
  shows "phase_safe ident cls hist st w (run_phase mgr ident cls st w)"
proof (cases "st_Phase st = ''Completed''")
  case True
  with assms show ?thesis by (simp add: run_phase_def phase_safe_def)
next
  case False
  with assms show ?thesis
    using phases_safe [OF assms(1)] by (auto simp: run_phase_def machine_inv_def phase_inv_def)
qed

end

section \<open>Executions\<close>

text \<open>
  One reconciliation of an execution that is not done: the status is written back, or the write
  fails and the old status stays.
\<close>

inductive scale_step :: "'w cluster_manager_ops \<Rightarrow> action_execution \<Rightarrow> string \<Rightarrow>
    action_execution_status \<times> 'w \<Rightarrow> action_execution_status \<times> 'w \<Rightarrow> bool" for mgr op ident where
  stored: "Execute mgr (op\<lparr>ae_Status := st\<rparr>) ident w = (res, False, err, op', w') \<Longrightarrow>
    scale_step mgr op ident (st, w) (ae_Status op', w')"
| lost: "Execute mgr (op\<lparr>ae_Status := st\<rparr>) ident w = (res, False, err, op', w') \<Longrightarrow>
    scale_step mgr op ident (st, w) (st, w')"

inductive_cases scale_stepE: "scale_step mgr op ident (st, w) c"

definition scale_class :: "action_execution \<Rightarrow> string option" where
  "scale_class op = (case Unmarshal_field ''instanceClass'' (as_Parameters (ae_Spec op)) of
      Inl err \<Rightarrow> None | Inr cls \<Rightarrow> if cls = '''' then None else Some cls)"

lemma scale_class_status [simp]: "scale_class (op\<lparr>ae_Status := st\<rparr>) = scale_class op"
  by (simp add: scale_class_def)

lemma Execute_Some:
  "scale_class op = Some cls \<Longrightarrow> Execute mgr op ident w =
     (case run_phase mgr ident cls (enter_state (ae_Status op)) w of
        (res, fin, err, st, w') \<Rightarrow> (res, fin, err, op\<lparr>ae_Status := st\<rparr>, w'))"
  by (auto simp: scale_class_def Execute_def split: sum.splits if_splits)

lemma Execute_None: "scale_class op = None \<Longrightarrow> \<exists>err. Execute mgr op ident w = (no_requeue, True, Some err, op, w)"
  by (auto simp: scale_class_def Execute_def split: sum.splits if_splits)

lemma enter_state_phase: "st_Phase (enter_state st) \<noteq> ''''"
  by (simp add: enter_state_def Let_def)

definition fresh_status :: action_execution_status where
  "fresh_status = \<lparr>st_Phase = '''', st_StateData = None\<rparr>"

lemma unenter_inv:
  assumes "machine_inv ident cls (enter_state st) h" and "machine_inv ident cls st h0"
    and "\<exists>g. h = h0 @ g"
  shows "machine_inv ident cls st h"
proof -
  obtain g where "h = h0 @ g" using assms(3) by blast
  then show ?thesis
    using assms(1,2) by (simp add: machine_inv_def phase_inv_append)
qed

context cluster_manager
begin

lemma execute_extends:
  assumes "machine_inv ident cls (enter_state st) (hist w)"
    and "run_phase mgr ident cls (enter_state st) w = (res, fin, err, st', w')"
  shows "\<exists>g. hist w' = hist w @ g"
proof -
  have d: "\<exists>g. hist w2 = hist w1 @ g" if "cm_DescribeCluster mgr w1 i = (r, w2)" for w1 w2 i r
    using describe_event [OF that] by blast
  have m: "\<exists>g. hist w2 = hist w1 @ g" if "cm_ModifyInstance mgr w1 i c = (r, w2)" for w1 w2 i c r
    using modify_event [OF that] by blast
  have f: "\<exists>g. hist w2 = hist w1 @ g" if "cm_FailoverCluster mgr w1 i = (r, w2)" for w1 w2 i r
    using failover_event [OF that] by blast
  have c: "\<exists>g. hist w2 = hist w1 @ g" if "cm_CheckInstancesAvailable mgr w1 is cc = (r, w2)" for w1 w2 "is" cc r
    using check_event [OF that] by blast
  have rm: "\<exists>g. hist w2 = hist w1 @ g" if "modify_readers mgr cc is w1 = (r, w2)" for w1 w2 "is" cc r
    using modify_readers_event [OF that] by blast
  have rw: "\<exists>g. hist w2 = hist w1 @ g" if "recall_writer mgr i st1 w1 = (x, st2, w2)" for w1 w2 i st1 st2 x
    using that d by (auto simp: recall_writer_def Let_def split: if_splits sum.splits prod.splits)
  have tr: "\<exists>g. hist w3 = hist w1 @ g" if "\<exists>g. hist w2 = hist w1 @ g" "\<exists>g. hist w3 = hist w2 @ g" for w1 w2 w3
    using that by (metis append_assoc)
  have sw: "\<exists>g. hist w2 = hist w1 @ g" if "scale_writer mgr cc wr st1 w1 = (r1, r2, r3, r4, w2)" for w1 w2 cc wr st1 r1 r2 r3 r4
    using that m by (auto simp: scale_writer_def split: prod.splits option.splits)
  have ww: "\<exists>g. hist w' = hist w @ g" if "phase_WaitWriterFailover mgr ident (enter_state st) w = (res, fin, err, st', w')"
  proof -
    obtain x st1 w1 where r: "recall_writer mgr ident (enter_state st) w = (x, st1, w1)" by (metis prod_cases3)
    with that have "\<exists>g. hist w' = hist w1 @ g"
      using d by (auto simp: phase_WaitWriterFailover_def split: sum.splits prod.splits if_splits)
    with rw [OF r] tr show ?thesis by blast
  qed
  have wo: "\<exists>g. hist w' = hist w @ g" if "phase_WaitOldWriter mgr ident cls (enter_state st) w = (res, fin, err, st', w')"
  proof -
    obtain x st1 w1 where r: "recall_writer mgr ident (enter_state st) w = (x, st1, w1)" by (metis prod_cases3)
    with that have "\<exists>g. hist w' = hist w1 @ g"
      using c by (auto simp: phase_WaitOldWriter_def split: sum.splits prod.splits if_splits)
    with rw [OF r] tr show ?thesis by blast
  qed
  have sc: "\<exists>g. hist w' = hist w @ g" if "phase_ScalingWriter mgr ident cls (enter_state st) w = (res, fin, err, st', w')"
  proof (cases "state_get (enter_state st) ''writer'' = ''''")
    case False
    with that sw show ?thesis by (auto simp: phase_ScalingWriter_def Let_def)
  next
    case True
    obtain r w1 where r: "cm_DescribeCluster mgr w ident = (r, w1)" by (cases "cm_DescribeCluster mgr w ident")
    have "w' = w1 \<or> (\<exists>cc wr st1. scale_writer mgr cc wr st1 w1 = (res, fin, err, st', w'))"
      using that True r by (auto simp: phase_ScalingWriter_def Let_def split: sum.splits prod.splits if_splits)
    with d [OF r] sw tr show ?thesis by blast
  qed
  show ?thesis
    using assms(2) d m f c rm ww wo sc
    by (auto simp: run_phase_def phase_Initialization_def phase_ScalingReplicas_def phase_WaitReplicas_def
        phase_PerformingFailover_def Let_def split: if_splits sum.splits prod.splits option.splits)
qed

lemma Execute_safe:
  assumes cls: "scale_class op = Some cls" and inv: "machine_inv ident cls st (hist w)"
    and ex: "Execute mgr (op\<lparr>ae_Status := st\<rparr>) ident w = (res, fin, err, op', w')"
  shows "machine_inv ident cls (ae_Status op') (hist w') \<and> machine_inv ident cls st (hist w') \<and>
    (fin \<and> err = None \<longrightarrow> st_Phase (ae_Status op') = ''Completed'')"
proof -
  obtain st' where r: "run_phase mgr ident cls (enter_state st) w = (res, fin, err, st', w')" and st': "ae_Status op' = st'"
    using ex cls by (auto simp: Execute_Some split: prod.splits)
  have inv': "machine_inv ident cls (enter_state st) (hist w)"
    using inv enter_state_inv by (simp add: machine_inv_def)
  from run_phase_safe [OF inv' enter_state_phase] have
    safe: "machine_inv ident cls st' (hist w')" "machine_inv ident cls (enter_state st) (hist w')"
      "fin \<and> err = None \<longrightarrow> st_Phase st' = ''Completed''"
    by (auto simp: phase_safe_def r)
  have "machine_inv ident cls st (hist w')"
    by (rule unenter_inv [OF safe(2) inv execute_extends [OF inv' r]])
  with safe st' show ?thesis by simp
qed

lemma scale_step_inv:
  assumes cls: "scale_class op = Some cls"
    and "case c of (st, w) \<Rightarrow> machine_inv ident cls st (hist w)" and step: "scale_step mgr op ident c d"
  shows "case d of (st, w) \<Rightarrow> machine_inv ident cls st (hist w)"
  using step assms(2)
  by cases (use Execute_safe [OF cls] in \<open>fastforce+\<close>)

lemma scale_steps_inv:
  assumes cls: "scale_class op = Some cls" and "(scale_step mgr op ident)\<^sup>*\<^sup>* (fresh_status, w0) (st, w)" and "hist w0 = []"
  shows "machine_inv ident cls st (hist w)"
proof -
  have "case (st, w) of (st, w) \<Rightarrow> machine_inv ident cls st (hist w)"
    using assms(2)
  proof (induction rule: rtranclp_induct)
    case base
    show ?case using assms(3) by (simp add: machine_inv_def phase_inv_def fresh_status_def)
  next
    case (step c d)
    show ?case by (rule scale_step_inv [OF cls step.IH step.hyps(2)])
  qed
  then show ?thesis by simp
qed

end

section \<open>The managers implement the interface\<close>

text \<open>What a logged call shows.\<close>

fun call_events :: "db_call \<Rightarrow> scale_event list" where
  "call_events (DescribeDBClusters tgt ident resp) = (case resp of
      Inl err \<Rightarrow> []
    | Inr clusters \<Rightarrow> (case pick_cluster ident clusters of
        None \<Rightarrow> []
      | Some cluster \<Rightarrow> (case members_of cluster of (writer, readers) \<Rightarrow>
          if writer = '''' then [] else [SawCluster writer readers])))"
| "call_events (DescribeDBInstances tgt (ByCluster ident) resp) = (case resp of
      Inl err \<Rightarrow> []
    | Inr insts \<Rightarrow> (case instance_loop ident insts ('''', []) of (writer, readers) \<Rightarrow>
        if writer = '''' then [] else [SawCluster writer readers]))"
| "call_events (DescribeDBInstances tgt (ByInstance i) resp) = (case resp of
      Inl err \<Rightarrow> []
    | Inr insts \<Rightarrow> (case insts of
        [] \<Rightarrow> []
      | inst # _ \<Rightarrow> (case di_Class inst of
          None \<Rightarrow> []
        | Some cls \<Rightarrow> if di_Status inst = Some ''available'' then [SawReady i cls] else [])))"
| "call_events (ModifyDBInstance tgt i cls err) = [AskedModify i cls (err = None)]"
| "call_events (FailoverDBCluster tgt ident err) = [AskedFailover ident (err = None)]"

definition db_hist :: "db_log \<Rightarrow> scale_event list" where
  "db_hist log = concat (map call_events log)"

lemma db_hist_append [simp]: "db_hist (log @ log') = db_hist log @ db_hist log'"
  by (simp add: db_hist_def)

lemma db_hist_Cons [simp]: "db_hist (c # log) = call_events c @ db_hist log"
  by (simp add: db_hist_def)

lemma db_hist_Nil [simp]: "db_hist [] = []"
  by (simp add: db_hist_def)

lemma members_of_empty: "dc_Members cluster = [] \<Longrightarrow> members_of cluster = ('''', [])"
  by (simp add: members_of_def)

lemma finish_describe_Inr: "finish_describe ident wr = Inr x \<longleftrightarrow> x = wr \<and> fst wr \<noteq> ''''"
  by (auto simp: finish_describe_def)

lemma DescribeCluster_event:
  assumes "DescribeCluster sdk tgt log ident = (r, log')"
  shows "db_hist log' = db_hist log @ (case r of Inl err \<Rightarrow> [] | Inr (writer, readers) \<Rightarrow> [SawCluster writer readers])"
    and "r = Inr (writer, readers) \<Longrightarrow> writer \<noteq> ''''"
proof -
  have "db_hist log' = db_hist log @ (case r of Inl err \<Rightarrow> [] | Inr (writer, readers) \<Rightarrow> [SawCluster writer readers]) \<and>
      (r = Inr (writer, readers) \<longrightarrow> writer \<noteq> '''')"
  proof (cases "sdk_DescribeDBClusters sdk log tgt ident")
    case (Inl e)
    with assms show ?thesis by (auto simp: DescribeCluster_def Let_def)
  next
    case clusters: (Inr clusters)
    show ?thesis
    proof (cases "pick_cluster ident clusters")
      case None
      with assms clusters show ?thesis by (auto simp: DescribeCluster_def Let_def)
    next
      case (Some cluster)
      obtain wr rs where mem: "members_of cluster = (wr, rs)" by (cases "members_of cluster")
      show ?thesis
      proof (cases "dc_Members cluster = []")
        case False
        with assms clusters Some mem show ?thesis
          by (auto simp: DescribeCluster_def Let_def finish_describe_def split: if_splits)
      next
        case True
        with mem members_of_empty have e: "wr = ''''" "rs = []" by auto
        show ?thesis
        proof (cases "sdk_DescribeDBInstances sdk (log @ [DescribeDBClusters tgt ident (Inr clusters)]) tgt (ByCluster ident)")
          case (Inl err)
          with assms clusters Some mem True e show ?thesis
            by (auto simp: DescribeCluster_def Let_def finish_describe_def)
        next
          case (Inr insts)
          obtain w2 r2 where "instance_loop ident insts ('''', []) = (w2, r2)"
            by (cases "instance_loop ident insts ('''', [])")
          with assms clusters Some mem True e Inr show ?thesis
            by (auto simp: DescribeCluster_def Let_def finish_describe_def split: if_splits)
        qed
      qed
    qed
  qed
  then show "db_hist log' = db_hist log @ (case r of Inl err \<Rightarrow> [] | Inr (writer, readers) \<Rightarrow> [SawCluster writer readers])"
    and "r = Inr (writer, readers) \<Longrightarrow> writer \<noteq> ''''"
    by blast+
qed

lemma Check_event:
  "CheckInstancesAvailable sdk tgt log ids c = (r, log') \<Longrightarrow>
     \<exists>g. db_hist log' = db_hist log @ g \<and> (\<forall>e \<in> set g. \<exists>i d. e = SawReady i d) \<and> (r = Inr True \<longrightarrow> all_ready g ids c)"
proof (induction ids arbitrary: log)
  case Nil
  then show ?case by (simp add: all_ready_def)
next
  case (Cons i ids)
  let ?resp = "sdk_DescribeDBInstances sdk log tgt (ByInstance i)"
  let ?log1 = "log @ [DescribeDBInstances tgt (ByInstance i) ?resp]"
  have ev: "\<forall>e \<in> set (call_events (DescribeDBInstances tgt (ByInstance i) ?resp)). \<exists>i d. e = SawReady i d"
    by (auto split: sum.splits list.splits option.splits if_splits)
  show ?case
  proof (cases "\<exists>insts. ?resp = Inr insts \<and> instance_ready c insts")
    case False
    with Cons.prems have "log' = ?log1 \<and> r \<noteq> Inr True"
      by (auto simp: Let_def split: sum.splits if_splits)
    with ev show ?thesis by auto
  next
    case True
    then obtain insts where insts: "?resp = Inr insts" "instance_ready c insts" by blast
    with Cons.prems have "CheckInstancesAvailable sdk tgt ?log1 ids c = (r, log')"
      by (simp add: Let_def)
    from Cons.IH [OF this] obtain g where g: "db_hist log' = db_hist ?log1 @ g"
      "\<forall>e \<in> set g. \<exists>i d. e = SawReady i d" "r = Inr True \<longrightarrow> all_ready g ids c"
      by blast
    have "SawReady i c \<in> set (call_events (DescribeDBInstances tgt (ByInstance i) ?resp))"
      using insts by (auto simp: instance_ready_def split: list.splits)
    with g ev show ?thesis
      by (intro exI [of _ "call_events (DescribeDBInstances tgt (ByInstance i) ?resp) @ g"])
        (auto simp: all_ready_def)
  qed
qed

lemma manager_on_implements: "cluster_manager (manager_on sdk tgt) db_hist"
  by unfold_locales
    (auto simp: manager_on_def ModifyInstance_def FailoverCluster_def Let_def DescribeCluster_event(1)
      dest: DescribeCluster_event(2) Check_event)

interpretation rds: cluster_manager "rdsClusterManager sdk region endpoint" db_hist
  for sdk region endpoint
  unfolding rdsClusterManager_def by (rule manager_on_implements)

interpretation docdb: cluster_manager "docdbClusterManager sdk region endpoint" db_hist
  for sdk region endpoint
  unfolding docdbClusterManager_def by (rule manager_on_implements)

end
