(* ===== verification/Scale_Progress.thy ===== *)
theory Scale_Progress
  imports Scale_Safety
begin

text \<open>
  Properties of vertical scaling: no failover and no change of the writer before the readers are
  ready, success only when every instance is ready, termination within seven executions when the
  cloud answers, and the behaviour on unusable parameters.
\<close>

section \<open>Driving an execution\<close>

fun run_scale :: "'w cluster_manager_ops \<Rightarrow> action_execution \<Rightarrow> string \<Rightarrow> nat \<Rightarrow> 'w \<Rightarrow>
    bool \<times> go_error option \<times> action_execution \<times> 'w" where
  "run_scale mgr op ident 0 w = (False, None, op, w)"
| "run_scale mgr op ident (Suc n) w =
     (case Execute mgr op ident w of (res, fin, err, op', w') \<Rightarrow>
        if fin then (True, err, op', w') else run_scale mgr op' ident n w')"

text \<open>A cloud that accepts every request: instances become available in the new class, and after a
  failover, which \<open>over\<close> recognises, the cluster has another writer.\<close>

definition cooperative :: "'w cluster_manager_ops \<Rightarrow> string \<Rightarrow> string \<Rightarrow> ('w \<Rightarrow> bool) \<Rightarrow>
    string \<times> string list \<Rightarrow> string \<times> string list \<Rightarrow> bool" where
  "cooperative mgr ident cls over before after \<longleftrightarrow>
     (\<forall>w. fst (cm_DescribeCluster mgr w ident) = Inr (if over w then after else before) \<and>
          over (snd (cm_DescribeCluster mgr w ident)) = over w) \<and>
     (\<forall>w i. fst (cm_ModifyInstance mgr w i cls) = None \<and> over (snd (cm_ModifyInstance mgr w i cls)) = over w) \<and>
     (\<forall>w ids. fst (cm_CheckInstancesAvailable mgr w ids cls) = Inr True \<and>
          over (snd (cm_CheckInstancesAvailable mgr w ids cls)) = over w) \<and>
     (\<forall>w. fst (cm_FailoverCluster mgr w ident) = None \<and> over (snd (cm_FailoverCluster mgr w ident)))"

definition completes :: "'w cluster_manager_ops \<Rightarrow> string \<Rightarrow> nat \<Rightarrow> action_execution \<Rightarrow> 'w \<Rightarrow> bool" where
  "completes mgr ident n op w \<longleftrightarrow>
     (\<exists>op' w'. run_scale mgr op ident n w = (True, None, op', w') \<and> st_Phase (ae_Status op') = ''Completed'')"

definition in_phase :: "action_execution \<Rightarrow> string \<Rightarrow> string \<Rightarrow> string \<Rightarrow> bool" where
  "in_phase op cls ph writer \<longleftrightarrow> scale_class op = Some cls \<and> st_Phase (ae_Status op) = ph \<and>
     st_StateData (ae_Status op) \<noteq> None \<and> state_get (ae_Status op) ''writer'' = writer"

lemma in_phase_put [simp]:
  "in_phase op cls ph writer \<Longrightarrow> in_phase (op\<lparr>ae_Status := (ae_Status op)\<lparr>st_Phase := p\<rparr>\<rparr>) cls p writer"
  by (simp add: in_phase_def)

lemma Execute_in_phase:
  assumes "in_phase op cls ph writer" and "ph \<noteq> ''''"
  shows "Execute mgr op ident w = (case run_phase mgr ident cls (ae_Status op) w of
    (res, fin, err, st, w') \<Rightarrow> (res, fin, err, op\<lparr>ae_Status := st\<rparr>, w'))"
proof -
  have "enter_state (ae_Status op) = ae_Status op"
    using assms by (simp add: enter_state_def in_phase_def Let_def)
  then show ?thesis using assms Execute_Some [of op cls mgr ident w] by (simp add: in_phase_def)
qed

lemma completes_Suc:
  assumes "Execute mgr op ident w = (res, False, err, op', w')" and "completes mgr ident n op' w'"
  shows "completes mgr ident (Suc n) op w"
  using assms by (simp add: completes_def)

text \<open>What a cooperative cloud answers, call by call.\<close>

lemma coop_describe:
  assumes "cooperative mgr ident cls over before after"
  obtains w' where "cm_DescribeCluster mgr w ident = (Inr (if over w then after else before), w')" and "over w' = over w"
  using assms unfolding cooperative_def by (metis prod.collapse)

lemma coop_modify:
  assumes "cooperative mgr ident cls over before after"
  obtains w' where "cm_ModifyInstance mgr w i cls = (None, w')" and "over w' = over w"
  using assms unfolding cooperative_def by (metis prod.collapse)

lemma coop_check:
  assumes "cooperative mgr ident cls over before after"
  obtains w' where "cm_CheckInstancesAvailable mgr w ids cls = (Inr True, w')" and "over w' = over w"
  using assms unfolding cooperative_def by (metis prod.collapse)

lemma coop_failover:
  assumes "cooperative mgr ident cls over before after"
  obtains w' where "cm_FailoverCluster mgr w ident = (None, w')" and "over w'"
  using assms unfolding cooperative_def by (metis prod.collapse)

lemma coop_modify_readers:
  assumes co: "cooperative mgr ident cls over before after"
  obtains w' where "modify_readers mgr cls ids w = (None, w')" and "over w' = over w"
proof -
  have "\<exists>w'. modify_readers mgr cls ids w = (None, w') \<and> over w' = over w"
  proof (induction ids arbitrary: w)
    case (Cons i ids)
    obtain w1 where "cm_ModifyInstance mgr w i cls = (None, w1)" "over w1 = over w"
      by (rule coop_modify [OF co])
    with Cons.IH [of w1] show ?case by simp
  qed simp
  with that show thesis by blast
qed

text \<open>From each phase to the end, last phase first.\<close>

lemma completes_WaitOldWriter:
  assumes co: "cooperative mgr ident cls over before after" and ph: "in_phase op cls ''WaitOldWriter'' writer" and "writer \<noteq> ''''"
  shows "completes mgr ident 1 op w"
proof -
  obtain w' where "cm_CheckInstancesAvailable mgr w [writer] cls = (Inr True, w')" by (rule coop_check [OF co])
  then have "Execute mgr op ident w = (no_requeue, True, None,
      op\<lparr>ae_Status := (ae_Status op)\<lparr>st_Phase := ''Completed''\<rparr>\<rparr>, w')"
    using ph assms(3) Execute_in_phase [OF ph, of mgr ident w]
    by (simp add: run_phase_def phase_WaitOldWriter_def recall_writer_def in_phase_def Let_def)
  then show ?thesis by (simp add: completes_def)
qed

lemma completes_ScalingWriter:
  assumes co: "cooperative mgr ident cls over before after" and ph: "in_phase op cls ''ScalingWriter'' writer" and "writer \<noteq> ''''"
  shows "completes mgr ident 2 op w"
proof -
  obtain w' where "cm_ModifyInstance mgr w writer cls = (None, w')" by (rule coop_modify [OF co])
  then have "Execute mgr op ident w = (requeue_after 30, False, None,
      op\<lparr>ae_Status := (ae_Status op)\<lparr>st_Phase := ''WaitOldWriter''\<rparr>\<rparr>, w')"
    using ph assms(3) Execute_in_phase [OF ph, of mgr ident w]
    by (simp add: run_phase_def phase_ScalingWriter_def scale_writer_def in_phase_def Let_def)
  from completes_Suc [OF this completes_WaitOldWriter [OF co in_phase_put [OF ph] assms(3)]] show ?thesis
    by (simp add: numeral_2_eq_2)
qed

lemma completes_WaitWriterFailover:
  assumes co: "cooperative mgr ident cls over before (w1, rs1)" and ph: "in_phase op cls ''WaitWriterFailover'' writer"
    and "writer \<noteq> ''''" and "over w" and "w1 \<noteq> writer" and "w1 \<noteq> ''''"
  shows "completes mgr ident 3 op w"
proof -
  obtain w' where "cm_DescribeCluster mgr w ident = (Inr (w1, rs1), w')"
    by (rule coop_describe [OF co, of w]) (use assms(4) in simp)
  then have "Execute mgr op ident w = (requeue_now, False, None,
      op\<lparr>ae_Status := (ae_Status op)\<lparr>st_Phase := ''ScalingWriter''\<rparr>\<rparr>, w')"
    using ph assms(3,5,6) Execute_in_phase [OF ph, of mgr ident w]
    by (simp add: run_phase_def phase_WaitWriterFailover_def recall_writer_def in_phase_def Let_def)
  from completes_Suc [OF this completes_ScalingWriter [OF co in_phase_put [OF ph] assms(3)]] show ?thesis
    by (simp add: numeral_3_eq_3 numeral_2_eq_2)
qed

lemma completes_PerformingFailover:
  assumes co: "cooperative mgr ident cls over before (w1, rs1)" and ph: "in_phase op cls ''PerformingFailover'' writer"
    and "writer \<noteq> ''''" and "w1 \<noteq> writer" and "w1 \<noteq> ''''"
  shows "completes mgr ident 4 op w"
proof -
  obtain w' where "cm_FailoverCluster mgr w ident = (None, w')" and ov: "over w'" by (rule coop_failover [OF co])
  then have "Execute mgr op ident w = (requeue_after 30, False, None,
      op\<lparr>ae_Status := (ae_Status op)\<lparr>st_Phase := ''WaitWriterFailover''\<rparr>\<rparr>, w')"
    using ph Execute_in_phase [OF ph, of mgr ident w]
    by (simp add: run_phase_def phase_PerformingFailover_def in_phase_def)
  from completes_Suc [OF this completes_WaitWriterFailover [OF co in_phase_put [OF ph] assms(3) ov assms(4,5)]] show ?thesis
    by (simp add: eval_nat_numeral)
qed

lemma completes_WaitReplicas:
  assumes co: "cooperative mgr ident cls over before (w1, rs1)" and ph: "in_phase op cls ''WaitReplicas'' writer"
    and "writer \<noteq> ''''" and "w1 \<noteq> writer" and "w1 \<noteq> ''''"
  shows "completes mgr ident 5 op w"
proof -
  let ?rs = "Unmarshal_strings (state_get (ae_Status op) ''readers'')"
  obtain w' where "cm_CheckInstancesAvailable mgr w ?rs cls = (Inr True, w')" by (rule coop_check [OF co])
  then have "Execute mgr op ident w = (requeue_now, False, None,
      op\<lparr>ae_Status := (ae_Status op)\<lparr>st_Phase := ''PerformingFailover''\<rparr>\<rparr>, w')"
    using ph Execute_in_phase [OF ph, of mgr ident w]
    by (simp add: run_phase_def phase_WaitReplicas_def in_phase_def)
  from completes_Suc [OF this completes_PerformingFailover [OF co in_phase_put [OF ph] assms(3,4,5)]] show ?thesis
    by (simp add: eval_nat_numeral)
qed

lemma completes_ScalingReplicas:
  assumes co: "cooperative mgr ident cls over before (w1, rs1)" and ph: "in_phase op cls ''ScalingReplicas'' writer"
    and "writer \<noteq> ''''" and "w1 \<noteq> writer" and "w1 \<noteq> ''''"
  shows "completes mgr ident 6 op w"
proof -
  let ?rs = "Unmarshal_strings (state_get (ae_Status op) ''readers'')"
  obtain w' where "modify_readers mgr cls ?rs w = (None, w')" by (rule coop_modify_readers [OF co])
  then have "Execute mgr op ident w = (requeue_after 30, False, None,
      op\<lparr>ae_Status := (ae_Status op)\<lparr>st_Phase := ''WaitReplicas''\<rparr>\<rparr>, w')"
    using ph Execute_in_phase [OF ph, of mgr ident w]
    by (simp add: run_phase_def phase_ScalingReplicas_def in_phase_def)
  from completes_Suc [OF this completes_WaitReplicas [OF co in_phase_put [OF ph] assms(3,4,5)]] show ?thesis
    by (simp add: eval_nat_numeral)
qed

lemma completes_mono: "completes mgr ident n op w \<Longrightarrow> n \<le> m \<Longrightarrow> completes mgr ident m op w"
proof (induction n arbitrary: m op w)
  case (Suc n)
  then obtain k where m: "m = Suc k" "n \<le> k" by (cases m) auto
  obtain res fin err op' w' where e: "Execute mgr op ident w = (res, fin, err, op', w')" by (metis prod_cases5)
  show ?case
  proof (cases fin)
    case True
    with Suc.prems(1) e m show ?thesis by (simp add: completes_def)
  next
    case False
    with Suc.prems(1) e have "completes mgr ident n op' w'" by (simp add: completes_def)
    from Suc.IH [OF this m(2)] False e m show ?thesis by (simp add: completes_def)
  qed
qed (simp add: completes_def)

lemma state_put_data: "\<exists>m. st_StateData (state_put k v st) = Some m"
  by (simp add: state_put_def)

lemma completes_fresh:
  assumes co: "cooperative mgr ident cls over (w0, rs0) (w1, rs1)" and cls: "scale_class op = Some cls"
    and "\<not> over w" and "w0 \<noteq> ''''" and "w1 \<noteq> w0" and "w1 \<noteq> ''''"
  shows "completes mgr ident 7 (op\<lparr>ae_Status := fresh_status\<rparr>) w"
proof -
  obtain w' where d: "cm_DescribeCluster mgr w ident = (Inr (w0, rs0), w')"
    by (rule coop_describe [OF co, of w]) (use assms(3) in simp)
  let ?st = "state_put ''readers'' (Marshal_strings rs0) (state_put ''writer'' w0 (enter_state fresh_status))"
  let ?ph = "if length rs0 = 0 then ''ScalingWriter'' else ''ScalingReplicas''"
  let ?op = "op\<lparr>ae_Status := ?st\<lparr>st_Phase := ?ph\<rparr>\<rparr>"
  have "Execute mgr (op\<lparr>ae_Status := fresh_status\<rparr>) ident w = (requeue_now, False, None, ?op, w')"
    using cls d assms(4)
    by (simp add: Execute_Some enter_state_def fresh_status_def run_phase_def phase_Initialization_def Let_def)
  moreover have ph: "in_phase ?op cls ?ph w0"
    using cls state_put_data [of "''readers''" "Marshal_strings rs0"] by (simp add: in_phase_def)
  have "completes mgr ident 6 ?op w'"
  proof (cases "length rs0 = 0")
    case True
    from ph have "in_phase ?op cls ''ScalingWriter'' w0" using True by simp
    from completes_mono [OF completes_ScalingWriter [OF co this assms(4)], of 6] show ?thesis by simp
  next
    case False
    from ph have "in_phase ?op cls ''ScalingReplicas'' w0" using False by simp
    from completes_ScalingReplicas [OF co this assms(4,5,6)] show ?thesis .
  qed
  ultimately show ?thesis
    using completes_Suc [of mgr "op\<lparr>ae_Status := fresh_status\<rparr>" ident w] by (simp add: eval_nat_numeral)
qed

text \<open>A phase that is neither done nor failed asks for another reconciliation.\<close>

definition asks_again :: "'w phase_result \<Rightarrow> bool" where
  "asks_again r \<longleftrightarrow> (case r of (res, fin, err, st, w) \<Rightarrow>
     \<not> fin \<and> err = None \<longrightarrow> cr_Requeue res \<or> 0 < cr_RequeueAfter res)"

lemma asks_again_simps:
  "asks_again (phase_Initialization mgr ident st w)"
  "asks_again (phase_ScalingReplicas mgr cls st w)"
  "asks_again (phase_WaitReplicas mgr cls st w)"
  "asks_again (phase_PerformingFailover mgr ident st w)"
  "asks_again (scale_writer mgr cls writer st w)"
  by (simp_all add: asks_again_def phase_Initialization_def phase_ScalingReplicas_def phase_WaitReplicas_def
      phase_PerformingFailover_def scale_writer_def requeue_now_def requeue_after_def Let_def
      split: prod.split sum.split option.split)

lemma asks_again_writer:
  "asks_again (phase_WaitWriterFailover mgr ident st w)"
  "asks_again (phase_WaitOldWriter mgr ident cls st w)"
  by (simp_all add: asks_again_def phase_WaitWriterFailover_def phase_WaitOldWriter_def requeue_now_def
      requeue_after_def split: prod.split sum.split)

lemma asks_again_ScalingWriter: "asks_again (phase_ScalingWriter mgr ident cls st w)"
proof (cases "state_get st ''writer'' = ''''")
  case True
  have failing: "asks_again (no_requeue, False, Some e, st, w')" for e st and w' :: 'a
    by (simp add: asks_again_def)
  obtain r w' where d: "cm_DescribeCluster mgr w ident = (r, w')" by (cases "cm_DescribeCluster mgr w ident")
  with True show ?thesis
    by (cases r) (auto simp: phase_ScalingWriter_def Let_def failing asks_again_simps)
next
  case False
  then show ?thesis by (simp add: phase_ScalingWriter_def Let_def asks_again_simps)
qed

lemma asks_again_run_phase: "asks_again (run_phase mgr ident cls st w)"
proof -
  have "asks_again (no_requeue, True, e, st, w)" for e
    by (simp add: asks_again_def)
  then show ?thesis
    by (simp add: run_phase_def asks_again_simps asks_again_writer asks_again_ScalingWriter)
qed

section \<open>Properties\<close>

text \<open>A concrete cloud for the witnesses: writer a and reader b, swapped by a failover.\<close>

definition failed_over :: "db_log \<Rightarrow> bool" where
  "failed_over log = list_ex (\<lambda>c. case c of FailoverDBCluster _ _ _ \<Rightarrow> True | _ \<Rightarrow> False) log"

definition demo_sdk :: db_sdk where
  "demo_sdk =
     \<lparr>sdk_DescribeDBClusters = (\<lambda>log _ ident. Inr [\<lparr>dc_Id = Some ident, dc_Members =
        [\<lparr>mb_Id = Some ''a'', mb_IsWriter = Some (\<not> failed_over log)\<rparr>,
         \<lparr>mb_Id = Some ''b'', mb_IsWriter = Some (failed_over log)\<rparr>]\<rparr>]),
      sdk_DescribeDBInstances = (\<lambda>_ _ q. Inr [\<lparr>di_Id = None, di_ClusterId = None, di_Status = Some ''available'',
        di_Class = Some ''db.large''\<rparr>]),
      sdk_ModifyDBInstance = (\<lambda>_ _ _ _. None),
      sdk_FailoverDBCluster = (\<lambda>_ _ _. None)\<rparr>"

definition demo_op :: action_execution where
  "demo_op = \<lparr>ae_Name = ''op'', ae_Namespace = ''ns'', ae_CreationTimestamp = None, ae_DeletionTimestamp = None,
     ae_Spec = \<lparr>as_TargetResource = \<lparr>or_APIVersion = '''', or_Kind = ''AwsRdsAuroraCluster'', or_Name = ''c'', or_Namespace = ''''\<rparr>,
       as_ActionType = ''AuroraVerticalScale'', as_ActionName = ''up'',
       as_Parameters = Marshal_field ''instanceClass'' ''db.large''\<rparr>,
     ae_Status = fresh_status\<rparr>"

lemma demo_class: "scale_class demo_op = Some ''db.large''"
  by (simp add: scale_class_def demo_op_def)

lemma demo_describe:
  "DescribeCluster demo_sdk tgt log ident =
     (Inr (if failed_over log then (''b'', [''a'']) else (''a'', [''b''])),
      log @ [DescribeDBClusters tgt ident (sdk_DescribeDBClusters demo_sdk log tgt ident)])"
  by (simp add: DescribeCluster_def demo_sdk_def pick_cluster_def members_of_def finish_describe_def Let_def)

lemma failed_over_append [simp]: "failed_over (log @ log') \<longleftrightarrow> failed_over log \<or> failed_over log'"
  by (simp add: failed_over_def)

lemma demo_check:
  "fst (CheckInstancesAvailable demo_sdk tgt log ids ''db.large'') = Inr True \<and>
   failed_over (snd (CheckInstancesAvailable demo_sdk tgt log ids ''db.large'')) = failed_over log"
proof (induction ids arbitrary: log)
  case (Cons i ids)
  then show ?case
    by (simp add: Let_def demo_sdk_def instance_ready_def) (simp add: failed_over_def)
qed simp

lemma demo_cooperative:
  "cooperative (rdsClusterManager demo_sdk region endpoint) ident ''db.large'' failed_over (''a'', [''b'']) (''b'', [''a''])"
  unfolding cooperative_def rdsClusterManager_def manager_on_def
  by (simp add: demo_describe demo_check ModifyInstance_def FailoverCluster_def Let_def)
    (simp add: failed_over_def demo_sdk_def)

text \<open>
  Claim C3. Scaling an Aurora or DocumentDB cluster is safe in every execution, whatever the cloud
  answers, whichever calls fail and whichever status updates get lost: every change of an instance
  is to the requested class, and is of a reader the cluster was seen with, or of the writer when the
  cluster has no readers or when all its readers were seen available in the new class and, after an
  accepted failover, another instance was seen as the writer; and every failover is requested only
  when all readers the cluster was seen with were seen available in the new class.
\<close>

theorem scaling_safe:
  assumes "mgr = rdsClusterManager sdk region endpoint \<or> mgr = docdbClusterManager sdk region endpoint"
    and "scale_class op = Some cls"
    and "(scale_step mgr op ident)\<^sup>*\<^sup>* (fresh_status, []) (st, log)"
  shows "history_ok ident cls (db_hist log)"
  using assms rds.scale_steps_inv [of op cls sdk region endpoint ident "[]" st log]
    docdb.scale_steps_inv [of op cls sdk region endpoint ident "[]" st log]
  by (auto simp: machine_inv_def)

theorem scaling_safe_witness:
  "\<exists>st log. (scale_step (rdsClusterManager demo_sdk ''eu'' None) demo_op ''c'')\<^sup>*\<^sup>* (fresh_status, []) (st, log) \<and>
     db_hist log = [SawCluster ''a'' [''b'']] \<and> history_ok ''c'' ''db.large'' (db_hist log)"
proof -
  let ?mgr = "rdsClusterManager demo_sdk ''eu'' None"
  obtain res err op' log where ex: "Execute ?mgr (demo_op\<lparr>ae_Status := fresh_status\<rparr>) ''c'' [] = (res, False, err, op', log)"
    and h: "db_hist log = [SawCluster ''a'' [''b'']]"
    by (simp add: Execute_Some [of _ "''db.large''"] demo_class enter_state_def fresh_status_def run_phase_def
        phase_Initialization_def rdsClusterManager_def manager_on_def demo_describe Let_def)
      (simp add: failed_over_def demo_sdk_def pick_cluster_def members_of_def)
  from scale_step.stored [OF ex] have
    run: "(scale_step ?mgr demo_op ''c'')\<^sup>*\<^sup>* (fresh_status, []) (ae_Status op', log)" by blast
  have "history_ok ''c'' ''db.large'' (db_hist log)"
    by (rule scaling_safe [OF _ demo_class run]) blast
  with run h show ?thesis by blast
qed

text \<open>
  Claim C13. An execution that ends without an error has scaled the whole cluster: the cluster was
  seen with a writer and readers, and the writer and every reader were seen available in the
  requested class.
\<close>

theorem scaling_done_means_ready:
  assumes "mgr = rdsClusterManager sdk region endpoint \<or> mgr = docdbClusterManager sdk region endpoint"
    and "scale_class op = Some cls"
    and "(scale_step mgr op ident)\<^sup>*\<^sup>* (fresh_status, []) (st, log)"
    and "Execute mgr (op\<lparr>ae_Status := st\<rparr>) ident log = (res, True, None, op', log')"
  shows "\<exists>writer readers. SawCluster writer readers \<in> set (db_hist log') \<and> all_ready (db_hist log') (writer # readers) cls"
proof -
  have inv: "machine_inv ident cls st (db_hist log)"
    using assms(1,2,3) rds.scale_steps_inv [of op cls sdk region endpoint ident "[]" st log]
      docdb.scale_steps_inv [of op cls sdk region endpoint ident "[]" st log] by auto
  have "machine_inv ident cls (ae_Status op') (db_hist log') \<and> st_Phase (ae_Status op') = ''Completed''"
    using assms(1,4) rds.Execute_safe [OF assms(2) inv] docdb.Execute_safe [OF assms(2) inv] by blast
  then show ?thesis
    by (auto simp: machine_inv_def phase_inv_def writer_free_def replicas_done_def stored_cluster_def all_ready_def)
qed

theorem scaling_done_means_ready_witness:
  "\<exists>st log res op' log'.
     (scale_step (rdsClusterManager demo_sdk ''eu'' None) (demo_op\<lparr>ae_Status := fresh_status\<rparr>) ''c'')\<^sup>*\<^sup>* (fresh_status, []) (st, log) \<and>
     Execute (rdsClusterManager demo_sdk ''eu'' None) (demo_op\<lparr>ae_Status := st\<rparr>) ''c'' log = (res, True, None, op', log') \<and>
     (\<exists>writer readers. SawCluster writer readers \<in> set (db_hist log') \<and> all_ready (db_hist log') (writer # readers) ''db.large'')"
proof -
  let ?mgr = "rdsClusterManager demo_sdk ''eu'' None" and ?op = "demo_op\<lparr>ae_Status := fresh_status\<rparr>"
  have chain: "completes ?mgr ''c'' n op log \<Longrightarrow> op\<lparr>ae_Status := fresh_status\<rparr> = ?op \<Longrightarrow>
      (scale_step ?mgr ?op ''c'')\<^sup>*\<^sup>* (fresh_status, []) (ae_Status op, log) \<Longrightarrow>
      \<exists>st log res op' log'. (scale_step ?mgr ?op ''c'')\<^sup>*\<^sup>* (fresh_status, []) (st, log) \<and>
        Execute ?mgr (demo_op\<lparr>ae_Status := st\<rparr>) ''c'' log = (res, True, None, op', log')" for n op log
  proof (induction n arbitrary: op log)
    case (Suc n)
    obtain res fin err op1 log1 where e: "Execute ?mgr op ''c'' log = (res, fin, err, op1, log1)" by (metis prod_cases5)
    have op: "op = demo_op\<lparr>ae_Status := ae_Status op\<rparr>" using Suc.prems(2) by (metis action_execution.surjective action_execution.update_convs(6))
    show ?case
    proof (cases fin)
      case True
      with Suc.prems(1) e have "err = None" by (simp add: completes_def)
      with True e op Suc.prems(3) show ?thesis by metis
    next
      case False
      have "scale_class op = Some ''db.large''" using op demo_class by (metis scale_class_status)
      then have op1: "op1\<lparr>ae_Status := fresh_status\<rparr> = ?op"
        using e Suc.prems(2) by (auto simp: Execute_Some split: prod.splits)
      have "scale_step ?mgr ?op ''c'' (ae_Status op, log) (ae_Status op1, log1)"
        by (rule scale_step.stored) (use e op False in \<open>simp\<close>)
      with Suc.prems(3) have "(scale_step ?mgr ?op ''c'')\<^sup>*\<^sup>* (fresh_status, []) (ae_Status op1, log1)" by (rule rtranclp.rtrancl_into_rtrancl)
      moreover have "completes ?mgr ''c'' n op1 log1" using Suc.prems(1) e False by (simp add: completes_def)
      ultimately show ?thesis using Suc.IH op1 by blast
    qed
  qed (simp add: completes_def)
  have "completes ?mgr ''c'' 7 ?op []"
    by (rule completes_fresh [OF demo_cooperative demo_class]) (simp_all add: failed_over_def)
  from chain [OF this] obtain st log res op' log' where
    run: "(scale_step ?mgr ?op ''c'')\<^sup>*\<^sup>* (fresh_status, []) (st, log)"
    and ex: "Execute ?mgr (demo_op\<lparr>ae_Status := st\<rparr>) ''c'' log = (res, True, None, op', log')"
    by auto
  have "scale_class ?op = Some ''db.large''" by (simp add: demo_class)
  from scaling_done_means_ready [OF _ this run, of demo_sdk "''eu''" None res op' log'] ex
  have "\<exists>writer readers. SawCluster writer readers \<in> set (db_hist log') \<and> all_ready (db_hist log') (writer # readers) ''db.large''"
    by simp
  with run ex show ?thesis by blast
qed



text \<open>
  Claim C39. An execution never stalls silently: a call of \<open>Execute\<close> that neither finishes nor
  reports an error asks for another reconciliation, at once or after a positive time; unusable
  parameters end the execution with an error before any call to the cloud.
\<close>

theorem execute_never_stalls:
  assumes "Execute mgr op ident w = (res, fin, err, op', w')"
  shows "(\<not> fin \<and> err = None \<longrightarrow> cr_Requeue res \<or> 0 < cr_RequeueAfter res) \<and>
    (scale_class op = None \<longrightarrow> fin \<and> err \<noteq> None \<and> op' = op \<and> w' = w)"
proof (cases "scale_class op")
  case None
  from Execute_None [OF this, of mgr ident w] None assms show ?thesis by auto
next
  case (Some cls)
  with assms asks_again_run_phase [of mgr ident cls "enter_state (ae_Status op)" w] show ?thesis
    by (auto simp: Execute_Some [OF Some] asks_again_def split: prod.splits)
qed

theorem execute_never_stalls_witness:
  "let r = Execute (rdsClusterManager demo_sdk ''eu'' None)
     (demo_op\<lparr>ae_Spec := (ae_Spec demo_op)\<lparr>as_Parameters := ''''\<rparr>\<rparr>) ''c'' []
   in fst (snd r) \<and> fst (snd (snd r)) \<noteq> None \<and> snd (snd (snd (snd r))) = []"
proof -
  let ?op = "demo_op\<lparr>ae_Spec := (ae_Spec demo_op)\<lparr>as_Parameters := ''''\<rparr>\<rparr>"
  let ?r = "Execute (rdsClusterManager demo_sdk ''eu'' None) ?op ''c'' []"
  have none: "scale_class ?op = None"
    by (simp add: scale_class_def Unmarshal_field_def parse_document_def skip_space_def)
  have "?r = (fst ?r, fst (snd ?r), fst (snd (snd ?r)), fst (snd (snd (snd ?r))), snd (snd (snd (snd ?r))))"
    by (simp only: prod.collapse)
  from execute_never_stalls [OF this] none show ?thesis
    unfolding Let_def by blast
qed

text \<open>
  The names survive the stored status: what \<open>Initialization\<close> writes as JSON into the state
  of the execution is read back by the later phases as exactly the writer and the readers the
  cluster was described with, whatever characters the names have and also without any reader.
\<close>

theorem scale_data_roundtrip:
  assumes "phase_Initialization mgr ident st w = (res, fin, None, st', w')"
  shows "\<exists>writer readers. fst (cm_DescribeCluster mgr w ident) = Inr (writer, readers) \<and> writer \<noteq> '''' \<and>
    (\<forall>v. recall_writer mgr ident st' v = (writer, st', v)) \<and> Unmarshal_strings (state_get st' ''readers'') = readers \<and>
    st_Phase st' = (if readers = [] then ''ScalingWriter'' else ''ScalingReplicas'')"
proof -
  obtain writer readers where d: "cm_DescribeCluster mgr w ident = (Inr (writer, readers), w')" and ne: "writer \<noteq> ''''"
    and st': "st' = (state_put ''readers'' (Marshal_strings readers) (state_put ''writer'' writer st))
      \<lparr>st_Phase := if readers = [] then ''ScalingWriter'' else ''ScalingReplicas''\<rparr>"
    using assms by (auto simp: phase_Initialization_def Let_def split: prod.splits sum.splits if_splits)
  have get: "state_get st' ''writer'' = writer" "state_get st' ''readers'' = Marshal_strings readers"
    by (simp_all add: st' state_get_def state_put_def)
  have "recall_writer mgr ident st' v = (writer, st', v)" for v
    by (simp add: recall_writer_def get ne)
  moreover have "st_Phase st' = (if readers = [] then ''ScalingWriter'' else ''ScalingReplicas'')"
    by (simp add: st')
  ultimately show ?thesis using d ne get(2) by auto
qed

theorem scale_data_roundtrip_witness:
  "let st = fst (snd (snd (snd (phase_Initialization (rdsClusterManager demo_sdk ''eu'' None) ''c'' fresh_status []))))
   in Unmarshal_strings (state_get st ''readers'') = [''b''] \<and> st_Phase st = ''ScalingReplicas''"
proof -
  let ?mgr = "rdsClusterManager demo_sdk ''eu'' None"
  let ?r = "phase_Initialization ?mgr ''c'' fresh_status []"
  have d: "fst (cm_DescribeCluster ?mgr [] ''c'') = Inr (''a'', [''b''])"
    by (simp add: rdsClusterManager_def manager_on_def demo_describe)
      (simp add: failed_over_def demo_sdk_def pick_cluster_def members_of_def)
  have "fst (snd (snd ?r)) = None"
    using d by (cases "cm_DescribeCluster ?mgr [] ''c''") (simp add: phase_Initialization_def Let_def)
  then have "?r = (fst ?r, fst (snd ?r), None, fst (snd (snd (snd ?r))), snd (snd (snd (snd ?r))))"
    by (metis prod.collapse)
  from scale_data_roundtrip [OF this] d show ?thesis
    unfolding Let_def by auto
qed

end
