(* ===== verification/Go_Duration.thy ===== *)
theory Go_Duration
  imports Json
begin

text \<open>
  Durations of the standard library as the operator uses them: \<^verbatim>\<open>time.Duration.String\<close>, which
  prints the time limit into the message of a timed-out execution, and \<^verbatim>\<open>time.ParseDuration\<close>,
  which reads the setting of the limit, with its 64-bit overflow checks and its one use of floating
  point. A duration is a number of nanoseconds. An error of \<^verbatim>\<open>ParseDuration\<close> is only logged,
  so its text is left out.
\<close>

section \<open>Printing\<close>

text \<open>The verb \<^verbatim>\<open>%v\<close> on a duration, as \<^verbatim>\<open>time.Duration.String\<close> prints it: a fraction without
  trailing zeros, and the units hours, minutes and seconds from the first that is not zero.\<close>

fun fmtFrac :: "nat \<Rightarrow> nat \<Rightarrow> string" where
  "fmtFrac v 0 = ''''"
| "fmtFrac v (Suc prec) = (if v mod 10 = 0 then fmtFrac (v div 10) prec
     else ''.'' @ rev (map (\<lambda>k. char_of (48 + (v div 10 ^ k) mod 10)) [0..<Suc prec]))"

definition Duration_String :: "int \<Rightarrow> string" where
  "Duration_String d =
     (let u = nat \<bar>d\<bar>; sign = (if d < 0 then ''-'' else '''') in
      if u = 0 then ''0s''
      else if u < 1000 then sign @ show_nat u @ ''ns''
      else if u < 1000000 then sign @ show_nat (u div 1000) @ fmtFrac (u mod 1000) 3 @ [char_of (0xC2::nat), char_of (0xB5::nat)] @ ''s''
      else if u < 1000000000 then sign @ show_nat (u div 1000000) @ fmtFrac (u mod 1000000) 6 @ ''ms''
      else (let secs = u div 1000000000; frac = fmtFrac (u mod 1000000000) 9;
                h = secs div 3600; m = secs div 60 in
            sign @ (if 0 < h then show_nat h @ ''h'' else '''') @ (if 0 < m then show_nat (m mod 60) @ ''m'' else '''') @
            show_nat (secs mod 60) @ frac @ ''s''))"

section \<open>Floating point\<close>

text \<open>
  A non-negative IEEE 754 double as a fraction of naturals, rounded to 53 bits, ties to even. The
  numbers met here are far from the ends of the exponent range.
\<close>

fun bits :: "nat \<Rightarrow> nat" where
  "bits n = (if n = 0 then 0 else Suc (bits (n div 2)))"

declare bits.simps [simp del]

definition round_even :: "nat \<Rightarrow> nat \<Rightarrow> nat" where
  "round_even n d =
     (let q = n div d; r = n mod d in if 2 * r < d \<or> (2 * r = d \<and> even q) then q else Suc q)"

definition float64 :: "nat \<times> nat \<Rightarrow> nat \<times> nat" where
  "float64 x =
     (case x of (n, d) \<Rightarrow>
       (let up = 53 + bits d - bits n;
            down = bits n - (53 + bits d);
            down' = (if n * 2 ^ up < 2 ^ 53 * (d * 2 ^ down) then down else Suc down)
        in (round_even (n * 2 ^ up) (d * 2 ^ down') * 2 ^ down', 2 ^ up)))"

definition float_mult :: "nat \<times> nat \<Rightarrow> nat \<times> nat \<Rightarrow> nat \<times> nat" where
  "float_mult x y = float64 (fst x * fst y, snd x * snd y)"

definition float_div :: "nat \<times> nat \<Rightarrow> nat \<times> nat \<Rightarrow> nat \<times> nat" where
  "float_div x y = float64 (fst x * snd y, snd x * fst y)"

text \<open>\<^verbatim>\<open>uint64(float64(f) * (float64(unit) / scale))\<close>\<close>

definition fraction_nanos :: "nat \<Rightarrow> nat \<Rightarrow> nat \<Rightarrow> nat" where
  "fraction_nanos f unit scale =
     (let p = float_mult (float64 (f, 1)) (float_div (float64 (unit, 1)) (float64 (scale, 1)))
      in fst p div snd p)"

lemma bits_less: "n < 2 ^ bits n"
proof (induction n rule: bits.induct)
  case (1 n)
  show ?case
  proof (cases "n = 0")
    case False
    then have "n div 2 < 2 ^ bits (n div 2)" using 1 by simp
    then show ?thesis using False by (subst bits.simps) simp
  qed (simp add: bits.simps)
qed

lemma bits_ge: "0 < n \<Longrightarrow> 2 ^ bits n \<le> 2 * n"
proof (induction n rule: bits.induct)
  case (1 n)
  show ?case
  proof (cases "n = 1")
    case True
    then show ?thesis by (simp add: bits.simps)
  next
    case False
    with 1 have "2 ^ bits (n div 2) \<le> 2 * (n div 2)" by simp
    also have "\<dots> \<le> n" by simp
    finally show ?thesis using 1(2) by (subst bits.simps) simp
  qed
qed

lemma round_even_dvd: "d dvd n \<Longrightarrow> 0 < d \<Longrightarrow> round_even n d = n div d"
  by (simp add: round_even_def mod_eq_0_iff_dvd)

text \<open>A natural number of at most 53 bits is a double.\<close>

lemma float64_exact:
  assumes "0 < d" and "k < 2 ^ 53"
  obtains e where "0 < e" and "float64 (k * d, d) = (k * e, e)"
proof -
  let ?n = "k * d"
  let ?up = "53 + bits d - bits ?n"
  have down: "bits ?n - (53 + bits d) = 0"
  proof (rule ccontr)
    assume "bits ?n - (53 + bits d) \<noteq> 0"
    then have less: "53 + bits d < bits ?n" by simp
    have "0 < ?n" using less by (cases ?n) (simp_all add: bits.simps)
    from less have "2 ^ Suc (53 + bits d) \<le> (2 :: nat) ^ bits ?n" by (intro power_increasing) simp_all
    also have "\<dots> \<le> 2 * ?n" using bits_ge [OF \<open>0 < ?n\<close>] .
    finally have "2 ^ 53 * 2 ^ bits d \<le> ?n" by (simp add: power_add ac_simps)
    moreover have "?n < 2 ^ 53 * 2 ^ bits d"
      using assms(2) bits_less [of d] by (intro mult_strict_mono) simp_all
    ultimately show False by simp
  qed
  show thesis
  proof (cases "?n * 2 ^ ?up < 2 ^ 53 * d")
    case True
    then have "float64 (?n, d) = (round_even (?n * 2 ^ ?up) d, 2 ^ ?up)"
      by (simp add: float64_def down Let_def)
    also have "round_even (?n * 2 ^ ?up) d = k * 2 ^ ?up"
      using assms(1) by (simp add: round_even_dvd mult.assoc mult.left_commute [of k d])
    finally show thesis by (intro that [of "2 ^ ?up"]) simp_all
  next
    case False
    have "?up \<noteq> 0"
    proof
      assume "?up = 0"
      with False assms show False by simp
    qed
    then obtain u where u: "?up = Suc u" by (cases ?up) simp_all
    have "float64 (?n, d) = (round_even (?n * 2 ^ ?up) (d * 2) * 2, 2 ^ ?up)"
      using False by (auto simp: float64_def down Let_def)
    also have "?n * 2 ^ ?up = k * 2 ^ u * (d * 2)" by (simp add: u)
    also have "round_even (k * 2 ^ u * (d * 2)) (d * 2) = k * 2 ^ u"
      using assms(1) by (subst round_even_dvd) simp_all
    finally show thesis by (intro that [of "2 ^ ?up"]) (simp_all add: u)
  qed
qed

lemma float64_nat:
  assumes "k < 2 ^ 53"
  obtains e where "0 < e" and "float64 (k, 1) = (k * e, e)"
  using float64_exact [of 1 k] assms by auto

lemma fraction_nanos_exact:
  assumes "f < 2 ^ 53" and "unit < 2 ^ 53" and "scale < 2 ^ 53" and "0 < scale" and "scale dvd unit" and "f * (unit div scale) < 2 ^ 53"
  shows "fraction_nanos f unit scale = f * (unit div scale)"
proof -
  obtain a where a: "0 < a" "float64 (f, 1) = (f * a, a)" by (rule float64_nat [OF assms(1)])
  obtain b where b: "0 < b" "float64 (unit, 1) = (unit * b, b)" by (rule float64_nat [OF assms(2)])
  obtain c where c: "0 < c" "float64 (scale, 1) = (scale * c, c)" by (rule float64_nat [OF assms(3)])
  obtain q where q: "unit = scale * q" using assms(5) by (rule dvdE)
  have "q \<le> unit" using assms(4) by (simp add: q)
  with assms(2) have "q < 2 ^ 53" by simp
  with b c assms(4) obtain d where d: "0 < d" "float64 (q * (b * (scale * c)), b * (scale * c)) = (q * d, d)"
    by (rule_tac float64_exact [of "b * (scale * c)" q]) simp_all
  have div: "float_div (float64 (unit, 1)) (float64 (scale, 1)) = (q * d, d)"
  proof -
    have "float_div (unit * b, b) (scale * c, c) = float64 (q * (b * (scale * c)), b * (scale * c))"
      by (simp add: float_div_def q ac_simps)
    then show ?thesis by (simp only: b(2) c(2) d(2))
  qed
  have fq: "unit div scale = q" using assms(4) by (simp add: q)
  obtain e where e: "0 < e" "float64 (f * q * (a * d), a * d) = (f * q * e, e)"
    using float64_exact [of "a * d" "f * q"] a d assms(6) fq by auto
  have "float_mult (float64 (f, 1)) (q * d, d) = (f * q * e, e)"
  proof -
    have "float_mult (f * a, a) (q * d, d) = float64 (f * q * (a * d), a * d)"
      by (simp add: float_mult_def ac_simps)
    then show ?thesis by (simp only: a(2) e(2))
  qed
  with div e(1) show ?thesis
    by (simp add: fraction_nanos_def fq)
qed

section \<open>Parsing\<close>

definition digit_value :: "char \<Rightarrow> nat" where
  "digit_value c = of_char c - 48"

fun leadingInt :: "nat \<Rightarrow> string \<Rightarrow> (nat \<times> string) option" where
  "leadingInt x [] = Some (x, [])"
| "leadingInt x (c # s) =
     (if \<not> is_digit c then Some (x, c # s)
      else if x > 2 ^ 63 div 10 then None
      else (let x' = x * 10 + digit_value c in if x' > 2 ^ 63 then None else leadingInt x' s))"

text \<open>The value, the scale and the rest; once the value would overflow, further digits are skipped.\<close>

fun leadingFraction :: "nat \<Rightarrow> nat \<Rightarrow> bool \<Rightarrow> string \<Rightarrow> nat \<times> nat \<times> string" where
  "leadingFraction x scale overflow [] = (x, scale, [])"
| "leadingFraction x scale overflow (c # s) =
     (if \<not> is_digit c then (x, scale, c # s)
      else if overflow then leadingFraction x scale overflow s
      else if x > (2 ^ 63 - 1) div 10 then leadingFraction x scale True s
      else (let y = x * 10 + digit_value c
            in if y > 2 ^ 63 then leadingFraction x scale True s else leadingFraction y (scale * 10) False s))"

text \<open>The units; the micro sign is U+00B5 or the Greek letter U+03BC, in UTF-8.\<close>

definition unitMap :: "string \<Rightarrow> nat option" where
  "unitMap u =
     (if u = ''ns'' then Some 1
      else if u = ''us'' \<or> u = [char_of (0xC2::nat), char_of (0xB5::nat)] @ ''s'' \<or> u = [char_of (0xCE::nat), char_of (0xBC::nat)] @ ''s''
      then Some 1000
      else if u = ''ms'' then Some 1000000
      else if u = ''s'' then Some 1000000000
      else if u = ''m'' then Some 60000000000
      else if u = ''h'' then Some 3600000000000
      else None)"

text \<open>One number with its unit, in nanoseconds, and the rest of the input.\<close>

definition unit_char :: "char \<Rightarrow> bool" where
  "unit_char c \<longleftrightarrow> c \<noteq> CHR ''.'' \<and> \<not> is_digit c"

definition parse_segment :: "string \<Rightarrow> (nat \<times> string) option" where
  "parse_segment s =
     (if s = [] \<or> unit_char (hd s) then None
      else (case leadingInt 0 s of
          None \<Rightarrow> None
        | Some (v, s1) \<Rightarrow>
            (let pre = (length s1 \<noteq> length s);
                 dot = (s1 \<noteq> [] \<and> hd s1 = CHR ''.'');
                 (f, scale, s2) = (if dot then leadingFraction 0 1 False (tl s1) else (0, 1, s1));
                 post = (dot \<and> length s2 \<noteq> length (tl s1));
                 u = takeWhile unit_char s2
             in if \<not> pre \<and> \<not> post then None
                else if u = [] then None
                else (case unitMap u of
                    None \<Rightarrow> None
                  | Some unit \<Rightarrow>
                      if v > 2 ^ 63 div unit then None
                      else (let v' = v * unit + (if f > 0 then fraction_nanos f unit scale else 0)
                            in if f > 0 \<and> v' > 2 ^ 63 then None
                               else Some (v', dropWhile unit_char s2))))))"

lemma leadingInt_length: "leadingInt x s = Some (v, t) \<Longrightarrow> length t \<le> length s"
  by (induction x s rule: leadingInt.induct) (auto simp: Let_def split: if_splits)

lemma leadingFraction_length: "leadingFraction x sc ov s = (f, sc', t) \<Longrightarrow> length t \<le> length s"
  by (induction x sc ov s rule: leadingFraction.induct) (force simp: Let_def split: if_splits)+

lemma parse_segment_length:
  assumes "parse_segment s = Some (v, t)"
  shows "length t < length s"
proof -
  obtain x s1 where int: "leadingInt 0 s = Some (x, s1)"
    using assms by (auto simp: parse_segment_def split: option.splits if_splits)
  define dot where "dot = (s1 \<noteq> [] \<and> hd s1 = CHR ''.'')"
  obtain f sc s2 where fr: "(if dot then leadingFraction 0 1 False (tl s1) else (0, 1, s1)) = (f, sc, s2)"
    by (rule prod_cases3)
  have "takeWhile unit_char s2 \<noteq> []" and t: "t = dropWhile unit_char s2"
    using assms by (auto simp: parse_segment_def int fr dot_def [symmetric] Let_def split: option.splits if_splits)
  then have "length t < length s2"
    by (metis add_diff_cancel_left' append_Nil2 length_append length_greater_0_conv less_add_same_cancel2 takeWhile_dropWhile_id)
  moreover have "length s2 \<le> length s1"
  proof (cases dot)
    case True
    with fr have "leadingFraction 0 1 False (tl s1) = (f, sc, s2)" by simp
    from leadingFraction_length [OF this] show ?thesis by simp
  qed (use fr in simp)
  ultimately show ?thesis using leadingInt_length [OF int] by simp
qed

text \<open>The loop over the segments; the sum of two 64-bit numbers wraps.\<close>

function duration_loop :: "nat \<Rightarrow> string \<Rightarrow> nat option" where
  "duration_loop d s =
     (if s = [] then Some d
      else (case parse_segment s of
          None \<Rightarrow> None
        | Some (v, t) \<Rightarrow> (let d' = (d + v) mod 2 ^ 64 in if d' > 2 ^ 63 then None else duration_loop d' t)))"
  by auto
termination
  by (relation "measure (\<lambda>(d, s). length s)") (auto dest: parse_segment_length)

declare duration_loop.simps [simp del]

definition ParseDuration :: "string \<Rightarrow> int option" where
  "ParseDuration orig =
     (let neg = (orig \<noteq> [] \<and> hd orig = CHR ''-'');
          s = (if orig \<noteq> [] \<and> (hd orig = CHR ''-'' \<or> hd orig = CHR ''+'') then tl orig else orig)
      in if s = ''0'' then Some 0
         else if s = [] then None
         else (case duration_loop 0 s of
             None \<Rightarrow> None
           | Some d \<Rightarrow> if neg then Some (- int d) else if d > 2 ^ 63 - 1 then None else Some (int d)))"

section \<open>Reading back what was printed\<close>

definition digit :: "nat \<Rightarrow> char" where
  "digit k = char_of (48 + k)"

lemma digit_simps [simp]:
  assumes "k < 10"
  shows "is_digit (digit k)" and "digit_value (digit k) = k" and "digit k \<noteq> CHR ''.''"
    and "digit k \<noteq> CHR ''-''" and "digit k \<noteq> CHR ''+''" and "\<not> unit_char (digit k)"
proof -
  have val: "(of_char (digit k) :: nat) = 48 + k"
    using assms by (simp add: digit_def)
  show "is_digit (digit k)" and "digit_value (digit k) = k"
    using assms by (simp_all add: is_digit_def digit_value_def val)
  then show "\<not> unit_char (digit k)" by (simp add: unit_char_def)
  show "digit k \<noteq> CHR ''.''" and "digit k \<noteq> CHR ''-''" and "digit k \<noteq> CHR ''+''"
    using val by auto
qed

lemma digit_0: "digit 0 = CHR ''0''"
  by code_simp

lemma show_nat_digit: "show_nat n = (if n < 10 then [digit n] else show_nat (n div 10) @ [digit (n mod 10)])"
  by (subst show_nat.simps) (simp add: digit_def)

lemma hd_show_nat: "\<exists>k < 10. hd (show_nat n) = digit k"
proof (induction n rule: show_nat.induct)
  case (1 n)
  show ?case
  proof (cases "n < 10")
    case True
    then show ?thesis by (auto simp: show_nat_digit [of n])
  next
    case False
    with 1 show ?thesis by (auto simp: show_nat_digit [of n] hd_append)
  qed
qed

definition no_digit_first :: "string \<Rightarrow> bool" where
  "no_digit_first t \<longleftrightarrow> t = [] \<or> \<not> is_digit (hd t)"

lemma leadingInt_stop: "no_digit_first t \<Longrightarrow> leadingInt x t = Some (x, t)"
  by (cases t) (auto simp: no_digit_first_def)

lemma leadingInt_show_nat: "n \<le> 2 ^ 63 \<Longrightarrow> leadingInt 0 (show_nat n @ t) = leadingInt n t"
proof (induction n arbitrary: t rule: show_nat.induct)
  case (1 n)
  show ?case
  proof (cases "n < 10")
    case True
    then show ?thesis by (simp add: show_nat_digit [of n])
  next
    case False
    have le: "n div 10 \<le> 2 ^ 63 div 10" using "1.prems" by (rule div_le_mono)
    have "leadingInt 0 (show_nat n @ t) = leadingInt (n div 10) (digit (n mod 10) # t)"
      using 1 False by (simp add: show_nat_digit [of n])
    also have "\<dots> = leadingInt (n div 10 * 10 + n mod 10) t"
      using le "1.prems" by (simp add: Let_def)
    finally show ?thesis by simp
  qed
qed

text \<open>\<open>n\<close> digits of \<open>v\<close>, with leading zeros, as a fraction prints them.\<close>

definition digits_of :: "nat \<Rightarrow> nat \<Rightarrow> string" where
  "digits_of v n = rev (map (\<lambda>k. digit (v div 10 ^ k mod 10)) [0..<n])"

lemma digits_of_Suc: "digits_of v (Suc n) = digit (v div 10 ^ n mod 10) # digits_of v n"
  by (simp add: digits_of_def)

lemma leadingFraction_digits:
  "x * 10 ^ n + v mod 10 ^ n \<le> (2 ^ 63 - 1) div 10 \<Longrightarrow>
     leadingFraction x sc False (digits_of v n @ t) = leadingFraction (x * 10 ^ n + v mod 10 ^ n) (sc * 10 ^ n) False t"
proof (induction n arbitrary: x sc)
  case 0
  then show ?case by (simp add: digits_of_def)
next
  case (Suc n)
  let ?y = "x * 10 + v div 10 ^ n mod 10"
  have split: "x * 10 ^ Suc n + v mod 10 ^ Suc n = ?y * 10 ^ n + v mod 10 ^ n"
    using mod_mult2_eq [of v "10 ^ n" 10] by (simp add: algebra_simps)
  have bound: "?y \<le> (2 ^ 63 - 1) div 10"
  proof -
    have "?y \<le> ?y * 10 ^ n + v mod 10 ^ n" by (simp add: trans_le_add1)
    then show ?thesis using Suc.prems unfolding split by linarith
  qed
  have "leadingFraction x sc False (digits_of v (Suc n) @ t) = leadingFraction ?y (sc * 10) False (digits_of v n @ t)"
    using bound by (simp add: digits_of_Suc Let_def)
  also have "\<dots> = leadingFraction (?y * 10 ^ n + v mod 10 ^ n) (sc * 10 * 10 ^ n) False t"
    using Suc.prems unfolding split by (rule Suc.IH)
  finally show ?case by (simp only: split) (simp add: mult.assoc)
qed

lemma fmtFrac_digits:
  assumes "v < 10 ^ n"
  shows "v = 0 \<and> fmtFrac v n = '''' \<or>
    (\<exists>j < n. 10 ^ j dvd v \<and> 0 < v \<and> fmtFrac v n = ''.'' @ digits_of (v div 10 ^ j) (n - j))"
  using assms
proof (induction v n rule: fmtFrac.induct)
  case (2 v n)
  show ?case
  proof (cases "v mod 10 = 0")
    case True
    with 2 have "v div 10 < 10 ^ n" by (simp add: div_less_iff_less_mult)
    from 2(1) [OF True this] show ?thesis
    proof (elim disjE exE conjE)
      fix j assume j: "j < n" "10 ^ j dvd v div 10" "0 < v div 10"
        "fmtFrac (v div 10) n = ''.'' @ digits_of (v div 10 div 10 ^ j) (n - j)"
      from True j(2) have "10 ^ Suc j dvd v" by (auto simp: dvd_def)
      moreover have "v div 10 div 10 ^ j = v div 10 ^ Suc j" by (simp add: div_mult2_eq)
      ultimately show ?thesis using j True by (intro disjI2 exI [of _ "Suc j"]) simp
    qed (use True in auto)
  next
    case False
    then show ?thesis by (intro disjI2 exI [of _ 0]) (auto simp: digits_of_def digit_def)
  qed
qed simp

lemma unit_text:
  assumes "u \<noteq> []" and "\<forall>c \<in> set u. unit_char c"
  shows "no_digit_first (u @ rest)" and "hd (u @ rest) \<noteq> CHR ''.''"
    and "rest = [] \<or> \<not> unit_char (hd rest) \<Longrightarrow> takeWhile unit_char (u @ rest) = u"
    and "rest = [] \<or> \<not> unit_char (hd rest) \<Longrightarrow> dropWhile unit_char (u @ rest) = rest"
proof -
  have hd: "unit_char (hd u)" using assms by simp
  then show "no_digit_first (u @ rest)" and "hd (u @ rest) \<noteq> CHR ''.''"
    using assms(1) by (simp_all add: no_digit_first_def unit_char_def)
  assume "rest = [] \<or> \<not> unit_char (hd rest)"
  then have "takeWhile unit_char rest = []" and "dropWhile unit_char rest = rest"
    by (cases rest; simp)+
  with assms(2) show "takeWhile unit_char (u @ rest) = u" and "dropWhile unit_char (u @ rest) = rest"
    by (simp_all add: takeWhile_append dropWhile_append)
qed

lemma leadingFraction_stop: "no_digit_first t \<Longrightarrow> leadingFraction x sc False t = (x, sc, t)"
  by (cases t) (auto simp: no_digit_first_def)

lemma parse_segment_print:
  assumes unit: "unitMap u = Some unit" "u \<noteq> []" "\<forall>c \<in> set u. unit_char c" "unit < 2 ^ 53" "0 < unit"
    and prec: "prec \<le> 9" "10 ^ prec dvd unit" "r < 10 ^ prec"
    and rest: "rest = [] \<or> \<not> unit_char (hd rest)"
    and bound: "v * unit + r * (unit div 10 ^ prec) \<le> 2 ^ 63"
  shows "parse_segment (show_nat v @ fmtFrac r prec @ u @ rest) = Some (v * unit + r * (unit div 10 ^ prec), rest)"
proof -
  let ?F = "fmtFrac r prec" and ?t = "fmtFrac r prec @ u @ rest"
  let ?s = "show_nat v @ ?t"
  note ut = unit_text [OF unit(2,3), of rest]
  have vu: "v * unit \<le> 2 ^ 63" using bound by linarith
  then have v1: "v \<le> 2 ^ 63 div unit" using unit(5) by (simp add: less_eq_div_iff_mult_less_eq)
  have "v \<le> v * unit" using unit(5) by simp
  then have v2: "v \<le> 2 ^ 63" using vu by (rule le_trans)
  obtain k where "k < 10" "hd (show_nat v) = digit k" using hd_show_nat by blast
  then have start: "\<not> (?s = [] \<or> unit_char (hd ?s))" by simp
  have len: "length ?t \<noteq> length ?s" by simp
  from fmtFrac_digits [OF prec(3)] show ?thesis
  proof (elim disjE exE conjE)
    assume F: "?F = ''''" and "r = 0"
    have "leadingInt 0 ?s = Some (v, u @ rest)"
      using leadingInt_show_nat [OF v2, of "u @ rest"] leadingInt_stop [OF ut(1), of v] by (simp add: F)
    with start len ut(2-4) rest unit v1 show ?thesis
      by (simp add: parse_segment_def F \<open>r = 0\<close> Let_def)
  next
    fix j assume j: "j < prec" "10 ^ j dvd r" "0 < r" and F: "?F = ''.'' @ digits_of (r div 10 ^ j) (prec - j)"
    define w where "w = r div 10 ^ j"
    define m where "m = prec - j"
    have pm: "prec = j + m" using j(1) by (simp add: m_def)
    have rw: "r = w * 10 ^ j" using j(2) by (simp add: w_def)
    have w: "w < 10 ^ m"
    proof -
      have "w * 10 ^ j < 10 ^ m * 10 ^ j" using prec(3) by (simp add: rw [symmetric] pm power_add ac_simps)
      then show ?thesis by simp
    qed
    obtain q where q: "unit = 10 ^ prec * q" using prec(2) by (rule dvdE)
    have "no_digit_first (CHR ''.'' # x)" for x by (simp add: no_digit_first_def is_digit_def)
    then have int: "leadingInt 0 (show_nat v @ CHR ''.'' # digits_of w m @ u @ rest) = Some (v, CHR ''.'' # digits_of w m @ u @ rest)"
      using leadingInt_show_nat [OF v2] by (simp add: leadingInt_stop del: leadingInt.simps)
    have m9: "(10::nat) ^ m \<le> 10 ^ 9" using prec(1) pm by (intro power_increasing) simp_all
    have frac: "leadingFraction 0 1 False (digits_of w m @ u @ rest) = (w, 10 ^ m, u @ rest)"
      using leadingFraction_digits [of 0 m w 1 "u @ rest"] w m9 leadingFraction_stop [OF ut(1)] by simp
    have "unit div 10 ^ m = 10 ^ j * q" by (simp add: q pm power_add ac_simps)
    moreover have "unit div 10 ^ prec = q" by (simp add: q)
    ultimately have same: "w * (unit div 10 ^ m) = r * (unit div 10 ^ prec)" by (simp add: rw)
    have "w * (unit div 10 ^ m) < 10 ^ m * (unit div 10 ^ m)"
    proof -
      have "0 < 10 ^ j * q" using unit(5) q by simp
      with w show ?thesis unfolding \<open>unit div 10 ^ m = 10 ^ j * q\<close> by simp
    qed
    also have "\<dots> \<le> unit" by simp
    finally have "w * (unit div 10 ^ m) < 2 ^ 53" using unit(4) by linarith
    moreover have "10 ^ m dvd unit" by (simp add: q pm power_add)
    ultimately have nanos: "fraction_nanos w unit (10 ^ m) = r * (unit div 10 ^ prec)"
      using w m9 unit(4) same by (subst fraction_nanos_exact) simp_all
    have "w \<noteq> 0" using j(3) rw by auto
    with start len ut(2-4) rest unit v1 bound show ?thesis
      by (simp add: parse_segment_def int F w_def [symmetric] m_def [symmetric] frac nanos Let_def del: One_nat_def)
  qed
qed

text \<open>One turn of the loop over a printed number and its unit.\<close>

lemma duration_loop_print:
  assumes "unitMap u = Some unit" "u \<noteq> []" "\<forall>c \<in> set u. unit_char c" "unit < 2 ^ 53" "0 < unit"
    and "prec \<le> 9" "10 ^ prec dvd unit" "r < 10 ^ prec" "rest = [] \<or> \<not> unit_char (hd rest)"
    and bound: "d + v * unit + r * (unit div 10 ^ prec) \<le> 2 ^ 63"
  shows "duration_loop d (show_nat v @ fmtFrac r prec @ u @ rest) = duration_loop (d + v * unit + r * (unit div 10 ^ prec)) rest"
proof -
  have "v * unit + r * (unit div 10 ^ prec) \<le> 2 ^ 63" using bound by simp
  then have seg: "parse_segment (show_nat v @ fmtFrac r prec @ u @ rest) = Some (v * unit + r * (unit div 10 ^ prec), rest)"
    by (rule parse_segment_print [OF assms(1-9)])
  have "(d + v * unit + r * (unit div 10 ^ prec)) mod 2 ^ 64 = d + v * unit + r * (unit div 10 ^ prec)"
    using bound by simp
  with bound seg show ?thesis
    by (subst duration_loop.simps) (simp add: Let_def add.assoc)
qed

lemma duration_units [simp]:
  "unitMap ''ns'' = Some 1" "unitMap [char_of (0xC2::nat), char_of (0xB5::nat), CHR ''s''] = Some 1000" "unitMap ''ms'' = Some 1000000"
  "unitMap ''s'' = Some 1000000000" "unitMap ''m'' = Some 60000000000" "unitMap ''h'' = Some 3600000000000"
  by (simp_all add: unitMap_def)

lemma unit_char_char_of:
  assumes "n < 256" and "n \<noteq> 46" and "n < 48 \<or> 57 < n"
  shows "unit_char (char_of (n::nat))"
proof -
  have val: "(of_char (char_of n :: char) :: nat) = n" using assms(1) by simp
  have "char_of n \<noteq> CHR ''.''"
  proof
    assume "char_of n = CHR ''.''"
    with val have "n = of_char (CHR ''.'')" by metis
    with assms(2) show False by simp
  qed
  then show ?thesis using assms(1,3) by (auto simp: unit_char_def is_digit_def Let_def)
qed

lemma unit_chars [simp]:
  "unit_char CHR ''n''" "unit_char CHR ''s''" "unit_char CHR ''m''" "unit_char CHR ''h''"
  "unit_char (char_of (0xC2::nat))" "unit_char (char_of (0xB5::nat))"
  by (simp_all add: unit_char_char_of) (simp_all add: unit_char_def is_digit_def)

lemma not_unit_char_show_nat [simp]: "\<not> unit_char (hd (show_nat n))"
  using hd_show_nat [of n] by auto

definition magnitude_text :: "nat \<Rightarrow> string" where
  "magnitude_text u =
     (if u < 1000 then show_nat u @ ''ns''
      else if u < 1000000 then show_nat (u div 1000) @ fmtFrac (u mod 1000) 3 @ [char_of (0xC2::nat), char_of (0xB5::nat)] @ ''s''
      else if u < 1000000000 then show_nat (u div 1000000) @ fmtFrac (u mod 1000000) 6 @ ''ms''
      else (let secs = u div 1000000000; h = secs div 3600; m = secs div 60 in
            (if 0 < h then show_nat h @ ''h'' else '''') @ (if 0 < m then show_nat (m mod 60) @ ''m'' else '''') @
            show_nat (secs mod 60) @ fmtFrac (u mod 1000000000) 9 @ ''s''))"

lemma Duration_String_magnitude:
  "Duration_String d = (if d = 0 then ''0s'' else (if d < 0 then ''-'' else '''') @ magnitude_text (nat \<bar>d\<bar>))"
  by (simp add: Duration_String_def magnitude_text_def Let_def)

lemma duration_loop_magnitude:
  assumes "u \<le> 2 ^ 63"
  shows "duration_loop 0 (magnitude_text u) = Some u"
proof -
  have stop: "duration_loop x [] = Some x" for x by (simp add: duration_loop.simps)
  consider "u < 1000" | "1000 \<le> u" "u < 1000000" | "1000000 \<le> u" "u < 1000000000" | "1000000000 \<le> u" by linarith
  then show ?thesis
  proof cases
    case 1
    then show ?thesis
      using duration_loop_print [of "''ns''" 1 0 0 "[]" 0 u] assms by (simp add: magnitude_text_def stop)
  next
    case 2
    then show ?thesis
      using duration_loop_print [of "[char_of (0xC2::nat), char_of (0xB5::nat)] @ ''s''" 1000 3 "u mod 1000" "[]" 0 "u div 1000"] assms
      by (simp add: magnitude_text_def stop)
  next
    case 3
    then show ?thesis
      using duration_loop_print [of "''ms''" 1000000 6 "u mod 1000000" "[]" 0 "u div 1000000"] assms
      by (simp add: magnitude_text_def stop)
  next
    case 4
    define secs where "secs = u div 1000000000"
    let ?h = "secs div 3600" and ?m = "secs div 60 mod 60" and ?s = "secs mod 60" and ?n = "u mod 1000000000"
    have sum: "?h * 3600000000000 + ?m * 60000000000 + ?s * 1000000000 + ?n = u"
    proof -
      have "?h = secs div 60 div 60" by (simp add: div_mult2_eq [symmetric])
      moreover have "secs div 60 * 60 + ?s = secs" and "secs div 60 div 60 * 60 + ?m = secs div 60"
        by (simp_all only: div_mult_mod_eq)
      ultimately have "?h * 3600 + ?m * 60 + ?s = secs" by linarith
      then have "(?h * 3600 + ?m * 60 + ?s) * 1000000000 + ?n = u" by (simp add: secs_def)
      then show ?thesis by simp
    qed
    let ?S = "show_nat ?s @ fmtFrac ?n 9 @ ''s'' @ []"
    let ?M = "(if 0 < secs div 60 then show_nat ?m @ ''m'' else '''') @ ?S"
    have first: "rest = [] \<or> \<not> unit_char (hd rest)" if "rest \<in> {?S, ?M}" for rest
      using that by (cases "0 < secs div 60") auto
    have S: "duration_loop (?h * 3600000000000 + ?m * 60000000000) ?S = Some u"
      using duration_loop_print [of "''s''" 1000000000 9 ?n "[]" "?h * 3600000000000 + ?m * 60000000000" ?s] sum assms
      by (simp add: stop)
    have M: "duration_loop (?h * 3600000000000) ?M = Some u"
    proof (cases "0 < secs div 60")
      case True
      have "?h * 3600000000000 + ?m * 60000000000 \<le> 2 ^ 63" using sum assms by linarith
      then show ?thesis
        using duration_loop_print [of "''m''" 60000000000 0 0 ?S "?h * 3600000000000" ?m] S True first [of ?S] by simp
    next
      case False
      then have "?m = 0" by simp
      with S False show ?thesis by simp
    qed
    have "duration_loop 0 ((if 0 < ?h then show_nat ?h @ ''h'' else '''') @ ?M) = Some u"
    proof (cases "0 < ?h")
      case True
      have "?h * 3600000000000 \<le> 2 ^ 63" using sum assms by linarith
      then show ?thesis
        using duration_loop_print [of "''h''" 3600000000000 0 0 ?M 0 ?h] M True first [of ?M] by simp
    qed (use M in simp)
    moreover have "magnitude_text u = (if 0 < ?h then show_nat ?h @ ''h'' else '''') @ ?M"
      using 4 by (simp add: magnitude_text_def Let_def secs_def [symmetric] del: div_eq_0_iff)
    ultimately show ?thesis by simp
  qed
qed

lemma magnitude_text_start:
  obtains k t where "k < 10" "magnitude_text u = digit k # t" "t \<noteq> []"
proof -
  have number: "\<exists>k < 10. \<exists>t'. show_nat n @ t = digit k # t' \<and> t' \<noteq> []" if "t \<noteq> []" for n t
  proof -
    obtain k where "k < 10" "hd (show_nat n) = digit k" using hd_show_nat by blast
    then show ?thesis using that by (cases "show_nat n") auto
  qed
  have "\<exists>k < 10. \<exists>t. magnitude_text u = digit k # t \<and> t \<noteq> []"
    by (auto simp: magnitude_text_def Let_def intro!: number)
  then show thesis using that by blast
qed

lemma ParseDuration_String:
  assumes "- (2 ^ 63) \<le> d" and "d < 2 ^ 63"
  shows "ParseDuration (Duration_String d) = Some d"
proof (cases "d = 0")
  case True
  have "ParseDuration ''0s'' = Some 0"
    using duration_loop_print [of "''s''" 1000000000 0 0 "[]" 0 0]
    by (simp add: ParseDuration_def show_nat_digit [of 0] digit_0 duration_loop.simps [of _ "[]"])
  with True show ?thesis by (simp add: Duration_String_magnitude)
next
  case False
  let ?u = "nat \<bar>d\<bar>"
  obtain k t where kt: "k < 10" "magnitude_text ?u = digit k # t" "t \<noteq> []" by (rule magnitude_text_start)
  have u: "?u \<le> 2 ^ 63" using assms by (simp add: nat_le_iff)
  note loop = duration_loop_magnitude [OF u]
  show ?thesis
  proof (cases "d < 0")
    case True
    then show ?thesis
      using loop kt by (simp add: Duration_String_magnitude ParseDuration_def)
  next
    case pos: False
    with assms have "?u \<le> 2 ^ 63 - 1" by simp
    with pos False show ?thesis
      using loop kt by (simp add: Duration_String_magnitude ParseDuration_def)
  qed
qed

end
