(* ===== verification/Action_Execution.thy ===== *)
theory Action_Execution
  imports Aws_Jobs Scale_Progress Go_Duration
begin

text \<open>
  The controller of action executions, \<^verbatim>\<open>actionexecution_controller.go\<close>, and the handlers that
  start a scaling, \<^verbatim>\<open>Execute\<close> of \<^verbatim>\<open>aurora_scale.go\<close> and \<^verbatim>\<open>docdb_scale.go\<close>. One call of
  the reconciler finishes an execution that is over its time limit, or runs one phase of the
  scaling machine of \<^verbatim>\<open>Cluster_Scale\<close> and stores its state. The API server and the AWS clients
  are parameters.
\<close>

section \<open>Parameters and state\<close>

text \<open>\<open>ax_Client\<close> is the AWS client built from the credentials.\<close>

record action_env = job_env +
  ax_GetAction :: "effect_log \<Rightarrow> string \<Rightarrow> string \<Rightarrow> go_error + action_execution"
  ax_GetTarget :: "effect_log \<Rightarrow> string \<Rightarrow> string \<Rightarrow> string \<Rightarrow> go_error + db_action aws_resource"
  ax_Delete :: "effect_log \<Rightarrow> action_execution \<Rightarrow> go_error option"
  ax_ActionStatus :: "effect_log \<Rightarrow> action_execution \<Rightarrow> go_error option"
  ax_TargetStatus :: "effect_log \<Rightarrow> string \<Rightarrow> string \<Rightarrow> condition list \<Rightarrow> go_error option"
  ax_Client :: "aws_credentials \<Rightarrow> db_sdk"

record action_reconciler =
  ar_OperatorNamespace :: string
  ar_ActionTimeout :: int
  ar_NotificationService :: bool
  ar_Recorder :: bool

record ax_state =
  ax_log :: effect_log
  ax_db :: db_log

section \<open>The scaling handlers (aurora\_scale.go, docdb\_scale.go)\<close>

definition handler_Execute :: "string \<Rightarrow> (db_sdk \<Rightarrow> string \<Rightarrow> string option \<Rightarrow> db_log cluster_manager_ops) \<Rightarrow> 'z action_env_scheme \<Rightarrow> string \<Rightarrow>
    action_execution \<Rightarrow> effect_log \<Rightarrow> db_log \<Rightarrow> ctrl_result \<times> bool \<times> go_error option \<times> action_execution \<times> db_log" where
  "handler_Execute kind manager env operatorNamespace op log db =
     (let ref = as_TargetResource (ae_Spec op) in
      case ax_GetTarget env log kind (or_Namespace ref) (or_Name ref) of
        Inl err \<Rightarrow> (no_requeue, False, Some err, op, db)
      | Inr target \<Rightarrow>
          (case job_credentials env operatorNamespace (ar_Credentials target) log of
             Inl err \<Rightarrow> (no_requeue, True, Some err, op, db)
           | Inr creds \<Rightarrow>
               (case ar_Targets target of
                  [] \<Rightarrow> (no_requeue, True, Some (Err ''no DBClusterIdentifiers specified''), op, db)
                | (identifier, region) # rest \<Rightarrow>
                    Execute (manager (ax_Client env creds) region (ar_ServiceEndpoint target)) op identifier db)))"

definition AuroraScaleHandler_Execute :: "'z action_env_scheme \<Rightarrow> string \<Rightarrow> action_execution \<Rightarrow> effect_log \<Rightarrow> db_log \<Rightarrow>
    ctrl_result \<times> bool \<times> go_error option \<times> action_execution \<times> db_log" where
  "AuroraScaleHandler_Execute = handler_Execute ''AwsRdsAuroraCluster'' rdsClusterManager"

definition DocumentDbScaleHandler_Execute :: "'z action_env_scheme \<Rightarrow> string \<Rightarrow> action_execution \<Rightarrow> effect_log \<Rightarrow> db_log \<Rightarrow>
    ctrl_result \<times> bool \<times> go_error option \<times> action_execution \<times> db_log" where
  "DocumentDbScaleHandler_Execute = handler_Execute ''AwsDocumentDBCluster'' docdbClusterManager"

section \<open>The reconciler (actionexecution\_controller.go)\<close>

definition finalize_status :: "go_error option \<Rightarrow> string" where
  "finalize_status handlerErr =
     (case handlerErr of None \<Rightarrow> ''Success'' | Some err \<Rightarrow> if err_IsTimeout err then ''Timeout'' else ''Error'')"

definition finalize_notice :: "action_execution \<Rightarrow> go_error option \<Rightarrow> notification_body" where
  "finalize_notice op handlerErr =
     \<lparr>nb_Schedule = as_ActionName (ae_Spec op), nb_Action = as_ActionType (ae_Spec op),
      nb_Resource = or_Name (as_TargetResource (ae_Spec op)), nb_Status = finalize_status handlerErr,
      nb_Metadata = (''phase'', MetaString (st_Phase (ae_Status op))) #
        (case handlerErr of None \<Rightarrow> [] | Some err \<Rightarrow> [(''error'', MetaString (err_Error err))])\<rparr>"

definition finalize_condition :: "int \<Rightarrow> action_execution \<Rightarrow> go_error option \<Rightarrow> condition" where
  "finalize_condition now op handlerErr =
     mk_condition now (''Action'' @ as_ActionType (ae_Spec op))
       (case handlerErr of None \<Rightarrow> ConditionTrue | Some err \<Rightarrow> ConditionFalse)
       (case handlerErr of None \<Rightarrow> ''Active'' | Some err \<Rightarrow> if err_IsTimeout err then ''Timeout'' else ''Failed'')
       (case handlerErr of None \<Rightarrow> ''Action execution completed successfully'' | Some err \<Rightarrow> err_Error err)"

definition finalizeAction :: "action_reconciler \<Rightarrow> 'z action_env_scheme \<Rightarrow> meta_api \<Rightarrow> action_execution \<Rightarrow> go_error option \<Rightarrow>
    effect_log \<Rightarrow> effect_log" where
  "finalizeAction rec env meta op handlerErr log =
     (let log1 = (if ar_NotificationService rec then log @ [EvNotify (finalize_notice op handlerErr)] else log);
          ref = as_TargetResource (ae_Spec op)
      in if or_Kind ref \<notin> {''AwsRdsAuroraCluster'', ''AwsDocumentDBCluster''} then log1
         else (case ax_GetTarget env log1 (or_Kind ref) (or_Namespace ref) (or_Name ref) of
             Inl err \<Rightarrow> log1
           | Inr target \<Rightarrow>
               (let c = finalize_condition (je_End env) op handlerErr;
                    conditions = SetStatusCondition meta (ar_Conditions target) c;
                    log2 = log1 @ [EvStatusUpdate (or_Kind ref) (ar_Name target) conditions]
                in case ax_TargetStatus env log1 (or_Kind ref) (ar_Name target) conditions of
                     Some err \<Rightarrow> log2
                   | None \<Rightarrow>
                       if ar_Recorder rec
                       then log2 @ [EvEvent (or_Kind ref) (ar_Name target)
                              (if handlerErr = None then EventNormal else EventWarning) (c_Reason c) (c_Message c)]
                       else log2)))"

text \<open>Finalize, then delete; \<^verbatim>\<open>client.IgnoreNotFound\<close> on the answer of the delete.\<close>

definition finalize_and_delete :: "action_reconciler \<Rightarrow> 'z action_env_scheme \<Rightarrow> meta_api \<Rightarrow> action_execution \<Rightarrow> go_error option \<Rightarrow>
    effect_log \<Rightarrow> go_error option \<times> effect_log" where
  "finalize_and_delete rec env meta op handlerErr log =
     (let log1 = finalizeAction rec env meta op handlerErr log;
          err = (case ax_Delete env log1 op of None \<Rightarrow> None | Some e \<Rightarrow> if err_IsNotFound e then None else Some e)
      in (err, log1 @ [EvDeleteAction (ae_Namespace op) (ae_Name op)]))"

definition action_timeout :: "action_reconciler \<Rightarrow> int" where
  "action_timeout rec = (if ar_ActionTimeout rec \<le> 0 then 30 * 60 * 1000000000 else ar_ActionTimeout rec)"

definition timed_out :: "action_reconciler \<Rightarrow> int \<Rightarrow> action_execution \<Rightarrow> bool" where
  "timed_out rec now op \<longleftrightarrow>
     (case ae_CreationTimestamp op of None \<Rightarrow> False | Some t \<Rightarrow> now - t > action_timeout rec)"

definition timeout_error :: "action_reconciler \<Rightarrow> action_execution \<Rightarrow> go_error" where
  "timeout_error rec op =
     ErrWrap (err_Error ErrActionTimeout @ '' after '' @ Duration_String (action_timeout rec) @ '' in phase '' @ st_Phase (ae_Status op)) ErrActionTimeout"

definition run_handler :: "action_reconciler \<Rightarrow> 'z action_env_scheme \<Rightarrow> action_execution \<Rightarrow> ax_state \<Rightarrow>
    (ctrl_result \<times> bool \<times> go_error option \<times> action_execution \<times> db_log) option" where
  "run_handler rec env op s =
     (if as_ActionType (ae_Spec op) = ''AuroraVerticalScale''
      then Some (AuroraScaleHandler_Execute env (ar_OperatorNamespace rec) op (ax_log s) (ax_db s))
      else if as_ActionType (ae_Spec op) = ''DocumentDbVerticalScale''
      then Some (DocumentDbScaleHandler_Execute env (ar_OperatorNamespace rec) op (ax_log s) (ax_db s))
      else None)"

definition ActionExecution_Reconcile :: "action_reconciler \<Rightarrow> 'z action_env_scheme \<Rightarrow> meta_api \<Rightarrow> string \<Rightarrow> string \<Rightarrow> ax_state \<Rightarrow>
    ctrl_result \<times> go_error option \<times> ax_state" where
  "ActionExecution_Reconcile rec env meta namespace name s =
     (case ax_GetAction env (ax_log s) namespace name of
        Inl err \<Rightarrow> (no_requeue, if err_IsNotFound err then None else Some err, s)
      | Inr op \<Rightarrow>
          if ae_DeletionTimestamp op \<noteq> None then (no_requeue, None, s)
          else if timed_out rec (je_Start env) op
          then (case finalize_and_delete rec env meta (op\<lparr>ae_Status := (ae_Status op)\<lparr>st_Phase := ''Timeout''\<rparr>\<rparr>)
                       (Some (timeout_error rec op)) (ax_log s) of
              (err, log') \<Rightarrow> (no_requeue, err, s\<lparr>ax_log := log'\<rparr>))
          else (case run_handler rec env op s of
              None \<Rightarrow> (no_requeue, None, s)
            | Some (result, fin, handlerErr, op', db') \<Rightarrow>
                if fin
                then (case finalize_and_delete rec env meta op' handlerErr (ax_log s) of
                    (err, log') \<Rightarrow> (no_requeue, err, \<lparr>ax_log = log', ax_db = db'\<rparr>))
                else (let s' = \<lparr>ax_log = ax_log s @ [EvActionStatus op'], ax_db = db'\<rparr> in
                  case ax_ActionStatus env (ax_log s) op' of
                    Some err \<Rightarrow> (no_requeue, if err_IsNotFound err then None else Some err, s')
                  | None \<Rightarrow> (result, handlerErr, s'))))"

section \<open>What a reconciliation does\<close>

fun notices :: "effect_log \<Rightarrow> notification_body list" where
  "notices [] = []"
| "notices (EvNotify b # es) = b # notices es"
| "notices (e # es) = notices es"

fun deletions :: "effect_log \<Rightarrow> (string \<times> string) list" where
  "deletions [] = []"
| "deletions (EvDeleteAction n x # es) = (n, x) # deletions es"
| "deletions (e # es) = deletions es"

fun stored_actions :: "effect_log \<Rightarrow> action_execution list" where
  "stored_actions [] = []"
| "stored_actions (EvActionStatus op # es) = op # stored_actions es"
| "stored_actions (e # es) = stored_actions es"

lemma notices_append [simp]: "notices (xs @ ys) = notices xs @ notices ys"
  by (induction xs rule: notices.induct) simp_all

lemma deletions_append [simp]: "deletions (xs @ ys) = deletions xs @ deletions ys"
  by (induction xs rule: deletions.induct) simp_all

lemma stored_actions_append [simp]: "stored_actions (xs @ ys) = stored_actions xs @ stored_actions ys"
  by (induction xs rule: stored_actions.induct) simp_all

text \<open>The end of an execution: one notification when there is a notification service, then the
  target's status, then one delete request, which comes last. The execution itself is not stored.\<close>

definition ended :: "action_reconciler \<Rightarrow> action_execution \<Rightarrow> notification_body \<Rightarrow> effect_log \<Rightarrow> bool" where
  "ended rec op body new \<longleftrightarrow> notices new = (if ar_NotificationService rec then [body] else []) \<and>
     deletions new = [(ae_Namespace op, ae_Name op)] \<and> last new = EvDeleteAction (ae_Namespace op) (ae_Name op) \<and> stored_actions new = []"

lemma finalize_effects:
  "\<exists>new. finalizeAction rec env meta op handlerErr log = log @ new \<and>
     notices new = (if ar_NotificationService rec then [finalize_notice op handlerErr] else []) \<and>
     deletions new = [] \<and> stored_actions new = []"
proof -
  let ?n = "if ar_NotificationService rec then [EvNotify (finalize_notice op handlerErr)] else []"
  define log1 where "log1 = (if ar_NotificationService rec then log @ [EvNotify (finalize_notice op handlerErr)] else log)"
  have log1: "log1 = log @ ?n"
    by (simp add: log1_def)
  have "finalizeAction rec env meta op handlerErr log = log1 @ [] \<or>
      (\<exists>k n c. finalizeAction rec env meta op handlerErr log = log1 @ [EvStatusUpdate k n c]) \<or>
      (\<exists>k n c k' n' t r m. finalizeAction rec env meta op handlerErr log = log1 @ [EvStatusUpdate k n c, EvEvent k' n' t r m])"
    unfolding finalizeAction_def Let_def log1_def [symmetric] by (simp split: sum.split option.split)
  then obtain rest where "finalizeAction rec env meta op handlerErr log = log1 @ rest"
    and "notices rest = []" and "deletions rest = []" and "stored_actions rest = []"
    by (elim disjE exE) (rule that, assumption, simp_all)+
  then show ?thesis
    by (intro exI [of _ "?n @ rest"]) (simp add: log1)
qed

lemma finalize_and_delete_effects:
  assumes "finalize_and_delete rec env meta op handlerErr log = (err, log')"
  shows "\<exists>new. log' = log @ new \<and> ended rec op (finalize_notice op handlerErr) new"
proof -
  obtain new where fin: "finalizeAction rec env meta op handlerErr log = log @ new"
    and "notices new = (if ar_NotificationService rec then [finalize_notice op handlerErr] else [])"
    and "deletions new = []" and "stored_actions new = []"
    using finalize_effects [of rec env meta op handlerErr log] by blast
  moreover have "log' = log @ new @ [EvDeleteAction (ae_Namespace op) (ae_Name op)]"
    using assms by (auto simp: finalize_and_delete_def fin Let_def)
  ultimately show ?thesis
    by (intro exI [of _ "new @ [EvDeleteAction (ae_Namespace op) (ae_Name op)]"]) (simp add: ended_def)
qed

text \<open>An API server for the witnesses: it is one hour after the zero time, and there is one execution,
  created at a given time.\<close>

definition demo_actions :: "int \<Rightarrow> action_env" where
  "demo_actions t = \<lparr>je_Start = 3600 * 10 ^ 9, je_End = 3600 * 10 ^ 9, je_RFC3339 = show_int, je_LoadConfig = (\<lambda>_. None),
     je_GetSecret = je_GetSecret demo_env, je_Aws = je_Aws demo_env, je_CreateAction = je_CreateAction demo_env,
     ax_GetAction = (\<lambda>_ _ _. Inr (demo_op\<lparr>ae_CreationTimestamp := Some t\<rparr>)),
     ax_GetTarget = (\<lambda>_ _ _ _. Inr (demo_aws \<lparr>da_Enabled = None, da_Command = ''scale'', da_InstanceClass = Some ''db.large''\<rparr>)),
     ax_Delete = (\<lambda>_ _. None), ax_ActionStatus = (\<lambda>_ _. None), ax_TargetStatus = (\<lambda>_ _ _ _. None),
     ax_Client = (\<lambda>_. demo_sdk)\<rparr>"

lemma demo_op_type: "as_ActionType (ae_Spec (demo_op\<lparr>ae_CreationTimestamp := t\<rparr>)) = ''AuroraVerticalScale''"
  by (simp add: demo_op_def)

lemma run_handler_aurora:
  "as_ActionType (ae_Spec op) = ''AuroraVerticalScale'' \<Longrightarrow>
     run_handler rec env op s = Some (AuroraScaleHandler_Execute env (ar_OperatorNamespace rec) op (ax_log s) (ax_db s))"
  by (simp add: run_handler_def)

definition demo_reconciler :: action_reconciler where
  "demo_reconciler = \<lparr>ar_OperatorNamespace = ''ops'', ar_ActionTimeout = 0, ar_NotificationService = True, ar_Recorder = True\<rparr>"

text \<open>
  Claim C21. An execution does not outlive its time limit: a reconciliation that finds it over the
  limit (half an hour when no positive limit is configured) makes no call to the cloud, announces
  a timeout with the phase Timeout, requests the deletion of the execution as its last step, and
  asks for no further reconciliation; only a failed deletion is reported, and retried.
\<close>

theorem action_timeout_ends:
  assumes "ax_GetAction env (ax_log s) ns name = Inr op" and "ae_DeletionTimestamp op = None"
    and "ae_CreationTimestamp op = Some t"
    and "je_Start env - t > (if ar_ActionTimeout rec > 0 then ar_ActionTimeout rec else 1800 * 10 ^ 9)"
    and "ActionExecution_Reconcile rec env meta ns name s = (res, err, s')"
  shows "ax_db s' = ax_db s \<and> res = no_requeue \<and>
    (\<exists>new body. ax_log s' = ax_log s @ new \<and> ended rec op body new \<and> nb_Status body = ''Timeout'' \<and>
       mget (nb_Metadata body) ''phase'' = Some (MetaString ''Timeout'')) \<and>
    ((\<forall>log op. ax_Delete env log op = None) \<longrightarrow> err = None)"
proof -
  let ?op = "op\<lparr>ae_Status := (ae_Status op)\<lparr>st_Phase := ''Timeout''\<rparr>\<rparr>"
  let ?body = "finalize_notice ?op (Some (timeout_error rec op))"
  have "timed_out rec (je_Start env) op"
    using assms(3,4) by (auto simp: timed_out_def action_timeout_def)
  then obtain log' where fin: "finalize_and_delete rec env meta ?op (Some (timeout_error rec op)) (ax_log s) = (err, log')"
    and s': "s' = s\<lparr>ax_log := log'\<rparr>" and res: "res = no_requeue"
    using assms(1,2,5) by (auto simp: ActionExecution_Reconcile_def split: prod.splits)
  obtain new where "log' = ax_log s @ new" and "ended rec ?op ?body new"
    using finalize_and_delete_effects [OF fin] by blast
  then have "ax_log s' = ax_log s @ new" and "ended rec op ?body new"
    by (simp_all add: s' ended_def)
  moreover have "nb_Status ?body = ''Timeout''" and "mget (nb_Metadata ?body) ''phase'' = Some (MetaString ''Timeout'')"
    by (simp_all add: finalize_notice_def finalize_status_def timeout_error_def)
  moreover have "err = None" if "\<forall>log op. ax_Delete env log op = None"
    using fin that by (simp add: finalize_and_delete_def Let_def)
  ultimately show ?thesis
    using res s' by auto
qed

theorem action_timeout_ends_witness:
  "\<exists>res err s'. ActionExecution_Reconcile demo_reconciler (demo_actions 0) keyed_meta ''ops'' ''x'' \<lparr>ax_log = [], ax_db = []\<rparr> = (res, err, s') \<and>
     ax_db s' = [] \<and> err = None"
proof -
  obtain res err s' where run: "ActionExecution_Reconcile demo_reconciler (demo_actions 0) keyed_meta ''ops'' ''x'' \<lparr>ax_log = [], ax_db = []\<rparr> = (res, err, s')"
    by (rule prod_cases3)
  show ?thesis
    using action_timeout_ends [OF _ _ _ _ run, of "demo_op\<lparr>ae_CreationTimestamp := Some 0\<rparr>" 0] run
    by (simp add: demo_actions_def demo_reconciler_def demo_op_def)
qed

text \<open>
  Claim C20. Within the time limit a reconciliation runs one step of the execution's handler. When
  the step ends the execution, it announces exactly one result, Success exactly when the handler
  had no error, and requests the deletion last. Otherwise it announces and deletes nothing and
  stores the new state of the execution; when the API server takes it, the answer to the queue is
  the handler's, so an error or a request for another call is passed on.
\<close>

theorem action_reconcile_step:
  assumes "ax_GetAction env (ax_log s) ns name = Inr op" and "ae_DeletionTimestamp op = None"
    and "\<not> timed_out rec (je_Start env) op" and "run_handler rec env op s = Some (result, fin, handlerErr, op', db')"
    and "ActionExecution_Reconcile rec env meta ns name s = (res, err, s')"
  shows "ax_db s' = db' \<and> (\<exists>new. ax_log s' = ax_log s @ new \<and>
    (if fin then (\<exists>body. ended rec op' body new \<and> nb_Resource body = or_Name (as_TargetResource (ae_Spec op')) \<and>
         (nb_Status body = ''Success'' \<longleftrightarrow> handlerErr = None))
     else new = [EvActionStatus op'] \<and>
       (ax_ActionStatus env (ax_log s) op' = None \<longrightarrow> res = result \<and> err = handlerErr)))"
proof (cases fin)
  case True
  obtain log' where fd: "finalize_and_delete rec env meta op' handlerErr (ax_log s) = (err, log')"
    and s': "s' = \<lparr>ax_log = log', ax_db = db'\<rparr>"
    using assms True by (auto simp: ActionExecution_Reconcile_def split: prod.splits)
  obtain new where "log' = ax_log s @ new" and "ended rec op' (finalize_notice op' handlerErr) new"
    using finalize_and_delete_effects [OF fd] by blast
  moreover have "nb_Status (finalize_notice op' handlerErr) = ''Success'' \<longleftrightarrow> handlerErr = None"
    and "nb_Resource (finalize_notice op' handlerErr) = or_Name (as_TargetResource (ae_Spec op'))"
    by (simp_all add: finalize_notice_def finalize_status_def split: option.split)
  ultimately show ?thesis
    using True s' by auto
next
  case False
  with assms show ?thesis
    by (auto simp: ActionExecution_Reconcile_def Let_def split: option.splits)
qed

theorem action_reconcile_step_witness:
  "\<exists>result fin handlerErr op' db' res err s'. run_handler demo_reconciler (demo_actions (3599 * 10 ^ 9))
       (demo_op\<lparr>ae_CreationTimestamp := Some (3599 * 10 ^ 9)\<rparr>) \<lparr>ax_log = [], ax_db = []\<rparr> = Some (result, fin, handlerErr, op', db') \<and>
     ActionExecution_Reconcile demo_reconciler (demo_actions (3599 * 10 ^ 9)) keyed_meta ''ops'' ''x'' \<lparr>ax_log = [], ax_db = []\<rparr> = (res, err, s') \<and>
     ax_db s' = db'"
proof -
  let ?env = "demo_actions (3599 * 10 ^ 9)" and ?op = "demo_op\<lparr>ae_CreationTimestamp := Some (3599 * 10 ^ 9)\<rparr>"
    and ?s = "\<lparr>ax_log = [], ax_db = []\<rparr>"
  obtain res err s' where run: "ActionExecution_Reconcile demo_reconciler ?env keyed_meta ''ops'' ''x'' ?s = (res, err, s')"
    by (rule prod_cases3)
  obtain result fin handlerErr op' db' where h: "run_handler demo_reconciler ?env ?op ?s = Some (result, fin, handlerErr, op', db')"
    by (metis prod_cases5 run_handler_aurora demo_op_type)
  have "ax_db s' = db'"
    by (rule action_reconcile_step [OF _ _ _ h run, THEN conjunct1])
      (simp_all add: demo_actions_def timed_out_def action_timeout_def demo_reconciler_def demo_op_def)
  with run h show ?thesis
    by blast
qed

text \<open>
  Claim C28. The way from a scale command to the machine: the action execution that a scale job of
  a database resource creates is handled by the handler of its kind, which runs the scaling
  machine with the action's instance class, on the first cluster identifier of the resource, in
  its region, with the resource's endpoint and credentials.
\<close>

theorem scale_execution_handled:
  assumes "k = rds_kind \<or> k = docdb_kind" and "op = scale_execution k operatorNamespace now ns name a act"
    and "da_InstanceClass act = Some cls" and "cls \<noteq> ''''"
    and "ax_GetTarget env (ax_log s) (dk_Kind k) ns name = Inr target" and "ar_Targets target = (ident, region) # rest"
    and "job_credentials env (ar_OperatorNamespace rec) (ar_Credentials target) (ax_log s) = Inr creds"
  shows "scale_class op = Some cls \<and>
    run_handler rec env op s = Some (Execute ((if k = rds_kind then rdsClusterManager else docdbClusterManager)
      (ax_Client env creds) region (ar_ServiceEndpoint target)) op ident (ax_db s))"
proof -
  have "rds_kind \<noteq> docdb_kind"
    by (simp add: rds_kind_def docdb_kind_def)
  then show ?thesis
    using assms by (elim disjE) (simp_all add: scale_class_def run_handler_def scale_execution_def rds_kind_def docdb_kind_def
      AuroraScaleHandler_Execute_def DocumentDbScaleHandler_Execute_def handler_Execute_def)
qed

theorem scale_execution_handled_witness:
  "\<exists>r. run_handler demo_reconciler (demo_actions 0) (scale_execution docdb_kind ''ops'' 0 '''' ''prod'' ''night''
       \<lparr>da_Enabled = None, da_Command = ''scale'', da_InstanceClass = Some ''db.large''\<rparr>) \<lparr>ax_log = [], ax_db = []\<rparr> =
     Some (Execute (docdbClusterManager demo_sdk ''eu-west-1'' None) r ''a'' [])"
proof -
  let ?act = "\<lparr>da_Enabled = None, da_Command = ''scale'', da_InstanceClass = Some ''db.large''\<rparr>"
  have "ax_GetTarget (demo_actions 0) (ax_log \<lparr>ax_log = [], ax_db = []\<rparr>) (dk_Kind docdb_kind) '''' ''prod'' = Inr (demo_aws ?act)"
    and "ar_Targets (demo_aws ?act) = (''a'', ''eu-west-1'') # [(''b'', ''eu-west-1'')]"
    and "job_credentials (demo_actions 0) (ar_OperatorNamespace demo_reconciler) (ar_Credentials (demo_aws ?act)) (ax_log \<lparr>ax_log = [], ax_db = []\<rparr>)
      = Inr (Some (''AK'', ''SK'', ''''))"
    by (simp_all add: demo_actions_def demo_aws_def job_credentials_def demo_env_def getAwsCredentialProviderFromSecret_def)
  from scale_execution_handled [OF disjI2 [OF refl] refl _ _ this, where act = ?act and cls = "''db.large''"
      and operatorNamespace = "''ops''" and now = 0 and a = "''night''"] show ?thesis
    by (auto simp: rds_kind_def docdb_kind_def demo_actions_def demo_aws_def)
qed

end
