(* ===== verification/K8s_Jobs.thy ===== *)
theory K8s_Jobs
  imports Job_Common
begin

text \<open>
  The controllers of the Kubernetes kinds: \<^verbatim>\<open>k8spodreplicas_controller.go\<close>,
  \<^verbatim>\<open>k8shpa_controller.go\<close> and \<^verbatim>\<open>k8srunjob_controller.go\<close>. The API server and the label
  selectors of \<^verbatim>\<open>apimachinery\<close> are parameters: a selector is converted, asked whether it is
  empty and passed to a list request. A write is logged and answered. \<open>ke_Suffix\<close> is
  the current time in the format of the job names, twelve digits down to the minute, and
  \<open>ke_Owners\<close> what \<^verbatim>\<open>SetControllerReference\<close> leaves in a new job, on success or failure. Go's conversion of an
  \<^verbatim>\<open>int\<close> to \<^verbatim>\<open>int32\<close> keeps the low 32 bits, as \<^verbatim>\<open>of_int\<close> to a word of 32 bits does.
\<close>

section \<open>Parameters\<close>

record ('l, 's) k8s_env = job_clock +
  ke_AsSelector :: "'l \<Rightarrow> go_error + 's"
  ke_Empty :: "'s \<Rightarrow> bool"
  ke_List :: "effect_log \<Rightarrow> string \<Rightarrow> string \<Rightarrow> 's \<Rightarrow> go_error + (string \<times> string) list"
  ke_Write :: "effect_log \<Rightarrow> effect \<Rightarrow> go_error option"
  ke_Suffix :: string
  ke_Owners :: "string \<Rightarrow> string \<Rightarrow> string list"

section \<open>The shared shape of the jobs\<close>

text \<open>What a job writes for one item, and what it says about it.\<close>

record item_plan =
  ip_Write :: effect
  ip_FailMsg :: "go_error \<Rightarrow> string"
  ip_OkReason :: string
  ip_OkMsg :: string

fun write_items :: "('l, 's) k8s_env \<Rightarrow> string \<Rightarrow> string \<Rightarrow> ('i \<Rightarrow> item_plan) \<Rightarrow> 'i list \<Rightarrow>
    string list \<times> effect_log \<Rightarrow> string list \<times> effect_log" where
  "write_items env kind name plan [] acc = acc"
| "write_items env kind name plan (i # items) (errorsList, log) =
     write_items env kind name plan items
       (case ke_Write env log (ip_Write (plan i)) of
          Some err \<Rightarrow> (let msg = ip_FailMsg (plan i) err in
            (errorsList @ [msg], log @ [ip_Write (plan i), EvEvent kind name EventWarning ''Failed'' msg]))
        | None \<Rightarrow> (errorsList,
            log @ [ip_Write (plan i), EvEvent kind name EventNormal (ip_OkReason (plan i)) (ip_OkMsg (plan i))]))"

fun namespace_loop :: "('l, 's) k8s_env \<Rightarrow> string \<Rightarrow> string \<Rightarrow> string \<Rightarrow> 's \<Rightarrow> (string \<Rightarrow> string) \<Rightarrow>
    (string \<times> string \<Rightarrow> item_plan) \<Rightarrow> string list \<Rightarrow> string list \<times> effect_log \<Rightarrow> string list \<times> effect_log" where
  "namespace_loop env kind name resource selector listMsg plan [] acc = acc"
| "namespace_loop env kind name resource selector listMsg plan (namespace # namespaces) (errorsList, log) =
     namespace_loop env kind name resource selector listMsg plan namespaces
       (case ke_List env log resource namespace selector of
          Inl err \<Rightarrow> (errorsList @ [listMsg namespace],
                      log @ [EvEvent kind name EventWarning ''Failed'' (listMsg namespace)])
        | Inr items \<Rightarrow> write_items env kind name plan items (errorsList, log))"

definition unsafe_selector_message :: string where
  "unsafe_selector_message = ''refusing to target all namespaces with an empty label selector to prevent accidental cluster-wide mutation''"

definition target_namespaces :: "('l, 's) k8s_env \<Rightarrow> 's \<Rightarrow> string list \<Rightarrow> go_error + string list" where
  "target_namespaces env selector namespaces =
     (if length namespaces = 0
      then (if ke_Empty env selector then Inl (Err unsafe_selector_message) else Inr [''''])
      else Inr namespaces)"

section \<open>K8sPodReplicas\<close>

record replicas_action =
  ra_Enabled :: "bool option"
  ra_Replicas :: int

record 'l K8sPodReplicas =
  pr_Name :: string
  pr_Namespace :: string
  pr_Enabled :: "bool option"
  pr_Namespaces :: "string list"
  pr_ResourceType :: string
  pr_LabelSelector :: 'l
  pr_Schedule :: string
  pr_Actions :: "(string, replicas_action) gomap"
  pr_Conditions :: "condition list"

definition int32 :: "int \<Rightarrow> 32 word" where
  "int32 i = of_int i"

definition replicas_plan :: "string \<Rightarrow> string \<Rightarrow> replicas_action \<Rightarrow> string \<times> string \<Rightarrow> item_plan" where
  "replicas_plan resource label act = (\<lambda>(namespace, name).
     \<lparr>ip_Write = EvUpdateReplicas resource namespace name (int32 (ra_Replicas act)),
      ip_FailMsg = (\<lambda>err. ''failed to update '' @ label @ '' '' @ quoted namespace @ ''/'' @ quoted name),
      ip_OkReason = ''Success'',
      ip_OkMsg = ''updated '' @ label @ '' '' @ quoted namespace @ ''/'' @ quoted name @ '' to '' @
        show_int (ra_Replicas act) @ '' replicas''\<rparr>)"

definition replicas_loop :: "('l, 's) k8s_env \<Rightarrow> 'l K8sPodReplicas \<Rightarrow> replicas_action \<Rightarrow> string \<Rightarrow> 's \<Rightarrow> string list \<Rightarrow>
    effect_log \<Rightarrow> string list \<times> effect_log" where
  "replicas_loop env obj act actionName selector namespaces log =
     (let go = (\<lambda>label. namespace_loop env ''K8sPodReplicas'' (pr_Name obj) (pr_ResourceType obj) selector
            (\<lambda>namespace. ''Action '' @ quoted actionName @ '' failed to list '' @ label @ ''s for namespace '' @ quoted namespace)
            (replicas_plan (pr_ResourceType obj) label act) namespaces ([], log))
      in if pr_ResourceType obj = ''Deployment'' then go ''deployment''
         else if pr_ResourceType obj = ''StatefulSet'' then go ''statefulset''
         else ([], log))"

definition setReplicas :: "('l, 's) k8s_env \<Rightarrow> meta_api \<Rightarrow> (effect_log \<Rightarrow> string \<Rightarrow> string \<Rightarrow> go_error + 'l K8sPodReplicas) \<Rightarrow>
    effect_log \<Rightarrow> string \<Rightarrow> string \<Rightarrow> string \<Rightarrow> job_answer" where
  "setReplicas env meta getObj log keyNamespace keyName actionName =
     (case getObj log keyNamespace keyName of
        Inl err \<Rightarrow> job_error (err_Error err) log
      | Inr obj \<Rightarrow> (case mget (pr_Actions obj) actionName of
          None \<Rightarrow> job_error (''Action '' @ quoted actionName @ '' not found in PodReplicas resource'') log
        | Some act \<Rightarrow> (case ke_AsSelector env (pr_LabelSelector obj) of
            Inl err \<Rightarrow> job_error (err_Error err) log
          | Inr selector \<Rightarrow> (case target_namespaces env selector (pr_Namespaces obj) of
              Inl err \<Rightarrow> job_error (err_Error err) log
            | Inr namespaces \<Rightarrow>
                (case replicas_loop env obj act actionName selector namespaces log of (errorsList, log1) \<Rightarrow>
                  finish_job env meta ''K8sPodReplicas'' (pr_Name obj) (pr_Conditions obj) actionName errorsList log1)))))"

section \<open>K8sHpa\<close>

record hpa_action =
  ha_Enabled :: "bool option"
  ha_MinReplicas :: int
  ha_MaxReplicas :: int

record 'l K8sHpa =
  hp_Name :: string
  hp_Namespace :: string
  hp_Enabled :: "bool option"
  hp_Namespaces :: "string list"
  hp_LabelSelector :: 'l
  hp_Schedule :: string
  hp_Actions :: "(string, hpa_action) gomap"
  hp_Conditions :: "condition list"

definition hpa_plan :: "hpa_action \<Rightarrow> string \<times> string \<Rightarrow> item_plan" where
  "hpa_plan act = (\<lambda>(namespace, name).
     let minReplicas = int32 (ha_MinReplicas act); maxReplicas = int32 (ha_MaxReplicas act) in
     \<lparr>ip_Write = EvUpdateHpa namespace name minReplicas maxReplicas,
      ip_FailMsg = (\<lambda>err. ''Failed to update HorizontalPodAutoscaler '' @ quoted namespace @ ''/'' @ quoted name),
      ip_OkReason = ''Updated'',
      ip_OkMsg = ''HorizontalPodAutoscaler '' @ quoted namespace @ ''/'' @ quoted name @ '' updated min:'' @
        show_int (sint minReplicas) @ '' max:'' @ show_int (sint maxReplicas)\<rparr>)"

definition setAutoscaling :: "('l, 's) k8s_env \<Rightarrow> meta_api \<Rightarrow> (effect_log \<Rightarrow> string \<Rightarrow> string \<Rightarrow> go_error + 'l K8sHpa) \<Rightarrow>
    effect_log \<Rightarrow> string \<Rightarrow> string \<Rightarrow> string \<Rightarrow> job_answer" where
  "setAutoscaling env meta getObj log keyNamespace keyName actionName =
     (case getObj log keyNamespace keyName of
        Inl err \<Rightarrow> job_error (err_Error err) log
      | Inr obj \<Rightarrow> (case mget (hp_Actions obj) actionName of
          None \<Rightarrow> job_error (''Action '' @ quoted actionName @ '' not found in K8sHPA resource'') log
        | Some act \<Rightarrow>
            if ha_MinReplicas act > ha_MaxReplicas act
            then job_error (''minReplicas ('' @ show_int (ha_MinReplicas act) @ '') cannot be greater than maxReplicas ('' @
                   show_int (ha_MaxReplicas act) @ '')'') log
            else (case ke_AsSelector env (hp_LabelSelector obj) of
                Inl err \<Rightarrow> job_error (err_Error err) log
              | Inr selector \<Rightarrow> (case target_namespaces env selector (hp_Namespaces obj) of
                  Inl err \<Rightarrow> job_error (err_Error err) log
                | Inr namespaces \<Rightarrow>
                    (case namespace_loop env ''K8sHpa'' (hp_Name obj) ''HorizontalPodAutoscaler'' selector
                        (\<lambda>namespace. ''Failed to list HorizontalPodAutoscaler in namespace '' @ quoted namespace)
                        (hpa_plan act) namespaces ([], log) of (errorsList, log1) \<Rightarrow>
                      finish_job env meta ''K8sHpa'' (hp_Name obj) (hp_Conditions obj) actionName errorsList log1)))))"

section \<open>K8sRunJob\<close>

text \<open>The spec of the job to run, of which the controller reads and defaults the time to live.\<close>

record run_action =
  ua_Enabled :: "bool option"
  ua_TTLSecondsAfterFinished :: "32 word option"
  ua_JobSpec :: string

record K8sRunJob =
  rj_Name :: string
  rj_Namespace :: string
  rj_Enabled :: "bool option"
  rj_Namespaces :: "string list"
  rj_Schedule :: string
  rj_Actions :: "(string, run_action) gomap"
  rj_Conditions :: "condition list"

definition job_name :: "string \<Rightarrow> string \<Rightarrow> string \<Rightarrow> string" where
  "job_name objName actionName suffix =
     (let prefix = objName @ ''-'' @ actionName in (if 48 < length prefix then take 48 prefix else prefix) @ ''-'' @ suffix)"

definition run_plan :: "('l, 's) k8s_env \<Rightarrow> K8sRunJob \<Rightarrow> run_action \<Rightarrow> string \<Rightarrow> string \<Rightarrow> item_plan" where
  "run_plan env obj act actionName namespace =
     (let jobName = job_name (rj_Name obj) actionName (ke_Suffix env) in
      \<lparr>ip_Write = EvCreateJob \<lparr>kj_Name = jobName, kj_Namespace = namespace,
         kj_Labels = [(''timeterra.d3vlo0p.dev/action'', actionName), (''timeterra.d3vlo0p.dev/schedule'', rj_Schedule obj),
                      (''timeterra.d3vlo0p.dev/k8srunjob'', rj_Name obj)],
         kj_Owners = ke_Owners env (rj_Name obj) namespace,
         kj_TTLSecondsAfterFinished = (case ua_TTLSecondsAfterFinished act of None \<Rightarrow> Some 86400 | Some t \<Rightarrow> Some t),
         kj_Spec = ua_JobSpec act\<rparr>,
       ip_FailMsg = (\<lambda>err. ''Failed to create job: '' @ err_Error err),
       ip_OkReason = ''Success'',
       ip_OkMsg = ''Job '' @ quoted jobName @ '' created in namespace '' @ quoted namespace\<rparr>)"

definition runJob :: "('l, 's) k8s_env \<Rightarrow> meta_api \<Rightarrow> string \<Rightarrow> (effect_log \<Rightarrow> string \<Rightarrow> string \<Rightarrow> go_error + K8sRunJob) \<Rightarrow>
    effect_log \<Rightarrow> string \<Rightarrow> string \<Rightarrow> string \<Rightarrow> job_answer" where
  "runJob env meta operatorNamespace getObj log keyNamespace keyName actionName =
     (case getObj log keyNamespace keyName of
        Inl err \<Rightarrow> job_error (err_Error err) log
      | Inr obj \<Rightarrow> (case mget (rj_Actions obj) actionName of
          None \<Rightarrow> job_error (''Action '' @ quoted actionName @ '' not found in RunJob resource'') log
        | Some act \<Rightarrow>
            (let namespaces = (if length (rj_Namespaces obj) = 0 then [operatorNamespace] else rj_Namespaces obj) in
             case write_items env ''K8sRunJob'' (rj_Name obj) (run_plan env obj act actionName) namespaces ([], log) of
               (errorsList, log1) \<Rightarrow>
                 finish_job env meta ''K8sRunJob'' (rj_Name obj) (rj_Conditions obj) actionName errorsList log1)))"

section \<open>Reconciling a Kubernetes resource\<close>

definition k8s_Reconcile :: "('c, 's) job_lib \<Rightarrow> range_order \<Rightarrow> api_server \<Rightarrow> meta_api \<Rightarrow> string \<Rightarrow>
    (effect_log \<Rightarrow> string \<Rightarrow> go_error + 'o) \<Rightarrow> ('o \<Rightarrow> reconcile_resource) \<Rightarrow> ('o \<Rightarrow> (string, 'a) gomap) \<Rightarrow> ('a \<Rightarrow> bool) \<Rightarrow>
    'c rc_state \<Rightarrow> string \<Rightarrow> go_error option \<times> 'c rc_state" where
  "k8s_Reconcile lib ord api meta kind getObj view actions isActive st name =
     (let resource = resourceName (''v1alpha1.'' @ kind) name in
      case getObj (rc_log st) name of
        Inl err \<Rightarrow>
          if err_IsNotFound err then (None, st\<lparr>rc_svc := RemoveResource lib ord (rc_svc st) resource\<rparr>) else (Some err, st)
      | Inr obj \<Rightarrow> reconcileResource lib ord api meta st (view obj) resource (actions obj) isActive)"

definition K8sPodReplicas_Reconcile :: "('c, 's) job_lib \<Rightarrow> range_order \<Rightarrow> api_server \<Rightarrow> meta_api \<Rightarrow>
    (effect_log \<Rightarrow> string \<Rightarrow> go_error + 'l K8sPodReplicas) \<Rightarrow> 'c rc_state \<Rightarrow> string \<Rightarrow> go_error option \<times> 'c rc_state" where
  "K8sPodReplicas_Reconcile lib ord api meta getObj =
     k8s_Reconcile lib ord api meta ''K8sPodReplicas'' getObj
       (\<lambda>obj. \<lparr>rr_Kind = ''K8sPodReplicas'', rr_Name = pr_Name obj, rr_Namespace = pr_Namespace obj, rr_Schedule = pr_Schedule obj,
              rr_Active = IsActive (pr_Enabled obj), rr_Conditions = pr_Conditions obj\<rparr>)
       pr_Actions (\<lambda>a. IsActive (ra_Enabled a))"

definition K8sHpa_Reconcile :: "('c, 's) job_lib \<Rightarrow> range_order \<Rightarrow> api_server \<Rightarrow> meta_api \<Rightarrow>
    (effect_log \<Rightarrow> string \<Rightarrow> go_error + 'l K8sHpa) \<Rightarrow> 'c rc_state \<Rightarrow> string \<Rightarrow> go_error option \<times> 'c rc_state" where
  "K8sHpa_Reconcile lib ord api meta getObj =
     k8s_Reconcile lib ord api meta ''K8sHpa'' getObj
       (\<lambda>obj. \<lparr>rr_Kind = ''K8sHpa'', rr_Name = hp_Name obj, rr_Namespace = hp_Namespace obj, rr_Schedule = hp_Schedule obj,
              rr_Active = IsActive (hp_Enabled obj), rr_Conditions = hp_Conditions obj\<rparr>)
       hp_Actions (\<lambda>a. IsActive (ha_Enabled a))"

definition K8sRunJob_Reconcile :: "('c, 's) job_lib \<Rightarrow> range_order \<Rightarrow> api_server \<Rightarrow> meta_api \<Rightarrow>
    (effect_log \<Rightarrow> string \<Rightarrow> go_error + K8sRunJob) \<Rightarrow> 'c rc_state \<Rightarrow> string \<Rightarrow> go_error option \<times> 'c rc_state" where
  "K8sRunJob_Reconcile lib ord api meta getObj =
     k8s_Reconcile lib ord api meta ''K8sRunJob'' getObj
       (\<lambda>obj. \<lparr>rr_Kind = ''K8sRunJob'', rr_Name = rj_Name obj, rr_Namespace = rj_Namespace obj, rr_Schedule = rj_Schedule obj,
              rr_Active = IsActive (rj_Enabled obj), rr_Conditions = rj_Conditions obj\<rparr>)
       rj_Actions (\<lambda>a. IsActive (ua_Enabled a))"

section \<open>What a job wrote\<close>

fun is_write :: "effect \<Rightarrow> bool" where
  "is_write (EvUpdateReplicas k n x w) = True"
| "is_write (EvUpdateHpa n x lo hi) = True"
| "is_write (EvCreateJob j) = True"
| "is_write _ = False"

definition written :: "effect_log \<Rightarrow> effect list" where
  "written log = filter is_write log"

lemma written_simps [simp]: "written [] = []" "written (xs @ ys) = written xs @ written ys"
  "written (e # es) = (if is_write e then e # written es else written es)"
  by (simp_all add: written_def)

text \<open>The writes of a log that the API server refused, with its errors.\<close>

fun write_failures :: "('l, 's) k8s_env \<Rightarrow> effect_log \<Rightarrow> effect list \<Rightarrow> (effect \<times> go_error) list" where
  "write_failures env log [] = []"
| "write_failures env log (e # es) =
     (if is_write e then (case ke_Write env log e of None \<Rightarrow> [] | Some err \<Rightarrow> [(e, err)]) else []) @
     write_failures env (log @ [e]) es"

lemma write_failures_append [simp]:
  "write_failures env log (xs @ ys) = write_failures env log xs @ write_failures env (log @ xs) ys"
  by (induction env log xs rule: write_failures.induct) auto

lemma failure_written: "(e, err) \<in> set (write_failures env log es) \<Longrightarrow> e \<in> set (written es)"
proof (induction es arbitrary: log)
  case (Cons x es)
  show ?case
    using Cons.prems Cons.IH [of "log @ [x]"] by (cases "is_write x"; cases "ke_Write env log x") auto
qed simp

text \<open>
  The interface between a kind and the shared loops: every planned effect is a write and the
  message of a failure is a function of the write and the error.
\<close>

locale item_plans =
  fixes plan :: "'i \<Rightarrow> item_plan"
    and message :: "effect \<Rightarrow> go_error \<Rightarrow> string"
  assumes plan_write: "is_write (ip_Write (plan i))"
    and plan_message: "ip_FailMsg (plan i) err = message (ip_Write (plan i)) err"
begin

lemma items_effects:
  "\<exists>new. write_items env kind name plan items (errs, log) =
       (errs @ map (\<lambda>(e, err). message e err) (write_failures env log new), log @ new) \<and>
     written new = map (\<lambda>i. ip_Write (plan i)) items"
proof (induction items arbitrary: errs log)
  case Nil
  show ?case
    by (rule exI [of _ "[]"]) simp
next
  case (Cons i items)
  let ?e = "ip_Write (plan i)"
  let ?ans = "ke_Write env log ?e"
  define ev where "ev = (case ?ans of
      Some err \<Rightarrow> EvEvent kind name EventWarning ''Failed'' (message ?e err)
    | None \<Rightarrow> EvEvent kind name EventNormal (ip_OkReason (plan i)) (ip_OkMsg (plan i)))"
  define errs1 where "errs1 = errs @ (case ?ans of None \<Rightarrow> [] | Some err \<Rightarrow> [message ?e err])"
  have "write_items env kind name plan (i # items) (errs, log) =
      write_items env kind name plan items (errs1, log @ [?e, ev])"
    by (simp add: ev_def errs1_def plan_message Let_def split: option.splits)
  moreover obtain new where "write_items env kind name plan items (errs1, log @ [?e, ev]) =
      (errs1 @ map (\<lambda>(e, err). message e err) (write_failures env (log @ [?e, ev]) new), (log @ [?e, ev]) @ new)"
    and "written new = map (\<lambda>i. ip_Write (plan i)) items"
    using Cons by blast
  moreover have "\<not> is_write ev"
    by (simp add: ev_def split: option.splits)
  ultimately show ?case
    by (intro exI [of _ "?e # ev # new"]) (auto simp: plan_write errs1_def split: option.splits)
qed

end

text \<open>
  A loop over namespaces: each namespace is listed once, in order; every item of a list that was
  answered is written, and nothing else; the job has an error exactly when a list request or a
  write failed.
\<close>

definition list_answers :: "('l, 's) k8s_env \<Rightarrow> string \<Rightarrow> 's \<Rightarrow> effect_log \<Rightarrow> effect_log \<Rightarrow> string list \<Rightarrow>
    (go_error + (string \<times> string) list) list \<Rightarrow> bool" where
  "list_answers env resource selector log log' namespaces answers \<longleftrightarrow>
     list_all2 (\<lambda>n ans. \<exists>seen rest. log' = log @ seen @ rest \<and> ans = ke_List env (log @ seen) resource n selector) namespaces answers"

definition listed :: "go_error + 'i list \<Rightarrow> 'i list" where
  "listed ans = (case ans of Inl err \<Rightarrow> [] | Inr items \<Rightarrow> items)"

lemma list_answers_extend:
  "list_answers env resource selector (log @ mid) log' namespaces answers \<Longrightarrow> list_answers env resource selector log log' namespaces answers"
  unfolding list_answers_def by (erule list_all2_mono) (metis append.assoc)

lemma list_answers_later:
  "list_answers env resource selector log log' namespaces answers \<Longrightarrow> list_answers env resource selector log (log' @ later) namespaces answers"
  unfolding list_answers_def by (erule list_all2_mono) (metis append.assoc)

lemma list_answers_Cons:
  assumes "list_answers env resource selector (log @ mid) log' namespaces answers" and "log' = log @ mid @ rest"
  shows "list_answers env resource selector log log' (n # namespaces) (ke_List env log resource n selector # answers)"
proof -
  have "\<exists>seen rest'. log' = log @ seen @ rest' \<and> ke_List env log resource n selector = ke_List env (log @ seen) resource n selector"
    by (intro exI [of _ "[]"] exI [of _ "mid @ rest"]) (simp add: assms(2))
  with list_answers_extend [OF assms(1)] show ?thesis
    by (simp add: list_answers_def)
qed

text \<open>The plans for items that a list request returns: namespace and name of an object.\<close>

locale listed_plans = item_plans plan message
  for plan :: "string \<times> string \<Rightarrow> item_plan" and message
begin

lemma namespace_effects:
  "\<exists>new answers errs'. namespace_loop env kind name resource selector listMsg plan namespaces (errs, log) = (errs @ errs', log @ new) \<and>
    list_answers env resource selector log (log @ new) namespaces answers \<and>
    written new = concat (map (\<lambda>ans. map (\<lambda>i. ip_Write (plan i)) (listed ans)) answers) \<and>
    (errs' = [] \<longleftrightarrow> (\<forall>ans \<in> set answers. \<not> isl ans) \<and> write_failures env log new = [])"
proof (induction namespaces arbitrary: errs log)
  case Nil
  show ?case
    by (intro exI [of _ "[]"]) (simp add: list_answers_def)
next
  case (Cons n namespaces)
  let ?ans = "ke_List env log resource n selector"
  obtain mid errs1 where step: "namespace_loop env kind name resource selector listMsg plan (n # namespaces) (errs, log) =
      namespace_loop env kind name resource selector listMsg plan namespaces (errs @ errs1, log @ mid)"
    and w: "written mid = map (\<lambda>i. ip_Write (plan i)) (listed ?ans)"
    and e: "errs1 = [] \<longleftrightarrow> \<not> isl ?ans \<and> write_failures env log mid = []"
  proof (cases ?ans)
    case (Inl err)
    then show thesis
      by (intro that [of "[listMsg n]" "[EvEvent kind name EventWarning ''Failed'' (listMsg n)]"]) (simp_all add: listed_def)
  next
    case (Inr items)
    obtain new where "write_items env kind name plan items (errs, log) =
        (errs @ map (\<lambda>(e, err). message e err) (write_failures env log new), log @ new)"
      and "written new = map (\<lambda>i. ip_Write (plan i)) items"
      using items_effects [of env kind name items errs log] by (elim exE conjE)
    then show thesis
      by (intro that [of "map (\<lambda>(e, err). message e err) (write_failures env log new)" new]) (simp_all add: Inr listed_def)
  qed
  obtain new answers errs' where rest: "namespace_loop env kind name resource selector listMsg plan namespaces (errs @ errs1, log @ mid) =
      ((errs @ errs1) @ errs', (log @ mid) @ new)"
    and ans: "list_answers env resource selector (log @ mid) ((log @ mid) @ new) namespaces answers"
    and w': "written new = concat (map (\<lambda>ans. map (\<lambda>i. ip_Write (plan i)) (listed ans)) answers)"
    and e': "errs' = [] \<longleftrightarrow> (\<forall>ans \<in> set answers. \<not> isl ans) \<and> write_failures env (log @ mid) new = []"
    using Cons [of "errs @ errs1" "log @ mid"] by (elim exE conjE)
  have "list_answers env resource selector log (log @ mid @ new) (n # namespaces) (?ans # answers)"
    using list_answers_Cons [OF ans, of new n] by simp
  moreover have "written (mid @ new) = concat (map (\<lambda>ans. map (\<lambda>i. ip_Write (plan i)) (listed ans)) (?ans # answers))"
    by (simp add: w w')
  moreover have "errs1 @ errs' = [] \<longleftrightarrow> (\<forall>ans \<in> set (?ans # answers). \<not> isl ans) \<and> write_failures env log (mid @ new) = []"
    by (auto simp: e e')
  ultimately show ?case
    unfolding step rest append_assoc by blast
qed

end

fun workload_label :: "string \<Rightarrow> string" where
  "workload_label kind = (if kind = ''Deployment'' then ''deployment'' else ''statefulset'')"

fun write_message :: "effect \<Rightarrow> go_error \<Rightarrow> string" where
  "write_message (EvUpdateReplicas kind n x w) err = ''failed to update '' @ workload_label kind @ '' '' @ quoted n @ ''/'' @ quoted x"
| "write_message (EvUpdateHpa n x lo hi) err = ''Failed to update HorizontalPodAutoscaler '' @ quoted n @ ''/'' @ quoted x"
| "write_message _ err = ''Failed to create job: '' @ err_Error err"

interpretation replicas: listed_plans "replicas_plan kind (workload_label kind) act" write_message
  by unfold_locales (auto simp: replicas_plan_def)

interpretation hpa: listed_plans "hpa_plan act" write_message
  by unfold_locales (auto simp: hpa_plan_def Let_def)

interpretation run: item_plans "run_plan env obj act a" write_message
  by unfold_locales (auto simp: run_plan_def Let_def)

section \<open>Replicas\<close>

lemma sint_int32: "sint (int32 v) = v \<longleftrightarrow> - (2 ^ 31) \<le> v \<and> v < 2 ^ 31"
proof
  assume "sint (int32 v) = v"
  then show "- (2 ^ 31) \<le> v \<and> v < 2 ^ 31"
    using sint_greater_eq [of "int32 v"] sint_less [of "int32 v"] by simp
next
  assume "- (2 ^ 31) \<le> v \<and> v < 2 ^ 31"
  then show "sint (int32 v) = v"
    unfolding int32_def by transfer (simp add: signed_take_bit_int_eq_self)
qed

lemma written_status [simp]: "written (new @ [EvStatusUpdate k n c]) = written new"
  by simp

lemma failures_status [simp]: "write_failures env log (new @ [EvStatusUpdate k n c]) = write_failures env log new"
  by simp

text \<open>The tail of a job over namespaces, for the two kinds that list objects.\<close>

lemma listed_job:
  assumes "meta_contract meta"
    and "\<exists>new answers errs'. loop = ([] @ errs', log @ new) \<and> list_answers env resource selector log (log @ new) namespaces answers \<and>
      written new = W answers \<and> (errs' = [] \<longleftrightarrow> (\<forall>ans \<in> set answers. \<not> isl ans) \<and> write_failures env log new = [])"
    and "(case loop of (errorsList, log1) \<Rightarrow> finish_job env meta kind name conditions a errorsList log1) = (r, md, log')"
  shows "\<exists>new answers. log' = log @ new \<and> list_answers env resource selector log log' namespaces answers \<and> written new = W answers \<and>
    r = (if (\<forall>ans \<in> set answers. \<not> isl ans) \<and> write_failures env log new = [] then JobResultSuccess else JobResultFailure)"
proof -
  from assms(2) obtain new answers errs' where loop: "loop = (errs', log @ new)"
    and ans: "list_answers env resource selector log (log @ new) namespaces answers"
    and w: "written new = W answers" and e: "errs' = [] \<longleftrightarrow> (\<forall>ans \<in> set answers. \<not> isl ans) \<and> write_failures env log new = []"
    by auto
  obtain conds where fin: "finish_job env meta kind name conditions a errs' (log @ new) =
      (if errs' = [] then JobResultSuccess else JobResultFailure,
       if errs' = [] then [] else [(''error_list'', MetaList errs')], (log @ new) @ [EvStatusUpdate kind name conds])"
    by (rule finish_job_spec [OF assms(1)])
  have log': "log' = log @ (new @ [EvStatusUpdate kind name conds])"
    and r: "r = (if errs' = [] then JobResultSuccess else JobResultFailure)"
    using assms(3) by (simp_all add: loop fin)
  have "list_answers env resource selector log log' namespaces answers"
    using list_answers_later [OF ans, of "[EvStatusUpdate kind name conds]"] by (simp add: log')
  moreover have "written (new @ [EvStatusUpdate kind name conds]) = W answers"
    by (simp only: written_status w)
  moreover have "r = (if (\<forall>ans \<in> set answers. \<not> isl ans) \<and> write_failures env log (new @ [EvStatusUpdate kind name conds]) = []
      then JobResultSuccess else JobResultFailure)"
    by (simp only: failures_status r e)
  ultimately show ?thesis
    using log' by blast
qed

text \<open>An API server for the witnesses, with one object per namespace; it refuses to write to \<open>locked\<close>.\<close>

definition demo_k8s :: "(string, string) k8s_env" where
  "demo_k8s = \<lparr>je_Start = 0, je_End = 5, je_RFC3339 = show_int, ke_AsSelector = Inr, ke_Empty = (\<lambda>s. s = ''''),
     ke_List = (\<lambda>_ _ n _. Inr [(n, ''web'')]),
     ke_Write = (\<lambda>_ e. if e = EvUpdateReplicas ''Deployment'' ''locked'' ''web'' 0 then Some (Err ''denied'') else None),
     ke_Suffix = ''202401012000'', ke_Owners = (\<lambda>owner n. [owner])\<rparr>"

definition demo_replicas :: "string list \<Rightarrow> string K8sPodReplicas" where
  "demo_replicas namespaces = \<lparr>pr_Name = ''web'', pr_Namespace = '''', pr_Enabled = None, pr_Namespaces = namespaces,
     pr_ResourceType = ''Deployment'', pr_LabelSelector = '''', pr_Schedule = ''office'',
     pr_Actions = [(''night'', \<lparr>ra_Enabled = None, ra_Replicas = 0\<rparr>)], pr_Conditions = []\<rparr>"

definition demo_hpa :: "int \<Rightarrow> string K8sHpa" where
  "demo_hpa hi = \<lparr>hp_Name = ''web'', hp_Namespace = '''', hp_Enabled = None, hp_Namespaces = [''shop''],
     hp_LabelSelector = '''', hp_Schedule = ''office'',
     hp_Actions = [(''day'', \<lparr>ha_Enabled = None, ha_MinReplicas = 1, ha_MaxReplicas = hi\<rparr>)], hp_Conditions = []\<rparr>"



text \<open>
  Claim C27. The job of a K8sHpa resource: it refuses bounds in the wrong order, and an empty
  selector without namespaces. Otherwise it sets the bounds of every listed autoscaler, and of no
  other, and reports Success exactly when every request was accepted.
\<close>

theorem set_autoscaling_exact:
  assumes "meta_contract meta" and "getObj log ns name = Inr obj" and "mget (hp_Actions obj) a = Some act"
    and "ke_AsSelector env (hp_LabelSelector obj) = Inr sel"
    and "setAutoscaling env meta getObj log ns name a = (r, md, log')"
  shows "if ha_MaxReplicas act < ha_MinReplicas act \<or> hp_Namespaces obj = [] \<and> ke_Empty env sel then r = JobResultError \<and> log' = log
    else \<exists>new answers. log' = log @ new \<and>
      list_answers env ''HorizontalPodAutoscaler'' sel log log' (if hp_Namespaces obj = [] then [''''] else hp_Namespaces obj) answers \<and>
      written new = concat (map (\<lambda>ans. map (\<lambda>(n, x). EvUpdateHpa n x (int32 (ha_MinReplicas act)) (int32 (ha_MaxReplicas act))) (listed ans)) answers) \<and>
      r = (if (\<forall>ans \<in> set answers. \<not> isl ans) \<and> write_failures env log new = [] then JobResultSuccess else JobResultFailure)"
proof (cases "ha_MaxReplicas act < ha_MinReplicas act \<or> hp_Namespaces obj = [] \<and> ke_Empty env sel")
  case True
  with assms show ?thesis
    by (auto simp: setAutoscaling_def target_namespaces_def job_error_def split: if_splits)
next
  case False
  let ?nss = "if hp_Namespaces obj = [] then [''''] else hp_Namespaces obj"
  have plan: "ip_Write (hpa_plan act i) = (case i of (n, x) \<Rightarrow> EvUpdateHpa n x (int32 (ha_MinReplicas act)) (int32 (ha_MaxReplicas act)))" for i
    by (cases i) (simp add: hpa_plan_def Let_def)
  have "(case namespace_loop env ''K8sHpa'' (hp_Name obj) ''HorizontalPodAutoscaler'' sel
        (\<lambda>namespace. ''Failed to list HorizontalPodAutoscaler in namespace '' @ quoted namespace) (hpa_plan act) ?nss ([], log) of
      (errorsList, log1) \<Rightarrow> finish_job env meta ''K8sHpa'' (hp_Name obj) (hp_Conditions obj) a errorsList log1) = (r, md, log')"
    using assms(2-5) False by (auto simp: setAutoscaling_def target_namespaces_def split: if_splits)
  from listed_job [OF assms(1) hpa.namespace_effects this] show ?thesis
    unfolding if_not_P [OF False] plan by (simp only: split_def)
qed

theorem set_autoscaling_exact_witness:
  "\<exists>r md log'. setAutoscaling demo_k8s keyed_meta (\<lambda>_ _ _. Inr (demo_hpa 5)) [] '''' ''web'' ''day'' = (r, md, log') \<and>
     (\<exists>answers. list_answers demo_k8s ''HorizontalPodAutoscaler'' '''' [] log' [''shop''] answers)"
proof -
  obtain r md log' where run: "setAutoscaling demo_k8s keyed_meta (\<lambda>_ _ _. Inr (demo_hpa 5)) [] '''' ''web'' ''day'' = (r, md, log')"
    by (rule prod_cases3)
  from set_autoscaling_exact [OF keyed_meta_contract _ _ _ run, where obj = "demo_hpa 5" and sel = "''''"]
  have "\<exists>answers. list_answers demo_k8s ''HorizontalPodAutoscaler'' '''' [] log' [''shop''] answers"
    by (force simp: demo_hpa_def demo_k8s_def)
  with run show ?thesis
    by blast
qed

text \<open>
  The replica numbers reach the API server unchanged exactly when they fit into 32 bits:
  then the number written is the action's number, and the bounds of an autoscaler that passed the
  check of their order are written in this order. Outside the range the number written is another.
\<close>

theorem replica_numbers_in_range:
  assumes "ip_Write (replicas_plan kind label act (n, x)) = EvUpdateReplicas kind n x w"
    and "ip_Write (hpa_plan hact (n, x)) = EvUpdateHpa n x lo hi"
  shows "(sint w = ra_Replicas act \<longleftrightarrow> - (2 ^ 31) \<le> ra_Replicas act \<and> ra_Replicas act < 2 ^ 31) \<and>
    (- (2 ^ 31) \<le> ha_MinReplicas hact \<and> ha_MinReplicas hact \<le> ha_MaxReplicas hact \<and> ha_MaxReplicas hact < 2 ^ 31 \<longrightarrow>
       sint lo = ha_MinReplicas hact \<and> sint hi = ha_MaxReplicas hact \<and> sint lo \<le> sint hi)"
proof -
  have "w = int32 (ra_Replicas act)" and "lo = int32 (ha_MinReplicas hact)" and "hi = int32 (ha_MaxReplicas hact)"
    using assms by (simp_all add: replicas_plan_def hpa_plan_def Let_def)
  moreover have "sint (int32 (ha_MinReplicas hact)) = ha_MinReplicas hact \<and> sint (int32 (ha_MaxReplicas hact)) = ha_MaxReplicas hact"
    if "- (2 ^ 31) \<le> ha_MinReplicas hact \<and> ha_MinReplicas hact \<le> ha_MaxReplicas hact \<and> ha_MaxReplicas hact < 2 ^ 31"
    using that by (auto simp: sint_int32)
  ultimately show ?thesis
    using sint_int32 [of "ra_Replicas act"] by metis
qed

theorem replica_numbers_in_range_witness:
  "sint (int32 3) = 3 \<and> sint (int32 1) \<le> sint (int32 5)"
  using replica_numbers_in_range [where kind = "''Deployment''" and label = "''deployment''"
      and act = "\<lparr>ra_Enabled = None, ra_Replicas = 3\<rparr>" and hact = "\<lparr>ha_Enabled = None, ha_MinReplicas = 1, ha_MaxReplicas = 5\<rparr>"
      and n = "''n''" and x = "''x''" and w = "int32 3" and lo = "int32 1" and hi = "int32 5"]
  by (simp add: replicas_plan_def hpa_plan_def Let_def)

text \<open>
  The check of the order of the bounds is made before they are cut to 32 bits: an action
  with the bounds 1 and 2 to the power 31 passes it, reports Success, and writes an upper bound
  below the lower one.
\<close>

theorem hpa_bounds_wrap:
  "let (r, md, log') = setAutoscaling demo_k8s keyed_meta (\<lambda>_ _ _. Inr (demo_hpa (2 ^ 31))) [] '''' ''web'' ''day''
   in r = JobResultSuccess \<and> written log' = [EvUpdateHpa ''shop'' ''web'' 1 (int32 (2 ^ 31))] \<and>
      sint (int32 (2 ^ 31)) < sint (1 :: 32 word)"
  by (simp add: setAutoscaling_def demo_hpa_def demo_k8s_def target_namespaces_def hpa_plan_def finish_job_def int32_def)

section \<open>Jobs to run\<close>

lemma job_name_take: "job_name objName actionName suffix = take 48 (objName @ ''-'' @ actionName) @ ''-'' @ suffix"
  by (simp add: job_name_def Let_def)

lemma job_name_length: "length (job_name objName actionName suffix) \<le> 49 + length suffix"
  by (simp add: job_name_take)

text \<open>Two actions of one resource with a long name get the same job name within a minute.\<close>

lemma job_names_collide: "47 \<le> length objName \<Longrightarrow> job_name objName a suffix = job_name objName b suffix"
proof -
  assume "47 \<le> length objName"
  then have "take (48 - length objName) (''-'' @ c) = take (48 - length objName) ''-''" for c
    by (cases "length objName = 47") auto
  then show ?thesis
    by (simp only: job_name_take take_append)
qed

text \<open>
  The job of a K8sRunJob resource creates one Kubernetes job per namespace of the spec,
  in their order, or one in the operator's namespace when the spec has none: with the action's
  job spec, a time to live (one day unless the spec gives one), the labels of the action, the
  schedule and the resource, and a name of at most 63 bytes. It goes on after a refused creation,
  and fails exactly when some creation was refused, with the errors of exactly these.
\<close>

theorem run_job_exact:
  assumes "meta_contract meta" and "getObj log ns name = Inr obj" and "mget (rj_Actions obj) a = Some act"
    and "length (ke_Suffix env) = 12"
    and "runJob env meta operatorNamespace getObj log ns name a = (r, md, log')"
  shows "\<exists>new jobs. log' = log @ new \<and> written new = map EvCreateJob jobs \<and>
    map kj_Namespace jobs = (if rj_Namespaces obj = [] then [operatorNamespace] else rj_Namespaces obj) \<and>
    (\<forall>j \<in> set jobs. length (kj_Name j) \<le> 63 \<and> kj_Spec j = ua_JobSpec act \<and>
       (case ua_TTLSecondsAfterFinished act of None \<Rightarrow> kj_TTLSecondsAfterFinished j = Some 86400
        | Some t \<Rightarrow> kj_TTLSecondsAfterFinished j = Some t) \<and>
       mget (kj_Labels j) ''timeterra.d3vlo0p.dev/action'' = Some a \<and>
       mget (kj_Labels j) ''timeterra.d3vlo0p.dev/schedule'' = Some (rj_Schedule obj) \<and>
       mget (kj_Labels j) ''timeterra.d3vlo0p.dev/k8srunjob'' = Some (rj_Name obj)) \<and>
    (let failed = map (\<lambda>(e, err). ''Failed to create job: '' @ err_Error err) (write_failures env log new) in
     if failed = [] then r = JobResultSuccess \<and> md = []
     else r = JobResultFailure \<and> md = [(''error_list'', MetaList failed)])"
proof -
  let ?nss = "if rj_Namespaces obj = [] then [operatorNamespace] else rj_Namespaces obj"
  define job where "job = (\<lambda>n. case ip_Write (run_plan env obj act a n) of EvCreateJob j \<Rightarrow> j)"
  have plan: "ip_Write (run_plan env obj act a n) = EvCreateJob (job n)" for n
    by (simp add: job_def run_plan_def Let_def)
  obtain new where loop: "write_items env ''K8sRunJob'' (rj_Name obj) (run_plan env obj act a) ?nss ([], log) =
      (map (\<lambda>(e, err). write_message e err) (write_failures env log new), log @ new)"
    and w: "written new = map EvCreateJob (map job ?nss)"
    using run.items_effects [of env "''K8sRunJob''" "rj_Name obj" env obj act a ?nss "[]" log] by (auto simp: plan)
  let ?errs = "map (\<lambda>(e, err). write_message e err) (write_failures env log new)"
  have errs: "?errs = map (\<lambda>(e, err). ''Failed to create job: '' @ err_Error err) (write_failures env log new)"
    by (rule map_cong [OF refl]) (use failure_written [of _ _ env log new] w in fastforce)
  obtain conds where fin: "finish_job env meta ''K8sRunJob'' (rj_Name obj) (rj_Conditions obj) a ?errs (log @ new) =
      (if ?errs = [] then JobResultSuccess else JobResultFailure,
       if ?errs = [] then [] else [(''error_list'', MetaList ?errs)], (log @ new) @ [EvStatusUpdate ''K8sRunJob'' (rj_Name obj) conds])"
    by (rule finish_job_spec [OF assms(1)])
  have ans: "(r, md, log') = finish_job env meta ''K8sRunJob'' (rj_Name obj) (rj_Conditions obj) a ?errs (log @ new)"
    using assms(2,3,5) by (simp add: runJob_def Let_def loop)
  have jobs: "length (kj_Name (job n)) \<le> 63 \<and> kj_Namespace (job n) = n \<and> kj_Spec (job n) = ua_JobSpec act \<and>
      (case ua_TTLSecondsAfterFinished act of None \<Rightarrow> kj_TTLSecondsAfterFinished (job n) = Some 86400
       | Some t \<Rightarrow> kj_TTLSecondsAfterFinished (job n) = Some t) \<and>
      mget (kj_Labels (job n)) ''timeterra.d3vlo0p.dev/action'' = Some a \<and>
      mget (kj_Labels (job n)) ''timeterra.d3vlo0p.dev/schedule'' = Some (rj_Schedule obj) \<and>
      mget (kj_Labels (job n)) ''timeterra.d3vlo0p.dev/k8srunjob'' = Some (rj_Name obj)" for n
    using job_name_length [of "rj_Name obj" a "ke_Suffix env"] assms(4)
    by (simp add: job_def run_plan_def Let_def split: option.splits)
  have "map kj_Namespace (map job ?nss) = ?nss"
    using jobs by (simp add: map_idI)
  moreover have "written (new @ [EvStatusUpdate ''K8sRunJob'' (rj_Name obj) conds]) = map EvCreateJob (map job ?nss)"
    by (simp only: written_status w)
  ultimately show ?thesis
    using ans jobs unfolding fin
    by (intro exI [of _ "new @ [EvStatusUpdate ''K8sRunJob'' (rj_Name obj) conds]"] exI [of _ "map job ?nss"])
      (auto simp: errs Let_def)
qed

definition demo_run :: K8sRunJob where
  "demo_run = \<lparr>rj_Name = ''backup'', rj_Namespace = '''', rj_Enabled = None, rj_Namespaces = [], rj_Schedule = ''office'',
     rj_Actions = [(''night'', \<lparr>ua_Enabled = None, ua_TTLSecondsAfterFinished = None, ua_JobSpec = ''spec''\<rparr>)], rj_Conditions = []\<rparr>"

theorem run_job_exact_witness:
  "\<exists>r md log' jobs. runJob demo_k8s keyed_meta ''ops'' (\<lambda>_ _ _. Inr demo_run) [] '''' ''backup'' ''night'' = (r, md, log') \<and>
     written log' = map EvCreateJob jobs \<and> map kj_Namespace jobs = [''ops'']"
proof -
  obtain r md log' where run: "runJob demo_k8s keyed_meta ''ops'' (\<lambda>_ _ _. Inr demo_run) [] '''' ''backup'' ''night'' = (r, md, log')"
    by (rule prod_cases3)
  have len: "length (ke_Suffix demo_k8s) = 12" and act: "mget (rj_Actions demo_run) ''night'' = Some (snd (hd (rj_Actions demo_run)))"
    and nss: "rj_Namespaces demo_run = []"
    by (simp_all add: demo_k8s_def demo_run_def)
  from run_job_exact [OF keyed_meta_contract refl act len run] obtain new jobs where "log' = [] @ new"
    and "written new = map EvCreateJob jobs"
    and "map kj_Namespace jobs = (if rj_Namespaces demo_run = [] then [''ops''] else rj_Namespaces demo_run)"
    by blast
  with run show ?thesis
    by (auto simp: nss)
qed

end
