(* ===== verification/Operator.thy ===== *)
theory Operator
  imports Schedule_Controller Action_Execution K8s_Jobs
begin

text \<open>
  The controllers together, as \<^verbatim>\<open>cmd/main.go\<close> wires them: nine reconcilers and the fired cron
  entries work on one schedule service. The service's mutex and the work queue make each of these an
  atomic step here; a step may get any answers of the API server and the clouds, so they come with
  the step. The locale \<open>resource_reconciler\<close> is what the seven resource reconcilers promise to the
  rest: they keep the service's invariant, touch only the entries of the resource they reconcile,
  and add only jobs that carry their own key.
\<close>

section \<open>The environment of a step\<close>

record ('l, 'x) operator_env =
  oe_api :: api_server
  oe_meta :: meta_api
  oe_ord :: range_order
  oe_job :: job_env
  oe_k8s :: "('l, 'x) k8s_env"
  oe_features :: "feature_registry option"
  oe_namespace :: string
  oe_rds :: "effect_log \<Rightarrow> string \<Rightarrow> string \<Rightarrow> go_error + AwsRdsAuroraCluster"
  oe_docdb :: "effect_log \<Rightarrow> string \<Rightarrow> string \<Rightarrow> go_error + AwsDocumentDBCluster"
  oe_ec2 :: "effect_log \<Rightarrow> string \<Rightarrow> string \<Rightarrow> go_error + AwsEc2Instance"
  oe_transfer :: "effect_log \<Rightarrow> string \<Rightarrow> string \<Rightarrow> go_error + AwsTransferFamily"
  oe_replicas :: "effect_log \<Rightarrow> string \<Rightarrow> string \<Rightarrow> go_error + 'l K8sPodReplicas"
  oe_hpa :: "effect_log \<Rightarrow> string \<Rightarrow> string \<Rightarrow> go_error + 'l K8sHpa"
  oe_run :: "effect_log \<Rightarrow> string \<Rightarrow> string \<Rightarrow> go_error + K8sRunJob"

definition operator_kinds :: "string list" where
  "operator_kinds = [''AwsRdsAuroraCluster'', ''AwsDocumentDBCluster'', ''AwsEc2Instance'', ''AwsTransferFamily'',
     ''K8sPodReplicas'', ''K8sHpa'', ''K8sRunJob'']"

text \<open>The method a reconciler passes to \<^verbatim>\<open>reconcileResource\<close> as the job of its kind; a cron entry
  never has another kind.\<close>

definition job_function :: "('l, 'x) operator_env \<Rightarrow> string \<Rightarrow> job_fun" where
  "job_function e kind =
     (if kind = ''AwsRdsAuroraCluster''
      then AwsRdsAuroraCluster_startStopCluster (oe_job e) (oe_meta e) (oe_features e) (oe_namespace e) (oe_rds e)
      else if kind = ''AwsDocumentDBCluster''
      then AwsDocumentDBCluster_startStopCluster (oe_job e) (oe_meta e) (oe_features e) (oe_namespace e) (oe_docdb e)
      else if kind = ''AwsEc2Instance'' then startStopInstances (oe_job e) (oe_meta e) (oe_namespace e) (oe_ec2 e)
      else if kind = ''AwsTransferFamily'' then startStopServer (oe_job e) (oe_meta e) (oe_namespace e) (oe_transfer e)
      else if kind = ''K8sPodReplicas'' then setReplicas (oe_k8s e) (oe_meta e) (oe_replicas e)
      else if kind = ''K8sHpa'' then setAutoscaling (oe_k8s e) (oe_meta e) (oe_hpa e)
      else if kind = ''K8sRunJob'' then runJob (oe_k8s e) (oe_meta e) (oe_namespace e) (oe_run e)
      else (\<lambda>log ns name a. (JobResultSkipped, [], log)))"

text \<open>The reconcilers of the seven kinds; their resources are cluster-scoped.\<close>

definition kind_Reconcile :: "('c, 's) job_lib \<Rightarrow> ('l, 'x) operator_env \<Rightarrow> string \<Rightarrow> 'c rc_state \<Rightarrow> string \<Rightarrow>
    (go_error option \<times> 'c rc_state) option" where
  "kind_Reconcile lib e kind st name =
     (let ord = oe_ord e; api = oe_api e; meta = oe_meta e in
      if kind = ''AwsRdsAuroraCluster''
      then Some (AwsRdsAuroraCluster_Reconcile lib ord api meta (oe_job e) (\<lambda>log. oe_rds e log '''') (oe_namespace e) st name)
      else if kind = ''AwsDocumentDBCluster''
      then Some (AwsDocumentDBCluster_Reconcile lib ord api meta (oe_job e) (\<lambda>log. oe_docdb e log '''') (oe_namespace e) st name)
      else if kind = ''AwsEc2Instance''
      then Some (AwsEc2Instance_Reconcile lib ord api meta (oe_job e) (\<lambda>log. oe_ec2 e log '''') (oe_namespace e) st name)
      else if kind = ''AwsTransferFamily''
      then Some (AwsTransferFamily_Reconcile lib ord api meta (oe_job e) (\<lambda>log. oe_transfer e log '''') (oe_namespace e) st name)
      else if kind = ''K8sPodReplicas'' then Some (K8sPodReplicas_Reconcile lib ord api meta (\<lambda>log. oe_replicas e log '''') st name)
      else if kind = ''K8sHpa'' then Some (K8sHpa_Reconcile lib ord api meta (\<lambda>log. oe_hpa e log '''') st name)
      else if kind = ''K8sRunJob'' then Some (K8sRunJob_Reconcile lib ord api meta (\<lambda>log. oe_run e log '''') st name)
      else None)"

text \<open>What the API server's storage guarantees of every object it serves: it is the object of the
  requested name, and the keys of its action map are distinct.\<close>

definition served :: "('o \<Rightarrow> string) \<Rightarrow> ('o \<Rightarrow> (string, 'a) gomap) \<Rightarrow> (effect_log \<Rightarrow> string \<Rightarrow> go_error + 'o) \<Rightarrow>
    effect_log \<Rightarrow> string \<Rightarrow> bool" where
  "served name_of actions getObj log name \<longleftrightarrow>
     (case getObj log name of Inl err \<Rightarrow> True | Inr obj \<Rightarrow> name_of obj = name \<and> gomap_ok (actions obj))"

definition env_serves :: "('l, 'x) operator_env \<Rightarrow> effect_log \<Rightarrow> string \<Rightarrow> bool" where
  "env_serves e log name \<longleftrightarrow>
     served ar_Name ar_Actions (\<lambda>log. oe_rds e log '''') log name \<and>
     served ar_Name ar_Actions (\<lambda>log. oe_docdb e log '''') log name \<and>
     served ar_Name ar_Actions (\<lambda>log. oe_ec2 e log '''') log name \<and>
     served ar_Name ar_Actions (\<lambda>log. oe_transfer e log '''') log name \<and>
     served pr_Name pr_Actions (\<lambda>log. oe_replicas e log '''') log name \<and>
     served hp_Name hp_Actions (\<lambda>log. oe_hpa e log '''') log name \<and>
     served rj_Name rj_Actions (\<lambda>log. oe_run e log '''') log name"

section \<open>The interface of a resource reconciler\<close>

definition own_job :: "string \<Rightarrow> string \<Rightarrow> cron_key \<Rightarrow> cron_job \<Rightarrow> bool" where
  "own_job kind name k j \<longleftrightarrow> k = (job_Schedule j, job_Action j, job_Resource j) \<and> job_Kind j = kind \<and> job_Name j = name \<and>
     job_Resource j = resourceName (''v1alpha1.'' @ kind) name"

definition reconciled_laws :: "('c, 's) job_lib \<Rightarrow> string \<Rightarrow> string \<Rightarrow> 'c rc_state \<Rightarrow> 'c rc_state \<Rightarrow> bool" where
  "reconciled_laws lib kind name st st' \<longleftrightarrow> svc_ok lib (rc_svc st') \<and>
     (\<forall>a b c. c \<noteq> resourceName (''v1alpha1.'' @ kind) name \<longrightarrow>
        registry lib (rc_svc st') (a, b, c) = registry lib (rc_svc st) (a, b, c)) \<and>
     (\<forall>k sch j. registry lib (rc_svc st') k = Some (sch, j) \<longrightarrow>
        registry lib (rc_svc st) k = Some (sch, j) \<or> own_job kind name k j)"

locale resource_reconciler =
  fixes lib :: "('c, 's) job_lib"
    and kind :: string
    and reconcile :: "'c rc_state \<Rightarrow> string \<Rightarrow> go_error option \<times> 'c rc_state"
    and good :: "'c rc_state \<Rightarrow> string \<Rightarrow> bool"
  assumes keeps_ok: "svc_ok lib (rc_svc st) \<Longrightarrow> good st name \<Longrightarrow> svc_ok lib (rc_svc (snd (reconcile st name)))"
    and frame: "svc_ok lib (rc_svc st) \<Longrightarrow> good st name \<Longrightarrow> c \<noteq> resourceName (''v1alpha1.'' @ kind) name \<Longrightarrow>
      registry lib (rc_svc (snd (reconcile st name))) (a, b, c) = registry lib (rc_svc st) (a, b, c)"
    and origin: "svc_ok lib (rc_svc st) \<Longrightarrow> good st name \<Longrightarrow>
      registry lib (rc_svc (snd (reconcile st name))) (a, b, c) = Some (sch, j) \<Longrightarrow>
      registry lib (rc_svc st) (a, b, c) = Some (sch, j) \<or> own_job kind name (a, b, c) j"
begin

text \<open>An entry that was not there before is one of the reconciled resource.\<close>

lemma new_entry:
  assumes "svc_ok lib (rc_svc st)" and "good st name"
    and "registry lib (rc_svc st) k = None" and "registry lib (rc_svc (snd (reconcile st name))) k = Some (sch, j)"
  shows "own_job kind name k j"
  using origin [OF assms(1,2)] assms(3,4) by (cases k) fastforce

lemma reconciled:
  assumes "reconcile st name = (err, st')" and "svc_ok lib (rc_svc st)" and "good st name"
  shows "reconciled_laws lib kind name st st'"
  using keeps_ok [OF assms(2,3)] frame [OF assms(2,3)] origin [OF assms(2,3)] assms(1)
  by (auto simp: reconciled_laws_def)

end

section \<open>The reconcilers provide it\<close>

text \<open>What a reconciler of the shared shape does to the service: nothing, the removal of a deleted
  resource, or \<^const>\<open>reconcileResource\<close> on the object fetched.\<close>

definition reconcile_outcome :: "('c, 's) job_lib \<Rightarrow> range_order \<Rightarrow> api_server \<Rightarrow> meta_api \<Rightarrow> string \<Rightarrow>
    (effect_log \<Rightarrow> string \<Rightarrow> go_error + 'o) \<Rightarrow> ('o \<Rightarrow> reconcile_resource) \<Rightarrow> ('o \<Rightarrow> (string, 'a) gomap) \<Rightarrow> ('a \<Rightarrow> bool) \<Rightarrow>
    'c rc_state \<Rightarrow> string \<Rightarrow> 'c schedule_service \<Rightarrow> bool" where
  "reconcile_outcome lib ord api meta kind getObj view actions isActive st name svc \<longleftrightarrow>
     svc = rc_svc st \<or> svc = RemoveResource lib ord (rc_svc st) (resourceName (''v1alpha1.'' @ kind) name) \<or>
     (\<exists>obj. getObj (rc_log st) name = Inr obj \<and>
        svc = rc_svc (snd (reconcileResource lib ord api meta st (view obj) (resourceName (''v1alpha1.'' @ kind) name) (actions obj) isActive)))"

lemma aws_outcome:
  "reconcile_outcome lib ord api meta kind getObj (aws_reconcile_resource kind) ar_Actions isActive st name
     (rc_svc (snd (aws_Reconcile lib ord api meta env kind getObj isActive operatorNamespace st name)))"
  by (cases "getObj (rc_log st) name")
    (auto simp: reconcile_outcome_def aws_Reconcile_def Let_def split: option.split sum.split)

lemma k8s_outcome:
  "reconcile_outcome lib ord api meta kind getObj view actions isActive st name
     (rc_svc (snd (k8s_Reconcile lib ord api meta kind getObj view actions isActive st name)))"
  by (cases "getObj (rc_log st) name") (auto simp: reconcile_outcome_def k8s_Reconcile_def Let_def)

lemma outcome_laws:
  assumes out: "reconcile_outcome lib ord api meta kind getObj view actions isActive st name svc"
    and ok: "svc_ok lib (rc_svc st)" and srv: "served name_of actions getObj (rc_log st) name"
    and view: "\<And>obj. rr_Kind (view obj) = kind \<and> rr_Name (view obj) = name_of obj"
  shows "svc_ok lib svc"
    and "c \<noteq> resourceName (''v1alpha1.'' @ kind) name \<Longrightarrow> registry lib svc (a, b, c) = registry lib (rc_svc st) (a, b, c)"
    and "registry lib svc (a, b, c) = Some (sch, j) \<Longrightarrow>
      registry lib (rc_svc st) (a, b, c) = Some (sch, j) \<or> own_job kind name (a, b, c) j"
proof -
  let ?z = "resourceName (''v1alpha1.'' @ kind) name"
  have "svc_ok lib svc \<and> (\<forall>c. c \<noteq> ?z \<longrightarrow> registry lib svc (a, b, c) = registry lib (rc_svc st) (a, b, c)) \<and>
    (\<forall>c. registry lib svc (a, b, c) = Some (sch, j) \<longrightarrow>
      registry lib (rc_svc st) (a, b, c) = Some (sch, j) \<or> own_job kind name (a, b, c) j)" for a b
    using out unfolding reconcile_outcome_def
  proof (elim disjE exE conjE)
    assume "svc = rc_svc st"
    with ok show ?thesis by simp
  next
    assume "svc = RemoveResource lib ord (rc_svc st) ?z"
    then show ?thesis
      by (simp add: RemoveResource_ok [OF ok] registry_RemoveResource [OF ok])
  next
    fix obj
    assume get: "getObj (rc_log st) name = Inr obj"
      and svc: "svc = rc_svc (snd (reconcileResource lib ord api meta st (view obj) ?z (actions obj) isActive))"
    from srv get have acts: "gomap_ok (actions obj)" and nm: "name_of obj = name"
      by (simp_all add: served_def)
    have own: "own_job kind name (rr_Schedule (view obj), b, ?z) (mk_job (view obj) ?z b)" for b
      using view [of obj] nm by (simp add: own_job_def mk_job_def)
    obtain c0 where "c0 \<noteq> ?z" using that [of "CHR ''x'' # ?z"] by simp
    from reconcile_other_resources(1) [OF ok acts this] have "svc_ok lib svc"
      by (simp add: svc)
    moreover have "registry lib svc (a, b, c) = registry lib (rc_svc st) (a, b, c)" if "c \<noteq> ?z" for c
      using reconcile_other_resources(2) [OF ok acts that] by (simp add: svc)
    moreover have "registry lib (rc_svc st) (a, b, c) = Some (sch, j) \<or> own_job kind name (a, b, c) j"
      if "registry lib svc (a, b, c) = Some (sch, j)" for c
      using reconcile_origin [OF ok acts that [unfolded svc]] own by auto
    ultimately show ?thesis by blast
  qed
  then show "svc_ok lib svc"
    and "c \<noteq> ?z \<Longrightarrow> registry lib svc (a, b, c) = registry lib (rc_svc st) (a, b, c)"
    and "registry lib svc (a, b, c) = Some (sch, j) \<Longrightarrow>
      registry lib (rc_svc st) (a, b, c) = Some (sch, j) \<or> own_job kind name (a, b, c) j"
    by blast+
qed

lemma outcome_reconciler:
  assumes "\<And>st name. reconcile_outcome lib ord api meta kind getObj view actions isActive st name (rc_svc (snd (reconcile st name)))"
    and "\<And>obj. rr_Kind (view obj) = kind \<and> rr_Name (view obj) = name_of obj"
  shows "resource_reconciler lib kind reconcile (\<lambda>st. served name_of actions getObj (rc_log st))"
  by unfold_locales (use outcome_laws [OF assms(1) _ _ assms(2)] in blast)+

text \<open>The seven interpretations; a reconciliation is good when the API server serves well-formed objects.\<close>

interpretation rds_rec: resource_reconciler lib "''AwsRdsAuroraCluster''"
  "AwsRdsAuroraCluster_Reconcile lib ord api meta env getObj opns" "\<lambda>st. served ar_Name ar_Actions getObj (rc_log st)"
  unfolding AwsRdsAuroraCluster_Reconcile_def by (rule outcome_reconciler [OF aws_outcome]) (simp add: aws_reconcile_resource_def)

interpretation docdb_rec: resource_reconciler lib "''AwsDocumentDBCluster''"
  "AwsDocumentDBCluster_Reconcile lib ord api meta env getObj opns" "\<lambda>st. served ar_Name ar_Actions getObj (rc_log st)"
  unfolding AwsDocumentDBCluster_Reconcile_def by (rule outcome_reconciler [OF aws_outcome]) (simp add: aws_reconcile_resource_def)

interpretation ec2_rec: resource_reconciler lib "''AwsEc2Instance''"
  "AwsEc2Instance_Reconcile lib ord api meta env getObj opns" "\<lambda>st. served ar_Name ar_Actions getObj (rc_log st)"
  unfolding AwsEc2Instance_Reconcile_def by (rule outcome_reconciler [OF aws_outcome]) (simp add: aws_reconcile_resource_def)

interpretation transfer_rec: resource_reconciler lib "''AwsTransferFamily''"
  "AwsTransferFamily_Reconcile lib ord api meta env getObj opns" "\<lambda>st. served ar_Name ar_Actions getObj (rc_log st)"
  unfolding AwsTransferFamily_Reconcile_def by (rule outcome_reconciler [OF aws_outcome]) (simp add: aws_reconcile_resource_def)

interpretation replicas_rec: resource_reconciler lib "''K8sPodReplicas''"
  "K8sPodReplicas_Reconcile lib ord api meta getObj" "\<lambda>st. served pr_Name pr_Actions getObj (rc_log st)"
  unfolding K8sPodReplicas_Reconcile_def by (rule outcome_reconciler [OF k8s_outcome]) simp

interpretation hpa_rec: resource_reconciler lib "''K8sHpa''"
  "K8sHpa_Reconcile lib ord api meta getObj" "\<lambda>st. served hp_Name hp_Actions getObj (rc_log st)"
  unfolding K8sHpa_Reconcile_def by (rule outcome_reconciler [OF k8s_outcome]) simp

interpretation run_rec: resource_reconciler lib "''K8sRunJob''"
  "K8sRunJob_Reconcile lib ord api meta getObj" "\<lambda>st. served rj_Name rj_Actions getObj (rc_log st)"
  unfolding K8sRunJob_Reconcile_def by (rule outcome_reconciler [OF k8s_outcome]) simp

lemmas kinds_reconciled = rds_rec.reconciled docdb_rec.reconciled ec2_rec.reconciled transfer_rec.reconciled
  replicas_rec.reconciled hpa_rec.reconciled run_rec.reconciled

text \<open>All kinds at once.\<close>

lemma kind_reconciled:
  assumes "svc_ok lib (rc_svc st)" and "env_serves e (rc_log st) name" and "kind_Reconcile lib e kind st name = Some (err, st')"
  shows "reconciled_laws lib kind name st st' \<and> kind \<in> set operator_kinds"
  using assms unfolding env_serves_def kind_Reconcile_def Let_def operator_kinds_def
  by (elim conjE) (auto split: if_splits elim!: kinds_reconciled)

section \<open>The operator as a state machine\<close>

text \<open>
  The events: a resource or a schedule is reconciled, a cron entry fires, an action execution is
  reconciled. Label selectors are their printed form here.
\<close>

datatype operator_event =
    Reconciled string string
  | ScheduleReconciled string
  | Fired cron_key
  | Executed string string

inductive operator_step :: "('c, 's) job_lib \<Rightarrow> operator_event \<Rightarrow> 'c rc_state \<Rightarrow> 'c rc_state \<Rightarrow> bool" for lib where
  resource: "env_serves (e :: (string, string) operator_env) (rc_log st) name \<Longrightarrow> kind_Reconcile lib e kind st name = Some (err, st') \<Longrightarrow>
    operator_step lib (Reconciled kind name) st st'"
| schedule: "Schedule_Reconcile lib ord api meta st name = (err, st') \<Longrightarrow> operator_step lib (ScheduleReconciled name) st st'"
| fire: "registry lib (rc_svc st) k = Some (sch, j) \<Longrightarrow> operator_step lib (Fired k) st
    (st\<lparr>rc_log := run_cron_job (oe_api e) (job_function (e :: (string, string) operator_env) (job_Kind j)) j (rc_log st)\<rparr>)"
| execute: "ActionExecution_Reconcile rec (env :: action_env) meta ns name \<lparr>ax_log = rc_log st, ax_db = db\<rparr> = (res, err, s') \<Longrightarrow>
    operator_step lib (Executed ns name) st (st\<lparr>rc_log := ax_log s'\<rparr>)"

inductive_cases operator_stepE: "operator_step lib ev st st'"

definition entries_owned :: "('c, 's) job_lib \<Rightarrow> 'c rc_state \<Rightarrow> bool" where
  "entries_owned lib st \<longleftrightarrow> (\<forall>k sch j. registry lib (rc_svc st) k = Some (sch, j) \<longrightarrow>
     (\<exists>kind name. kind \<in> set operator_kinds \<and> own_job kind name k j))"

definition operator_inv :: "('c, 's) job_lib \<Rightarrow> 'c rc_state \<Rightarrow> bool" where
  "operator_inv lib st \<longleftrightarrow> svc_ok lib (rc_svc st) \<and> entries_owned lib st"

text \<open>Reconciling a schedule changes the times of entries, never their jobs.\<close>

lemma refreshed_job [simp]: "map_option snd (refreshed parse actions b old) = map_option snd old"
  by (auto simp: refreshed_def split: option.splits sum.splits)

lemma schedule_keeps_jobs:
  assumes "svc_ok lib (rc_svc st)" and "Schedule_Reconcile lib ord api meta st name = (err, st')"
  shows "svc_ok lib (rc_svc st')"
    and "map_option snd (registry lib (rc_svc st') k) = map_option snd (registry lib (rc_svc st) k)"
proof -
  show "svc_ok lib (rc_svc st')"
    using Schedule_Reconcile_registry [OF assms] by blast
  show "map_option snd (registry lib (rc_svc st') k) = map_option snd (registry lib (rc_svc st) k)"
  proof (cases k)
    case (fields a b c)
    show ?thesis
      using conjunct2 [OF Schedule_Reconcile_registry [OF assms]]
    proof (elim disjE exE conjE)
      fix sched
      assume "partly_refreshed (lib_ParseStandard lib) (ss_Actions (sc_Spec sched)) (sc_Name sched)
        (registry lib (rc_svc st)) (registry lib (rc_svc st'))"
      then have "registry lib (rc_svc st') (a, b, c) = registry lib (rc_svc st) (a, b, c) \<or>
          registry lib (rc_svc st') (a, b, c) = refreshed (lib_ParseStandard lib) (ss_Actions (sc_Spec sched)) b (registry lib (rc_svc st) (a, b, c))"
        unfolding partly_refreshed_def by blast
      then show ?thesis
        by (auto simp: fields)
    qed simp
  qed
qed

lemma operator_step_inv:
  assumes "operator_inv lib st" and "operator_step lib ev st st'"
  shows "operator_inv lib st'"
  using assms(2)
proof (cases rule: operator_step.cases)
  case (resource e name kind err)
  from kind_reconciled [OF _ resource(2,3)] assms(1) show ?thesis
    by (simp add: operator_inv_def reconciled_laws_def entries_owned_def) blast
next
  case (schedule ord api meta name err)
  then have "svc_ok lib (rc_svc st')" and "map_option snd (registry lib (rc_svc st') k) = map_option snd (registry lib (rc_svc st) k)" for k
    using schedule_keeps_jobs [OF _ schedule(2)] assms(1) by (simp_all add: operator_inv_def del: split_paired_All)
  note same = this
  have "\<exists>sch0. registry lib (rc_svc st) k = Some (sch0, j)" if "registry lib (rc_svc st') k = Some (sch, j)" for k sch j
    using same(2) [of k] that by (cases "registry lib (rc_svc st) k") auto
  with same(1) assms(1) show ?thesis
    unfolding operator_inv_def entries_owned_def by blast
qed (use assms(1) in \<open>simp_all add: operator_inv_def entries_owned_def\<close>)

definition operator_next :: "('c, 's) job_lib \<Rightarrow> 'c rc_state \<Rightarrow> 'c rc_state \<Rightarrow> bool" where
  "operator_next lib st st' \<longleftrightarrow> (\<exists>ev. operator_step lib ev st st')"

interpretation operator: step_invariant "\<lambda>st. cron_contract lib \<and> st = \<lparr>rc_svc = New lib, rc_log = []\<rparr>" "operator_next lib" "operator_inv lib"
  for lib :: "('c, 's) job_lib"
proof unfold_locales
  fix st :: "'c rc_state"
  assume "cron_contract lib \<and> st = \<lparr>rc_svc = New lib, rc_log = []\<rparr>"
  then have ok: "svc_ok lib (rc_svc st)" and "rc_svc st = New lib"
    using svc_ok_New [of lib] by auto
  then have "registry lib (rc_svc st) k = None" for k
    by simp
  with ok show "operator_inv lib st"
    by (simp add: operator_inv_def entries_owned_def)
qed (auto simp: operator_next_def intro: operator_step_inv)

section \<open>A first step, for the witnesses\<close>

definition demo_operator :: "(string, string) operator_env" where
  "demo_operator = \<lparr>oe_api = demo_api, oe_meta = keyed_meta, oe_ord = insertion_order, oe_job = demo_env, oe_k8s = demo_k8s,
     oe_features = None, oe_namespace = ''ops'',
     oe_rds = (\<lambda>_ _ _. Inl (ErrNotFound '''')), oe_docdb = (\<lambda>_ _ _. Inl (ErrNotFound '''')), oe_ec2 = (\<lambda>_ _ _. Inl (ErrNotFound '''')),
     oe_transfer = (\<lambda>_ _ _. Inl (ErrNotFound '''')),
     oe_replicas = (\<lambda>_ _ _. Inr ((demo_replicas [])\<lparr>pr_Actions := [(''stop'', \<lparr>ra_Enabled = None, ra_Replicas = 0\<rparr>)]\<rparr>)),
     oe_hpa = (\<lambda>_ _ _. Inl (ErrNotFound '''')), oe_run = (\<lambda>_ _ _. Inl (ErrNotFound ''''))\<rparr>"

definition demo_web :: cron_job where
  "demo_web = \<lparr>job_Kind = ''K8sPodReplicas'', job_Name = ''web'', job_Namespace = '''', job_Schedule = ''office'', job_Action = ''stop'',
     job_Resource = ''v1alpha1.K8sPodReplicas:web''\<rparr>"

lemma web_registered:
  assumes ok: "svc_ok list_cron (rc_svc st)" and none: "\<And>k. registry list_cron (rc_svc st) k = None"
  obtains st' where "kind_Reconcile list_cron demo_operator ''K8sPodReplicas'' st ''web'' = Some (None, st')"
    and "registry list_cron (rc_svc st') (''office'', ''stop'', ''v1alpha1.K8sPodReplicas:web'') = Some (''0 20 * * *'', demo_web)"
    and "svc_ok list_cron (rc_svc st')" and "env_serves demo_operator (rc_log st) ''web''"
proof -
  let ?obj = "(demo_replicas [])\<lparr>pr_Actions := [(''stop'', \<lparr>ra_Enabled = None, ra_Replicas = 0\<rparr>)]\<rparr>"
  let ?view = "\<lparr>rr_Kind = ''K8sPodReplicas'', rr_Name = ''web'', rr_Namespace = '''', rr_Schedule = ''office'', rr_Active = True, rr_Conditions = []\<rparr>"
  let ?z = "''v1alpha1.K8sPodReplicas:web''" and ?acts = "[(''stop'', \<lparr>ra_Enabled = None, ra_Replicas = 0\<rparr>)]"
  let ?on = "\<lambda>a. IsActive (ra_Enabled a)"
  obtain err st' where rec: "reconcileResource list_cron insertion_order demo_api keyed_meta st ?view ?z ?acts ?on = (err, st')"
    by (rule prod.exhaust)
  have kind: "kind_Reconcile list_cron demo_operator ''K8sPodReplicas'' st ''web'' = Some (err, st')"
    by (simp add: kind_Reconcile_def demo_operator_def K8sPodReplicas_Reconcile_def k8s_Reconcile_def resourceName_def demo_replicas_def rec)
  have serves: "env_serves demo_operator log ''web''" for log
    by (simp add: env_serves_def served_def demo_operator_def demo_replicas_def)
  have acts: "gomap_ok ?acts" and act: "rr_Active ?view" by simp_all
  have get: "api_GetSchedule demo_api (rc_log st) (rr_Schedule ?view) = Inr demo_schedule"
    by (simp add: demo_api_def)
  have parses: "\<nexists>n. unschedulable (lib_ParseStandard list_cron) (registry list_cron (rc_svc st)) (rr_Schedule ?view) ?z ?acts ?on
      (ss_Actions (sc_Spec demo_schedule)) n"
    by (simp add: unschedulable_def bad_cron_def list_cron_def demo_schedule_def)
  have "registry list_cron (rc_svc st') (''office'', ''stop'', ?z) = Some (''0 20 * * *'', demo_web)"
    by (rule active_reconcile_result [OF ok acts act get rec])
      (use parses none in \<open>auto simp: wanted_def action_on_def demo_schedule_def list_cron_def mk_job_def demo_web_def\<close>)
  moreover have "err = None"
    by (rule active_reconcile_result [OF ok acts act get rec]) (use parses in \<open>auto simp: updateStatus_def demo_api_def\<close>)
  moreover have "svc_ok list_cron (rc_svc st')"
    using kind_reconciled [OF ok serves kind] by (simp add: reconciled_laws_def)
  ultimately show thesis using kind serves by (intro that) auto
qed

lemma demo_step:
  obtains st' where "operator_step list_cron (Reconciled ''K8sPodReplicas'' ''web'') demo_state st'"
    and "registry list_cron (rc_svc st') (''office'', ''stop'', ''v1alpha1.K8sPodReplicas:web'') = Some (''0 20 * * *'', demo_web)"
proof -
  have ok: "svc_ok list_cron (rc_svc demo_state)"
    using demo_inv list_cron_contract by (simp add: svc_ok_def)
  have "registry list_cron (rc_svc demo_state) k = None" for k using list_cron_contract by simp
  from web_registered [OF ok this] obtain st' where
    st': "kind_Reconcile list_cron demo_operator ''K8sPodReplicas'' demo_state ''web'' = Some (None, st')"
    "registry list_cron (rc_svc st') (''office'', ''stop'', ''v1alpha1.K8sPodReplicas:web'') = Some (''0 20 * * *'', demo_web)"
    "env_serves demo_operator (rc_log demo_state) ''web''" .
  from operator_step.resource [OF st'(3,1)] st'(2) show thesis by (rule that)
qed

section \<open>Properties of the operator\<close>



lemma kinds_without_colon: "kind \<in> set operator_kinds \<Longrightarrow> CHR '':'' \<notin> set (''v1alpha1.'' @ kind)"
  by (auto simp: operator_kinds_def)

lemma resource_names_differ:
  "k \<in> set operator_kinds \<Longrightarrow> l \<in> set operator_kinds \<Longrightarrow>
     resourceName (''v1alpha1.'' @ k) x = resourceName (''v1alpha1.'' @ l) y \<longleftrightarrow> k = l \<and> x = y"
  using resourceName_eq_iff [OF kinds_without_colon kinds_without_colon] by blast

text \<open>
  The jobs of a resource come and go only with its own reconciliation: a step after which
  a key of the resource is registered that was not, or is not registered that was, is a
  reconciliation of this very resource, of the same kind and name. In particular resources of
  different kinds with the same name, schedule reconciliations, firing jobs and scaling executions
  never add or remove a job of it.
\<close>

theorem only_own_reconcile:
  assumes "svc_ok lib (rc_svc st)" and "operator_step lib ev st st'" and "kind \<in> set operator_kinds"
    and "k = (a, b, resourceName (''v1alpha1.'' @ kind) name)"
    and "(registry lib (rc_svc st') k = None) \<noteq> (registry lib (rc_svc st) k = None)"
  shows "ev = Reconciled kind name"
  using assms(2)
proof (cases rule: operator_step.cases)
  case (resource e name' kind' err)
  note laws = kind_reconciled [OF assms(1) resource(2,3)]
  have "registry lib (rc_svc st') (a, b, c) = registry lib (rc_svc st) (a, b, c)" if "c \<noteq> resourceName (''v1alpha1.'' @ kind') name'" for c
    using laws that by (simp add: reconciled_laws_def)
  from this [of "resourceName (''v1alpha1.'' @ kind) name"] assms(4,5)
  have "resourceName (''v1alpha1.'' @ kind) name = resourceName (''v1alpha1.'' @ kind') name'"
    by fastforce
  with resource_names_differ [OF assms(3), of kind' name name'] laws resource(1) show ?thesis by simp
next
  case (schedule ord api meta name' err)
  from schedule_keeps_jobs(2) [OF assms(1) schedule(2), of k] assms(5) show ?thesis
    by (cases "registry lib (rc_svc st') k"; cases "registry lib (rc_svc st) k") simp_all
qed (use assms(5) in simp_all)

theorem only_own_reconcile_witness:
  "\<exists>ev st'. operator_step list_cron ev demo_state st' \<and> ev = Reconciled ''K8sPodReplicas'' ''web''"
proof -
  obtain st' where step: "operator_step list_cron (Reconciled ''K8sPodReplicas'' ''web'') demo_state st'"
    and r: "registry list_cron (rc_svc st') (''office'', ''stop'', ''v1alpha1.K8sPodReplicas:web'') = Some (''0 20 * * *'', demo_web)"
    by (rule demo_step)
  have "svc_ok list_cron (rc_svc demo_state)"
    using demo_inv list_cron_contract by (simp add: svc_ok_def)
  then have "Reconciled ''K8sPodReplicas'' ''web'' = Reconciled ''K8sPodReplicas'' ''web''"
    by (rule only_own_reconcile [OF _ step _ refl, of "''K8sPodReplicas''" "''office''" "''stop''" "''web''"])
      (use r in \<open>simp_all add: operator_kinds_def resourceName_def\<close>)
  with step show ?thesis by blast
qed

lemma run_cron_job_end:
  "\<exists>log' status. run_cron_job api job j log = log' @ [EvLatency (job_Schedule j) (job_Action j) (job_Resource j) status] \<or>
    (\<exists>body. run_cron_job api job j log = log' @ [EvLatency (job_Schedule j) (job_Action j) (job_Resource j) status, EvNotify body] \<and>
       nb_Schedule body = job_Schedule j \<and> nb_Action body = job_Action j \<and> nb_Resource body = job_Resource j \<and> nb_Status body = status)"
proof (cases "api_GetSchedule api log (job_Schedule j)")
  case (Inl err)
  then show ?thesis by (simp add: run_cron_job_def Let_def)
next
  case (Inr s)
  obtain status md log' where job: "job log (job_Namespace j) (job_Name j) (job_Action j) = (status, md, log')"
    by (rule prod_cases3)
  show ?thesis
    by (simp add: run_cron_job_def Let_def Inr job)
qed

text \<open>
  A firing entry changes no registration, and what it reports last names the entry's key:
  the latency observation, and after a job that ran also one notification to the schedule of the
  key, with the action, the resource and the same status.
\<close>

theorem fired_job_reports_key:
  assumes "cron_contract lib" and "(operator_next lib)\<^sup>*\<^sup>* \<lparr>rc_svc = New lib, rc_log = []\<rparr> st"
    and "operator_step lib (Fired (a, b, c)) st st'"
  shows "rc_svc st' = rc_svc st \<and> (\<exists>log' status.
    rc_log st' = log' @ [EvLatency a b c status] \<or>
    (\<exists>body. rc_log st' = log' @ [EvLatency a b c status, EvNotify body] \<and> nb_Schedule body = a \<and> nb_Action body = b \<and>
       nb_Resource body = c \<and> nb_Status body = status))"
  using assms(3)
proof (cases rule: operator_step.cases)
  case (fire sch j e)
  from operator.reachable_inv [OF _ assms(2)] assms(1) have "operator_inv lib st" by simp
  with fire have "job_Schedule j = a" and "job_Action j = b" and "job_Resource j = c"
    by (auto simp: operator_inv_def entries_owned_def own_job_def)
  then show ?thesis
    using run_cron_job_end [of "oe_api e" "job_function e (job_Kind j)" j "rc_log st"] by (simp add: fire(1))
qed

theorem fired_job_reports_key_witness:
  "\<exists>st st'. operator_step list_cron (Fired (''office'', ''stop'', ''v1alpha1.K8sPodReplicas:web'')) st st' \<and> rc_svc st' = rc_svc st"
proof -
  obtain st where step: "operator_step list_cron (Reconciled ''K8sPodReplicas'' ''web'') demo_state st"
    and r: "registry list_cron (rc_svc st) (''office'', ''stop'', ''v1alpha1.K8sPodReplicas:web'') = Some (''0 20 * * *'', demo_web)"
    by (rule demo_step)
  from step have "operator_next list_cron demo_state st"
    unfolding operator_next_def by blast
  then have run: "(operator_next list_cron)\<^sup>*\<^sup>* demo_state st" ..
  from fired_job_reports_key [OF list_cron_contract run operator_step.fire [OF r, of demo_operator]] operator_step.fire [OF r, of demo_operator]
  show ?thesis by blast
qed

end
