(* ===== verification/Notification_Service.thy ===== *)
theory Notification_Service
  imports World
begin

text \<open>
  The notification service of \<^verbatim>\<open>notification/service.go\<close>: recipients per schedule, a bounded
  channel of bodies, and the worker that delivers them. The mutex makes every operation atomic,
  so a run of the service is a sequence of operations. The recipients are values with a type and
  a \<^verbatim>\<open>Notify\<close> method; here \<open>'r\<close> is their type and the method a parameter.
\<close>

section \<open>Definitions\<close>

datatype notification_type = NotificationTypeApi | NotificationTypeMSTeams | NotificationTypeSlack

fun NotificationType_String :: "notification_type \<Rightarrow> string" where
  "NotificationType_String NotificationTypeApi = ''api''"
| "NotificationType_String NotificationTypeMSTeams = ''msteams''"
| "NotificationType_String NotificationTypeSlack = ''slack''"

text \<open>
  The interface \<^verbatim>\<open>Recipient\<close> as the record of its methods. An answer of \<^verbatim>\<open>Notify\<close> may
  depend on the deliveries made so far.
\<close>

record delivery =
  dl_Id :: string
  dl_Type :: string
  dl_Body :: notification_body
  dl_Status :: string

record 'r recipient_ops =
  ro_Notify :: "delivery list \<Rightarrow> 'r \<Rightarrow> string \<Rightarrow> notification_body \<Rightarrow> go_error option"
  ro_Type :: "'r \<Rightarrow> notification_type"

text \<open>
  The service. The channel has capacity 256. The gauge
  \<^verbatim>\<open>timeterra_notification_policies\<close> has a label for the type and one for the schedule. The
  nil map of recipients and the empty map do not differ for any operation.
\<close>

record 'r notification_service =
  ns_ch :: "notification_body list"
  ns_recipients :: "(string, (string, 'r) gomap) gomap"
  ns_closed :: bool
  ns_gauge :: "string \<Rightarrow> string \<Rightarrow> int"

definition capacity :: nat where
  "capacity = 256"

definition NewNotificationService :: "'r notification_service" where
  "NewNotificationService = \<lparr>ns_ch = [], ns_recipients = [], ns_closed = False, ns_gauge = (\<lambda>_ _. 0)\<rparr>"

definition policies_add :: "string \<Rightarrow> string \<Rightarrow> int \<Rightarrow> (string \<Rightarrow> string \<Rightarrow> int) \<Rightarrow> string \<Rightarrow> string \<Rightarrow> int" where
  "policies_add ty schedule d g = g(ty := (g ty)(schedule := g ty schedule + d))"

fun remove_recipient_loop :: "'r recipient_ops \<Rightarrow> string \<Rightarrow> string list \<Rightarrow> 'r notification_service \<Rightarrow> 'r notification_service" where
  "remove_recipient_loop ops rid [] s = s"
| "remove_recipient_loop ops rid (scheduleName # rest) s =
     remove_recipient_loop ops rid rest
       (case mget (midx (ns_recipients s) scheduleName) rid of
          None \<Rightarrow> s
        | Some recipient \<Rightarrow>
            s\<lparr>ns_gauge := policies_add (NotificationType_String (ro_Type ops recipient)) scheduleName (-1) (ns_gauge s),
              ns_recipients := mput scheduleName (mdel rid (midx (ns_recipients s) scheduleName)) (ns_recipients s)\<rparr>)"

definition RemoveRecipient :: "'r recipient_ops \<Rightarrow> range_order \<Rightarrow> 'r notification_service \<Rightarrow> string \<Rightarrow> 'r notification_service" where
  "RemoveRecipient ops ord s rid =
     remove_recipient_loop ops rid (visit ord [''RemoveRecipient''] (mkeys (ns_recipients s))) s"

definition AddRecipientToSchedule :: "'r recipient_ops \<Rightarrow> 'r notification_service \<Rightarrow> string \<Rightarrow> string \<Rightarrow> 'r \<Rightarrow> 'r notification_service" where
  "AddRecipientToSchedule ops s schedule rid recipient =
     (let m = mensure schedule (ns_recipients s) in
      s\<lparr>ns_recipients := mput schedule (mput rid recipient (midx m schedule)) m,
        ns_gauge := policies_add (NotificationType_String (ro_Type ops recipient)) schedule 1 (ns_gauge s)\<rparr>)"

definition Send :: "'r notification_service \<Rightarrow> notification_body \<Rightarrow> 'r notification_service" where
  "Send s body =
     (if ns_closed s then s
      else if length (ns_ch s) < capacity then s\<lparr>ns_ch := ns_ch s @ [body]\<rparr>
      else s)"

fun notify_loop :: "'r recipient_ops \<Rightarrow> notification_body \<Rightarrow> (string, 'r) gomap \<Rightarrow> string list \<Rightarrow> delivery list \<Rightarrow> delivery list" where
  "notify_loop ops body recipients [] out = out"
| "notify_loop ops body recipients (rid # rest) out =
     notify_loop ops body recipients rest
       (case mget recipients rid of
          None \<Rightarrow> out
        | Some recipient \<Rightarrow>
            out @ [\<lparr>dl_Id = rid, dl_Type = NotificationType_String (ro_Type ops recipient), dl_Body = body,
                    dl_Status = (if ro_Notify ops out recipient rid body = None then ''success'' else ''failed'')\<rparr>])"

text \<open>The copy of a schedule's recipients, taken under the read lock.\<close>

definition recipientsCopy :: "range_order \<Rightarrow> 'r notification_service \<Rightarrow> notification_body \<Rightarrow> (string, 'r) gomap" where
  "recipientsCopy ord s body = (case mget (ns_recipients s) (nb_Schedule body) of
       None \<Rightarrow> []
     | Some schedRecipients \<Rightarrow>
         fold (\<lambda>rid m. case mget schedRecipients rid of None \<Rightarrow> m | Some rec \<Rightarrow> mput rid rec m)
           (visit ord [''copy''] (mkeys schedRecipients)) [])"

text \<open>
  One turn of the worker's loop: a body from the channel goes to a copy of the recipients of its
  schedule. With an empty channel the worker waits, or ends when the channel is closed.
\<close>

definition run_step :: "'r recipient_ops \<Rightarrow> range_order \<Rightarrow> 'r notification_service \<Rightarrow> delivery list \<Rightarrow>
    'r notification_service \<times> delivery list" where
  "run_step ops ord s out =
     (case ns_ch s of
        [] \<Rightarrow> (s, out)
      | body # rest \<Rightarrow>
          (let m = recipientsCopy ord s body
           in (s\<lparr>ns_ch := rest\<rparr>, notify_loop ops body m (visit ord [''notify''] (mkeys m)) out)))"

text \<open>The shutdown branch of \<^verbatim>\<open>Start\<close> closes the channel; the worker drains it.\<close>

definition close_service :: "'r notification_service \<Rightarrow> 'r notification_service" where
  "close_service s = s\<lparr>ns_closed := True\<rparr>"

section \<open>Recipients\<close>

definition recipient_of :: "'r notification_service \<Rightarrow> string \<Rightarrow> string \<Rightarrow> 'r option" where
  "recipient_of s schedule rid = mget (midx (ns_recipients s) schedule) rid"

definition recipients_ok :: "'r notification_service \<Rightarrow> bool" where
  "recipients_ok s \<longleftrightarrow> gomap_ok (ns_recipients s) \<and> (\<forall>x. gomap_ok (midx (ns_recipients s) x))"

text \<open>The gauge counts, per type and schedule, the registered recipients of the type.\<close>

definition policies_exact :: "'r recipient_ops \<Rightarrow> 'r notification_service \<Rightarrow> bool" where
  "policies_exact ops s \<longleftrightarrow> (\<forall>ty x. ns_gauge s ty x =
     int (length (filter (\<lambda>p. NotificationType_String (ro_Type ops (snd p)) = ty) (midx (ns_recipients s) x))))"

definition ns_inv :: "'r recipient_ops \<Rightarrow> 'r notification_service \<Rightarrow> bool" where
  "ns_inv ops s \<longleftrightarrow> recipients_ok s \<and> policies_exact ops s \<and> length (ns_ch s) \<le> capacity"

lemma remove_recipient_loop_of:
  "recipient_of (remove_recipient_loop ops rid xs s) x i =
     (if i = rid \<and> x \<in> set xs then None else recipient_of s x i)"
  by (induction xs arbitrary: s) (auto simp: recipient_of_def split: option.splits)

lemma recipient_of_RemoveRecipient [simp]:
  "recipient_of (RemoveRecipient ops ord s rid) x i = (if i = rid then None else recipient_of s x i)"
proof -
  have "recipient_of s x rid = None" if "x \<notin> set (mkeys (ns_recipients s))"
    using that by (simp add: recipient_of_def midx_None map_of_eq_None_iff)
  then show ?thesis
    by (auto simp: RemoveRecipient_def remove_recipient_loop_of simp del: set_map)
qed

lemma recipient_of_AddRecipientToSchedule [simp]:
  "recipient_of (AddRecipientToSchedule ops s schedule rid r) x i =
     (if x = schedule \<and> i = rid then Some r else recipient_of s x i)"
  by (simp add: AddRecipientToSchedule_def recipient_of_def Let_def)

lemma Send_recipients [simp]: "ns_recipients (Send s body) = ns_recipients s"
  by (simp add: Send_def)

subsection \<open>The gauge\<close>

lemma count_pos:
  assumes "mget m k = Some v" and "P v"
  shows "0 < length (filter (\<lambda>p. P (snd p)) m)"
  using assms map_of_SomeD [of m k v] by (force simp: filter_empty_conv)

lemma count_mdel:
  assumes "gomap_ok m" and "mget m k = Some v"
  shows "length (filter (\<lambda>p. P (snd p)) (mdel k m)) = length (filter (\<lambda>p. P (snd p)) m) - (if P v then 1 else 0)"
  using assms
proof (induction m)
  case (Cons p m)
  obtain a b where p: "p = (a, b)" by (cases p)
  show ?case
  proof (cases "a = k")
    case True
    with Cons.prems have "mdel k m = m"
      by (force simp: p AList.delete_eq intro!: filter_True)
    with True Cons.prems show ?thesis by (simp add: p)
  next
    case False
    with Cons have IH: "length (filter (\<lambda>p. P (snd p)) (mdel k m)) =
        length (filter (\<lambda>p. P (snd p)) m) - (if P v then 1 else 0)"
      by (simp add: p)
    have "P v \<Longrightarrow> 0 < length (filter (\<lambda>p. P (snd p)) m)"
      using False Cons.prems(2) count_pos [of m k v P] by (simp add: p)
    with IH False show ?thesis by (auto simp: p)
  qed
qed simp

lemma count_mput:
  "mget m k = None \<Longrightarrow>
     length (filter (\<lambda>p. P (snd p)) (mput k v m)) = length (filter (\<lambda>p. P (snd p)) m) + (if P v then 1 else 0)"
  by (induction m) (auto split: if_splits)

lemma remove_one_inv:
  assumes "recipients_ok s" and "policies_exact ops s" and r: "mget (midx (ns_recipients s) x) rid = Some r"
  defines "t \<equiv> s\<lparr>ns_gauge := policies_add (NotificationType_String (ro_Type ops r)) x (-1) (ns_gauge s),
              ns_recipients := mput x (mdel rid (midx (ns_recipients s) x)) (ns_recipients s)\<rparr>"
  shows "recipients_ok t" and "policies_exact ops t"
proof -
  show "recipients_ok t"
    using assms(1) by (simp add: t_def recipients_ok_def)
  have ok: "gomap_ok (midx (ns_recipients s) x)"
    using assms(1) by (simp add: recipients_ok_def)
  show "policies_exact ops t"
    unfolding policies_exact_def
  proof (intro allI)
    fix ty y
    let ?P = "\<lambda>r. NotificationType_String (ro_Type ops r) = ty"
    have "?P r \<Longrightarrow> 0 < length (filter (\<lambda>p. ?P (snd p)) (midx (ns_recipients s) x))"
      using count_pos [of _ rid r ?P] r by blast
    then show "ns_gauge t ty y = int (length (filter (\<lambda>p. ?P (snd p)) (midx (ns_recipients t) y)))"
      using assms(2) count_mdel [OF ok r, of ?P]
      by (auto simp: t_def policies_exact_def policies_add_def of_nat_diff Suc_leI)
  qed
qed

lemma remove_recipient_loop_inv:
  "recipients_ok s \<Longrightarrow> policies_exact ops s \<Longrightarrow>
     recipients_ok (remove_recipient_loop ops rid xs s) \<and> policies_exact ops (remove_recipient_loop ops rid xs s) \<and>
     ns_ch (remove_recipient_loop ops rid xs s) = ns_ch s \<and> ns_closed (remove_recipient_loop ops rid xs s) = ns_closed s"
proof (induction xs arbitrary: s)
  case (Cons x xs)
  show ?case
  proof (cases "mget (midx (ns_recipients s) x) rid")
    case None
    with Cons show ?thesis by simp
  next
    case (Some r)
    note one = remove_one_inv [OF Cons.prems Some]
    from Cons.IH [OF one] Some show ?thesis by simp
  qed
qed simp

lemma remove_recipient_loop_frame [simp]:
  "ns_ch (remove_recipient_loop ops rid xs s) = ns_ch s"
  "ns_closed (remove_recipient_loop ops rid xs s) = ns_closed s"
  by (induction xs arbitrary: s) (auto split: option.splits)

lemma RemoveRecipient_frame [simp]:
  "ns_ch (RemoveRecipient ops ord s rid) = ns_ch s" "ns_closed (RemoveRecipient ops ord s rid) = ns_closed s"
  by (simp_all add: RemoveRecipient_def)

lemma AddRecipientToSchedule_frame [simp]:
  "ns_ch (AddRecipientToSchedule ops s x rid r) = ns_ch s" "ns_closed (AddRecipientToSchedule ops s x rid r) = ns_closed s"
  by (simp_all add: AddRecipientToSchedule_def Let_def)

lemma RemoveRecipient_inv: "ns_inv ops s \<Longrightarrow> ns_inv ops (RemoveRecipient ops ord s rid)"
  using remove_recipient_loop_inv [of s ops rid] by (simp add: ns_inv_def RemoveRecipient_def)

lemma AddRecipientToSchedule_inv:
  assumes "ns_inv ops s" and free: "recipient_of s x rid = None"
  shows "ns_inv ops (AddRecipientToSchedule ops s x rid r)"
proof -
  have "recipients_ok (AddRecipientToSchedule ops s x rid r)"
    using assms(1) by (auto simp: ns_inv_def recipients_ok_def AddRecipientToSchedule_def Let_def)
  moreover have "policies_exact ops (AddRecipientToSchedule ops s x rid r)"
    unfolding policies_exact_def
  proof (intro allI)
    fix ty y
    let ?P = "\<lambda>r. NotificationType_String (ro_Type ops r) = ty"
    show "ns_gauge (AddRecipientToSchedule ops s x rid r) ty y =
        int (length (filter (\<lambda>p. ?P (snd p)) (midx (ns_recipients (AddRecipientToSchedule ops s x rid r)) y)))"
      using assms(1) count_mput [of "midx (ns_recipients s) x" rid ?P r] free
      by (auto simp: ns_inv_def policies_exact_def recipient_of_def AddRecipientToSchedule_def policies_add_def Let_def)
  qed
  ultimately show ?thesis
    using assms(1) by (simp add: ns_inv_def)
qed

lemma Send_inv: "ns_inv ops s \<Longrightarrow> ns_inv ops (Send s body)"
  by (auto simp: ns_inv_def Send_def recipients_ok_def policies_exact_def)

lemma close_inv: "ns_inv ops s \<Longrightarrow> ns_inv ops (close_service s)"
  by (simp add: ns_inv_def close_service_def recipients_ok_def policies_exact_def)

lemma run_step_inv: "ns_inv ops s \<Longrightarrow> ns_inv ops (fst (run_step ops ord s out))"
  by (auto simp: ns_inv_def run_step_def recipients_ok_def policies_exact_def Let_def split: list.splits)

lemma NewNotificationService_inv: "ns_inv ops NewNotificationService"
  by (simp add: ns_inv_def NewNotificationService_def recipients_ok_def policies_exact_def)

subsection \<open>Well-formed recipients\<close>

lemma remove_recipient_loop_ok: "recipients_ok s \<Longrightarrow> recipients_ok (remove_recipient_loop ops rid xs s)"
  by (induction xs arbitrary: s) (auto simp: recipients_ok_def split: option.splits)

lemma RemoveRecipient_ok: "recipients_ok s \<Longrightarrow> recipients_ok (RemoveRecipient ops ord s rid)"
  by (simp add: RemoveRecipient_def remove_recipient_loop_ok)

lemma AddRecipientToSchedule_ok: "recipients_ok s \<Longrightarrow> recipients_ok (AddRecipientToSchedule ops s x rid r)"
  by (auto simp: recipients_ok_def AddRecipientToSchedule_def Let_def)

section \<open>Delivery\<close>

lemma mget_copy:
  "mget (fold (\<lambda>k acc. case mget m k of None \<Rightarrow> acc | Some v \<Rightarrow> mput k v acc) (visit ord site (mkeys m)) []) x = mget m x"
proof (cases "mget m x")
  case None
  then show ?thesis by (simp add: mget_fold_mput_option)
next
  case (Some v)
  then have "x \<in> set (mkeys m)" unfolding mem_mkeys_iff by simp
  with Some show ?thesis unfolding mget_fold_mput_option set_visit by simp
qed

lemma mget_recipientsCopy: "mget (recipientsCopy ord s body) i = recipient_of s (nb_Schedule body) i"
  by (simp add: recipientsCopy_def recipient_of_def midx_def mget_copy split: option.splits)

lemma recipientsCopy_ok: "gomap_ok (recipientsCopy ord s body)"
  by (auto simp: recipientsCopy_def gomap_ok_fold_mput_option split: option.splits)

lemma recipientsCopy_keys:
  assumes "recipients_ok s"
  shows "mset (mkeys (recipientsCopy ord s body)) = mset (mkeys (midx (ns_recipients s) (nb_Schedule body)))"
proof -
  have "set (mkeys (recipientsCopy ord s body)) = set (mkeys (midx (ns_recipients s) (nb_Schedule body)))"
    by (rule set_eqI) (simp only: mem_mkeys_iff mget_recipientsCopy recipient_of_def)
  moreover have "distinct (mkeys (midx (ns_recipients s) (nb_Schedule body)))"
    using assms by (simp add: recipients_ok_def)
  ultimately show ?thesis
    using recipientsCopy_ok set_eq_iff_mset_eq_distinct by blast
qed

lemma notify_loop_spec:
  assumes "set ids \<subseteq> set (mkeys recipients)"
  shows "\<exists>ds. notify_loop ops body recipients ids out = out @ ds \<and> map dl_Id ds = ids \<and>
    (\<forall>d \<in> set ds. dl_Body d = body \<and> (\<exists>r. mget recipients (dl_Id d) = Some r \<and>
       dl_Type d = NotificationType_String (ro_Type ops r)))"
  using assms
proof (induction ids arbitrary: out)
  case (Cons i ids)
  from Cons.prems have "i \<in> set (mkeys recipients)" by simp
  then obtain r where r: "mget recipients i = Some r" unfolding mem_mkeys_iff by auto
  let ?d = "\<lparr>dl_Id = i, dl_Type = NotificationType_String (ro_Type ops r), dl_Body = body,
       dl_Status = (if ro_Notify ops out r i body = None then ''success'' else ''failed'')\<rparr>"
  from Cons.prems have "set ids \<subseteq> set (mkeys recipients)" by simp
  from Cons.IH [OF this, of "out @ [?d]"] obtain ds where
    ds: "notify_loop ops body recipients ids (out @ [?d]) = (out @ [?d]) @ ds" "map dl_Id ds = ids"
      "\<forall>d \<in> set ds. dl_Body d = body \<and> (\<exists>r. mget recipients (dl_Id d) = Some r \<and>
         dl_Type d = NotificationType_String (ro_Type ops r))"
    by blast
  then show ?case
    by (intro exI [of _ "?d # ds"]) (simp add: r)
qed simp

section \<open>Runs of the service\<close>

text \<open>
  A run: the service, the deliveries made, and, for the specification, the bodies accepted by the
  channel and the bodies taken from it.
\<close>

record 'r ns_run =
  nr_svc :: "'r notification_service"
  nr_out :: "delivery list"
  nr_accepted :: "notification_body list"
  nr_taken :: "notification_body list"

inductive ns_step :: "'r recipient_ops \<Rightarrow> 'r ns_run \<Rightarrow> 'r ns_run \<Rightarrow> bool" for ops where
  add: "recipient_of (nr_svc c) x rid = None \<Longrightarrow>
    ns_step ops c (c\<lparr>nr_svc := AddRecipientToSchedule ops (nr_svc c) x rid r\<rparr>)"
| remove: "ns_step ops c (c\<lparr>nr_svc := RemoveRecipient ops ord (nr_svc c) rid\<rparr>)"
| send: "ns_step ops c (c\<lparr>nr_svc := Send (nr_svc c) body,
    nr_accepted := nr_accepted c @ (if ns_closed (nr_svc c) \<or> capacity \<le> length (ns_ch (nr_svc c)) then [] else [body])\<rparr>)"
| work: "run_step ops ord (nr_svc c) (nr_out c) = (s', out') \<Longrightarrow>
    ns_step ops c (c\<lparr>nr_svc := s', nr_out := out', nr_taken := nr_taken c @ take 1 (ns_ch (nr_svc c))\<rparr>)"
| close: "ns_step ops c (c\<lparr>nr_svc := close_service (nr_svc c)\<rparr>)"

inductive_cases ns_stepE: "ns_step ops c d"

definition ns_init :: "'r ns_run" where
  "ns_init = \<lparr>nr_svc = NewNotificationService, nr_out = [], nr_accepted = [], nr_taken = []\<rparr>"

definition ns_run_inv :: "'r recipient_ops \<Rightarrow> 'r ns_run \<Rightarrow> bool" where
  "ns_run_inv ops c \<longleftrightarrow> ns_inv ops (nr_svc c) \<and> nr_taken c @ ns_ch (nr_svc c) = nr_accepted c \<and>
     set (map dl_Body (nr_out c)) \<subseteq> set (nr_taken c)"

lemma run_step_spec:
  assumes ok: "recipients_ok s" and r: "run_step ops ord s out = (s', out')" and ch: "ns_ch s = body # rest"
  shows "s' = s\<lparr>ns_ch := rest\<rparr> \<and> (\<exists>ds. out' = out @ ds \<and> mset (map dl_Id ds) = mset (mkeys (midx (ns_recipients s) (nb_Schedule body))) \<and>
    (\<forall>d \<in> set ds. dl_Body d = body \<and> (\<exists>r. recipient_of s (nb_Schedule body) (dl_Id d) = Some r \<and>
       dl_Type d = NotificationType_String (ro_Type ops r))))"
proof -
  let ?m = "midx (ns_recipients s) (nb_Schedule body)"
  define copy where "copy = recipientsCopy ord s body"
  note get = mget_recipientsCopy [of ord s body, folded copy_def]
  note keys = recipientsCopy_keys [OF ok, of ord body, folded copy_def]
  have "set (visit ord [''notify''] (mkeys copy)) \<subseteq> set (mkeys copy)" by simp
  from notify_loop_spec [OF this, of ops body out] obtain ds where
    ds: "notify_loop ops body copy (visit ord [''notify''] (mkeys copy)) out = out @ ds"
      "map dl_Id ds = visit ord [''notify''] (mkeys copy)"
      "\<forall>d \<in> set ds. dl_Body d = body \<and> (\<exists>r. mget copy (dl_Id d) = Some r \<and>
         dl_Type d = NotificationType_String (ro_Type ops r))"
    by blast
  have "s' = s\<lparr>ns_ch := rest\<rparr>" and "out' = out @ ds"
    using r ch ds(1) by (auto simp: run_step_def Let_def copy_def [symmetric])
  moreover have "mset (map dl_Id ds) = mset (mkeys ?m)"
    unfolding ds(2) mset_visit by (rule keys)
  ultimately show ?thesis
    using ds(3) by (simp add: recipient_of_def get)
qed

lemma ns_ch_Send:
  "ns_ch (Send s body) = ns_ch s @ (if ns_closed s \<or> capacity \<le> length (ns_ch s) then [] else [body])"
  by (simp add: Send_def)

lemma ns_ch_close [simp]: "ns_ch (close_service s) = ns_ch s"
  by (simp add: close_service_def)

lemma ns_run_inv_init: "ns_run_inv ops ns_init"
  by (simp add: ns_run_inv_def ns_init_def NewNotificationService_inv) (simp add: NewNotificationService_def)

lemma ns_run_inv_step:
  assumes "ns_run_inv ops c" and "ns_step ops c d"
  shows "ns_run_inv ops d"
  using assms(2)
proof cases
  case (work ord s' out')
  have inv: "ns_inv ops s'"
    using run_step_inv [of ops "nr_svc c" ord "nr_out c"] assms(1) work(2) by (simp add: ns_run_inv_def)
  show ?thesis
  proof (cases "ns_ch (nr_svc c)")
    case Nil
    with work assms(1) show ?thesis by (auto simp: ns_run_inv_def run_step_def)
  next
    case (Cons body rest)
    have "recipients_ok (nr_svc c)" using assms(1) by (simp add: ns_run_inv_def ns_inv_def)
    from run_step_spec [OF this work(2) Cons] obtain ds where s': "s' = nr_svc c\<lparr>ns_ch := rest\<rparr>"
      and out': "out' = nr_out c @ ds" and ds: "\<forall>d \<in> set ds. dl_Body d = body"
      by blast
    from ds have "set (map dl_Body out') \<subseteq> set (map dl_Body (nr_out c)) \<union> {body}"
      by (auto simp: out')
    with inv assms(1) show ?thesis
      unfolding ns_run_inv_def by (auto simp: work(1) Cons s')
  qed
qed (use assms(1) in \<open>auto simp: ns_run_inv_def AddRecipientToSchedule_inv RemoveRecipient_inv Send_inv close_inv ns_ch_Send\<close>)

interpretation ns_runs: step_invariant "\<lambda>c. c = ns_init" "ns_step ops" "ns_run_inv ops"
  for ops :: "'r recipient_ops"
  by unfold_locales (auto simp: ns_run_inv_init ns_run_inv_step)

section \<open>Properties\<close>

text \<open>Concrete recipients for the witnesses: numbers, all of type api, that always accept.\<close>

definition demo_ops :: "nat recipient_ops" where
  "demo_ops = \<lparr>ro_Notify = (\<lambda>_ _ _ _. None), ro_Type = (\<lambda>_. NotificationTypeApi)\<rparr>"

definition demo_body :: notification_body where
  "demo_body = \<lparr>nb_Schedule = ''s'', nb_Action = ''a'', nb_Resource = ''r'', nb_Status = ''Success'', nb_Metadata = []\<rparr>"



text \<open>
  When the worker takes a body, it notifies every recipient registered for the body's
  schedule exactly once, and nobody else, whatever the iteration order and whether or not other
  recipients fail; the recipients of the service do not change.
\<close>

theorem worker_notifies_each_once:
  assumes "recipients_ok s" and "ns_ch s = body # rest" and "run_step ops ord s out = (s', out')"
  shows "s' = s\<lparr>ns_ch := rest\<rparr> \<and> (\<exists>ds. out' = out @ ds \<and>
    mset (map dl_Id ds) = mset (mkeys (midx (ns_recipients s) (nb_Schedule body))) \<and>
    (\<forall>d \<in> set ds. dl_Body d = body \<and> (\<exists>r. recipient_of s (nb_Schedule body) (dl_Id d) = Some r \<and>
       dl_Type d = NotificationType_String (ro_Type ops r))))"
  by (rule run_step_spec [OF assms(1,3,2)])

theorem worker_notifies_each_once_witness:
  "let s = Send (AddRecipientToSchedule demo_ops NewNotificationService ''s'' ''p'' 7) demo_body
   in \<exists>ds. snd (run_step demo_ops insertion_order s []) = [] @ ds \<and> map dl_Id ds = [''p'']"
proof -
  let ?s = "Send (AddRecipientToSchedule demo_ops NewNotificationService ''s'' ''p'' 7) demo_body"
  have ok: "recipients_ok ?s"
    by (simp add: recipients_ok_def Send_def AddRecipientToSchedule_def NewNotificationService_def capacity_def Let_def
        mensure_def)
  have ch: "ns_ch ?s = demo_body # []"
    by (simp add: Send_def AddRecipientToSchedule_def NewNotificationService_def capacity_def Let_def)
  have keys: "mset (mkeys (midx (ns_recipients ?s) (nb_Schedule demo_body))) = {#''p''#}"
    by (simp add: AddRecipientToSchedule_def NewNotificationService_def Let_def demo_body_def mensure_def)
  from worker_notifies_each_once [OF ok ch surjective_pairing, of demo_ops insertion_order "[]"] keys
  show ?thesis unfolding Let_def by (metis mset_single_iff)
qed

text \<open>
  After the shutdown has closed the service, \<open>Send\<close> changes nothing, so nothing is ever
  sent on the closed channel, and as many turns of the worker as there are bodies drain it.
\<close>

fun drain :: "'r recipient_ops \<Rightarrow> range_order \<Rightarrow> nat \<Rightarrow> 'r notification_service \<times> delivery list \<Rightarrow>
    'r notification_service \<times> delivery list" where
  "drain ops ord 0 c = c"
| "drain ops ord (Suc n) (s, out) = drain ops ord n (run_step ops ord s out)"

lemma drain_ch: "ns_ch (fst (drain ops ord n (s, out))) = drop n (ns_ch s)"
proof (induction n arbitrary: s out)
  case (Suc n)
  then show ?case
    by (cases "ns_ch s") (simp_all add: run_step_def Let_def)
qed simp

theorem closed_service_drains:
  "Send (close_service s) body = close_service s \<and>
   ns_ch (fst (drain ops ord (length (ns_ch s)) (close_service s, out))) = []"
  by (simp add: drain_ch) (simp add: Send_def close_service_def)

end
