(* ===== verification/Notification_Policy.thy ===== *)
theory Notification_Policy
  imports Notification_Service Json
begin

text \<open>
  The recipients of \<^verbatim>\<open>notification/api.go\<close>, \<^verbatim>\<open>slack.go\<close> and \<^verbatim>\<open>msteams.go\<close>, and the
  reconciler of notification policies, \<^verbatim>\<open>internal/controller/notificationpolicy_controller.go\<close>,
  which registers one recipient per policy with the notification service. The HTTP exchange is a
  parameter: a request gives an error or a status code with its text.
\<close>

section \<open>Recipients\<close>

datatype recipient =
    ApiNotification string string
  | MSTeamsNotification string string
  | SlackNotification string string

record http_request =
  hr_Method :: string
  hr_Url :: string
  hr_Body :: string

type_synonym http_client = "http_request \<Rightarrow> go_error + (int \<times> string)"

fun recipient_Type :: "recipient \<Rightarrow> notification_type" where
  "recipient_Type (ApiNotification url mth) = NotificationTypeApi"
| "recipient_Type (MSTeamsNotification url title) = NotificationTypeMSTeams"
| "recipient_Type (SlackNotification url title) = NotificationTypeSlack"

fun json_meta :: "meta_value \<Rightarrow> json" where
  "json_meta (MetaString s) = JString s"
| "json_meta (MetaList ss) = JArray (map JString ss)"

text \<open>The verb \<^verbatim>\<open>%v\<close> on a string and on a slice of strings.\<close>

fun show_meta :: "meta_value \<Rightarrow> string" where
  "show_meta (MetaString s) = s"
| "show_meta (MetaList ss) = ''['' @ strings_Join ss '' '' @ '']''"

definition json_body :: "notification_body \<Rightarrow> json" where
  "json_body body = JObject
     [(''schedule'', JString (nb_Schedule body)), (''action'', JString (nb_Action body)),
      (''resource'', JString (nb_Resource body)), (''status'', JString (nb_Status body)),
      (''metadata'', json_map (map (\<lambda>(k, v). (k, json_meta v)) (nb_Metadata body)))]"

definition status_error :: "string \<Rightarrow> go_error + (int \<times> string) \<Rightarrow> go_error option" where
  "status_error label resp = (case resp of
      Inl err \<Rightarrow> Some err
    | Inr (code, status) \<Rightarrow>
        if code < 200 \<or> 300 \<le> code
        then Some (Err (label @ '' notification returned non-success status: '' @ status)) else None)"

definition ApiNotification_Notify :: "http_client \<Rightarrow> string \<Rightarrow> string \<Rightarrow> notification_body \<Rightarrow> go_error option" where
  "ApiNotification_Notify http url mth body =
     status_error ''api'' (http \<lparr>hr_Method = ToUpper mth, hr_Url = url, hr_Body = Marshal (json_body body)\<rparr>)"

definition mrkdwn :: "string \<Rightarrow> json" where
  "mrkdwn t = json_map [(''type'', JString ''mrkdwn''), (''text'', JString t)]"

definition newline :: string where
  "newline = [CHR 0x0A]"

definition slack_blocks :: "range_order \<Rightarrow> string \<Rightarrow> notification_body \<Rightarrow> json list" where
  "slack_blocks ord title body =
     [json_map [(''type'', JString ''header''),
        (''text'', json_map [(''type'', JString ''plain_text''), (''text'', JString title), (''emoji'', JBool True)])],
      json_map [(''type'', JString ''section''),
        (''fields'', JArray [mrkdwn (''*Schedule:*'' @ newline @ nb_Schedule body), mrkdwn (''*Action:*'' @ newline @ nb_Action body),
           mrkdwn (''*Resource:*'' @ newline @ nb_Resource body), mrkdwn (''*Status:*'' @ newline @ nb_Status body)])]] @
     (if 0 < length (nb_Metadata body)
      then [json_map [(''type'', JString ''divider'')],
            json_map [(''type'', JString ''section''), (''text'', mrkdwn ''*Metadata:*'')]] @
           map (\<lambda>key. json_map [(''type'', JString ''section''), (''text'', mrkdwn (''*'' @ key @ '':* '' @
                  (case mget (nb_Metadata body) key of None \<Rightarrow> '''' | Some v \<Rightarrow> show_meta v)))])
             (visit ord [''slack''] (mkeys (nb_Metadata body)))
      else [])"

definition SlackNotification_Notify :: "http_client \<Rightarrow> range_order \<Rightarrow> string \<Rightarrow> string \<Rightarrow> notification_body \<Rightarrow> go_error option" where
  "SlackNotification_Notify http ord url title body =
     status_error ''slack'' (http \<lparr>hr_Method = ''POST'', hr_Url = url,
       hr_Body = Marshal (json_map [(''text'', JString title), (''blocks'', JArray (slack_blocks ord title body))])\<rparr>)"

definition msteams_facts :: "range_order \<Rightarrow> notification_body \<Rightarrow> (string \<times> string) list" where
  "msteams_facts ord body =
     [(''Schedule'', nb_Schedule body), (''Action'', nb_Action body), (''Resource'', nb_Resource body),
      (''Status'', nb_Status body)] @
     map (\<lambda>key. (''Metadata '' @ key,
            case mget (nb_Metadata body) key of None \<Rightarrow> '''' | Some v \<Rightarrow> Marshal (json_meta v)))
       (visit ord [''msteams''] (mkeys (nb_Metadata body)))"

definition msteams_payload :: "range_order \<Rightarrow> string \<Rightarrow> notification_body \<Rightarrow> json" where
  "msteams_payload ord title body = JObject
     [(''type'', JString ''message''),
      (''attachments'', JArray [JObject
         [(''contentType'', JString ''application/vnd.microsoft.card.adaptive''), (''contentUrl'', JString ''''),
          (''content'', JObject
             [(''$schema'', JString ''http://adaptivecards.io/schemas/adaptive-card.json''),
              (''type'', JString ''AdaptiveCard''), (''version'', JString ''1.5''),
              (''body'', JArray
                 [json_map [(''type'', JString ''TextBlock''), (''size'', JString ''Medium''), (''weight'', JString ''Bolder''),
                    (''text'', JString title), (''style'', JString ''heading''), (''wrap'', JBool True)],
                  json_map [(''type'', JString ''FactSet''),
                    (''facts'', JArray (map (\<lambda>(t, v). JObject [(''title'', JString t), (''value'', JString v)])
                       (msteams_facts ord body)))]])])]])]"

definition MSTeamsNotification_Notify :: "http_client \<Rightarrow> range_order \<Rightarrow> string \<Rightarrow> string \<Rightarrow> notification_body \<Rightarrow> go_error option" where
  "MSTeamsNotification_Notify http ord url title body =
     status_error ''msteams'' (http \<lparr>hr_Method = ''POST'', hr_Url = url, hr_Body = Marshal (msteams_payload ord title body)\<rparr>)"

fun recipient_Notify :: "http_client \<Rightarrow> range_order \<Rightarrow> recipient \<Rightarrow> notification_body \<Rightarrow> go_error option" where
  "recipient_Notify http ord (ApiNotification url mth) body = ApiNotification_Notify http url mth body"
| "recipient_Notify http ord (MSTeamsNotification url title) body = MSTeamsNotification_Notify http ord url title body"
| "recipient_Notify http ord (SlackNotification url title) body = SlackNotification_Notify http ord url title body"

text \<open>The interface value the service calls through; the exchange may depend on earlier deliveries.\<close>

definition recipients :: "(delivery list \<Rightarrow> http_client) \<Rightarrow> range_order \<Rightarrow> recipient recipient_ops" where
  "recipients http ord =
     \<lparr>ro_Notify = (\<lambda>out r rid body. recipient_Notify (http out) ord r body), ro_Type = recipient_Type\<rparr>"

section \<open>Policies\<close>

text \<open>The pairs of the optional specs are url and method, url and card title, url and title.\<close>

record notification_policy_spec =
  np_Enabled :: "bool option"
  np_Schedules :: "string list"
  np_Type :: string
  np_Api :: "(string \<times> string) option"
  np_MSTeams :: "(string \<times> string) option"
  np_Slack :: "(string \<times> string) option"

record notification_policy =
  np_Name :: string
  np_Spec :: notification_policy_spec
  np_Conditions :: "condition list"

definition NotificationPolicySpec_IsActive :: "notification_policy_spec \<Rightarrow> bool" where
  "NotificationPolicySpec_IsActive r = IsActive (np_Enabled r)"

type_synonym policy_state = "recipient notification_service \<times> effect_log"

abbreviation policy_kind :: string where
  "policy_kind \<equiv> ''NotificationPolicy''"

text \<open>The recipient of a valid spec, or the reason and message of the condition for an invalid one.\<close>

definition policy_recipient :: "notification_policy_spec \<Rightarrow> (string \<times> string) + recipient" where
  "policy_recipient spec =
     (if np_Type spec = ''api''
      then (case np_Api spec of
          None \<Rightarrow> Inl (''InvalidNotificationConfig'', ''api notification type requires spec.api configuration'')
        | Some (url, mth) \<Rightarrow> Inr (ApiNotification url mth))
      else if np_Type spec = ''msteams''
      then (case np_MSTeams spec of
          None \<Rightarrow> Inl (''InvalidNotificationConfig'', ''ms teams notification type requires spec.msteams configuration'')
        | Some (url, title) \<Rightarrow> Inr (MSTeamsNotification url title))
      else if np_Type spec = ''slack''
      then (case np_Slack spec of
          None \<Rightarrow> Inl (''InvalidNotificationConfig'', ''slack notification type requires spec.slack configuration'')
        | Some (url, title) \<Rightarrow> Inr (SlackNotification url title))
      else Inl (''NotSupportedNotificationType'', ''Notification type '' @ quoted (np_Type spec) @ '' not supported''))"

definition reconcile_policy :: "recipient recipient_ops \<Rightarrow> range_order \<Rightarrow> int \<Rightarrow> meta_api \<Rightarrow> notification_policy \<Rightarrow>
    policy_state \<Rightarrow> go_error option \<times> policy_state \<times> condition list" where
  "reconcile_policy ops ord now meta inst st =
     (let (svc, log) = st;
          svc1 = RemoveRecipient ops ord svc (np_Name inst);
          conditions = np_Conditions inst
      in if \<not> NotificationPolicySpec_IsActive (np_Spec inst)
         then (None, (svc1, log), addToConditions meta conditions (mk_condition now ''Ready'' ConditionFalse ''Disabled'' ''''))
         else (case policy_recipient (np_Spec inst) of
             Inl (reason, msg) \<Rightarrow>
               (None, (svc1, log @ [EvEvent policy_kind (np_Name inst) EventWarning reason msg]),
                addToConditions meta conditions (mk_condition now ''Ready'' ConditionFalse reason msg))
           | Inr r \<Rightarrow>
               (None, (fold (\<lambda>x s. AddRecipientToSchedule ops s x (np_Name inst) r) (np_Schedules (np_Spec inst)) svc1, log),
                addToConditions meta conditions (mk_condition now ''Ready'' ConditionTrue ''Active'' ''''))))"

record policy_api =
  pa_GetPolicy :: "effect_log \<Rightarrow> string \<Rightarrow> go_error + notification_policy"
  pa_StatusUpdate :: "effect_log \<Rightarrow> string \<Rightarrow> condition list \<Rightarrow> go_error option"
  pa_Now :: int

definition Policy_Reconcile :: "recipient recipient_ops \<Rightarrow> range_order \<Rightarrow> policy_api \<Rightarrow> meta_api \<Rightarrow> policy_state \<Rightarrow> string \<Rightarrow>
    go_error option \<times> policy_state" where
  "Policy_Reconcile ops ord api meta st name =
     (case pa_GetPolicy api (snd st) name of
        Inl err \<Rightarrow>
          if err_IsNotFound err then (None, (RemoveRecipient ops ord (fst st) name, snd st)) else (Some err, st)
      | Inr inst \<Rightarrow>
          (let errEvent = (\<lambda>err. EvEvent policy_kind (np_Name inst) EventWarning ''ReconcileError''
                             (''Reconcile error: '' @ err_Error err))
           in case reconcile_policy ops ord (pa_Now api) meta inst st of
                (Some err, (svc, log), cs) \<Rightarrow> (Some err, (svc, log @ [errEvent err]))
              | (None, (svc, log), cs) \<Rightarrow>
                  (let log1 = log @ [EvStatusUpdate policy_kind (np_Name inst) cs] in
                   case pa_StatusUpdate api log (np_Name inst) cs of
                     Some err \<Rightarrow> (Some err, (svc, log1 @ [errEvent err]))
                   | None \<Rightarrow> (None, (svc, log1 @
                       [EvEvent policy_kind (np_Name inst) EventNormal ''ReconcileSuccess'' ''Reconcile succeeded''])))))"

section \<open>Lemmas\<close>

lemma fold_add_recipient_of:
  "recipient_of (fold (\<lambda>x s. AddRecipientToSchedule ops s x rid r) xs s) y i =
     (if i = rid \<and> y \<in> set xs then Some r else recipient_of s y i)"
  by (induction xs arbitrary: s) auto

lemma fold_add_inv:
  "ns_inv ops s \<Longrightarrow> distinct xs \<Longrightarrow> \<forall>x \<in> set xs. recipient_of s x rid = None \<Longrightarrow>
     ns_inv ops (fold (\<lambda>x s. AddRecipientToSchedule ops s x rid r) xs s)"
proof (induction xs arbitrary: s)
  case (Cons x xs)
  then have "\<forall>y \<in> set xs. recipient_of (AddRecipientToSchedule ops s x rid r) y rid = None"
    by auto
  with Cons show ?case by (simp add: AddRecipientToSchedule_inv)
qed simp

lemma reconcile_policy_spec:
  assumes "reconcile_policy ops ord now meta inst (svc, log) = (err, (svc', log'), cs)"
  shows "err = None"
    and "recipient_of svc' x i =
      (if i = np_Name inst
       then (if NotificationPolicySpec_IsActive (np_Spec inst) \<and> x \<in> set (np_Schedules (np_Spec inst))
             then (case policy_recipient (np_Spec inst) of Inl e \<Rightarrow> None | Inr r \<Rightarrow> Some r) else None)
       else recipient_of svc x i)"
    and "ns_inv ops svc \<Longrightarrow> distinct (np_Schedules (np_Spec inst)) \<Longrightarrow> ns_inv ops svc'"
  using assms
  by (auto simp: reconcile_policy_def Let_def RemoveRecipient_inv fold_add_recipient_of fold_add_inv
      split: if_splits sum.splits prod.splits)

section \<open>Properties\<close>

definition demo_policy :: notification_policy where
  "demo_policy = \<lparr>np_Name = ''p'', np_Spec = \<lparr>np_Enabled = None, np_Schedules = [''office''], np_Type = ''slack'',
     np_Api = None, np_MSTeams = None, np_Slack = Some (''https://hooks'', ''TimeTerra'')\<rparr>, np_Conditions = []\<rparr>"

definition demo_policy_api :: policy_api where
  "demo_policy_api = \<lparr>pa_GetPolicy = (\<lambda>_ _. Inr demo_policy), pa_StatusUpdate = (\<lambda>_ _ _. None), pa_Now = 0\<rparr>"

definition demo_recipients :: "recipient recipient_ops" where
  "demo_recipients = recipients (\<lambda>_ _. Inr (200, ''200 OK'')) insertion_order"

text \<open>
  Claim C37. Reconciling a notification policy registers its recipient for exactly the schedules of
  its spec when the policy is enabled and its configuration valid, and for no schedule when it is
  disabled, invalid or deleted; the recipients of other policies stay as they are.
\<close>

theorem policy_registers_exactly:
  assumes "Policy_Reconcile ops ord api meta (svc, log) name = (err, (svc', log'))"
    and "\<And>inst. pa_GetPolicy api log name = Inr inst \<Longrightarrow> np_Name inst = name"
    and "\<And>e. pa_GetPolicy api log name = Inl e \<Longrightarrow> err_IsNotFound e"
  shows "recipient_of svc' x i =
    (if i \<noteq> name then recipient_of svc x i
     else case pa_GetPolicy api log name of
         Inl e \<Rightarrow> None
       | Inr inst \<Rightarrow> if NotificationPolicySpec_IsActive (np_Spec inst) \<and> x \<in> set (np_Schedules (np_Spec inst))
           then (case policy_recipient (np_Spec inst) of Inl e \<Rightarrow> None | Inr r \<Rightarrow> Some r) else None)"
proof (cases "pa_GetPolicy api log name")
  case (Inl e)
  with assms show ?thesis by (auto simp: Policy_Reconcile_def)
next
  case (Inr inst)
  obtain e svc1 log1 cs where r: "reconcile_policy ops ord (pa_Now api) meta inst (svc, log) = (e, (svc1, log1), cs)"
    by (metis prod.exhaust)
  note sp = reconcile_policy_spec [OF r]
  have "svc' = svc1"
    using assms(1) Inr r sp(1) by (auto simp: Policy_Reconcile_def Let_def split: option.splits)
  then show ?thesis
    using sp(2) [of x i] Inr assms(2) by auto
qed

theorem policy_registers_exactly_witness:
  "let st = snd (Policy_Reconcile demo_recipients insertion_order demo_policy_api keyed_meta (NewNotificationService, []) ''p'')
   in recipient_of (fst st) ''office'' ''p'' = Some (SlackNotification ''https://hooks'' ''TimeTerra'')"
proof -
  let ?r = "Policy_Reconcile demo_recipients insertion_order demo_policy_api keyed_meta (NewNotificationService, []) ''p''"
  have r: "?r = (fst ?r, (fst (snd ?r), snd (snd ?r)))" by simp
  from policy_registers_exactly [OF r, of "''office''" "''p''"] show ?thesis
    by (simp add: demo_policy_api_def demo_policy_def NotificationPolicySpec_IsActive_def policy_recipient_def)
qed

text \<open>
  A policy that lists its schedules without repetition keeps the invariant of the service
  and with it the gauge of registered policies exact; one that lists a schedule twice makes the
  gauge count it twice, and removing the policy leaves the gauge one too high.
\<close>

theorem policy_gauge:
  "(ns_inv ops svc \<and> distinct (np_Schedules (np_Spec inst)) \<longrightarrow>
      ns_inv ops (fst (fst (snd (reconcile_policy ops ord now meta inst (svc, log)))))) \<and>
   (let twice = demo_policy\<lparr>np_Spec := (np_Spec demo_policy)\<lparr>np_Schedules := [''office'', ''office'']\<rparr>\<rparr>;
        svc1 = fst (fst (snd (reconcile_policy demo_recipients insertion_order now meta twice (NewNotificationService, []))));
        svc2 = RemoveRecipient demo_recipients insertion_order svc1 ''p''
    in ns_gauge svc1 ''slack'' ''office'' = 2 \<and> ns_gauge svc2 ''slack'' ''office'' = 1 \<and>
       recipient_of svc2 ''office'' ''p'' = None)"
proof (intro conjI impI)
  assume "ns_inv ops svc \<and> distinct (np_Schedules (np_Spec inst))"
  then show "ns_inv ops (fst (fst (snd (reconcile_policy ops ord now meta inst (svc, log)))))"
    using reconcile_policy_spec(3) [of ops ord now meta inst svc log] by (metis prod.collapse)
next
  show "let twice = demo_policy\<lparr>np_Spec := (np_Spec demo_policy)\<lparr>np_Schedules := [''office'', ''office'']\<rparr>\<rparr>;
        svc1 = fst (fst (snd (reconcile_policy demo_recipients insertion_order now meta twice (NewNotificationService, []))));
        svc2 = RemoveRecipient demo_recipients insertion_order svc1 ''p''
    in ns_gauge svc1 ''slack'' ''office'' = 2 \<and> ns_gauge svc2 ''slack'' ''office'' = 1 \<and>
       recipient_of svc2 ''office'' ''p'' = None"
    by (simp add: Let_def reconcile_policy_def demo_policy_def demo_recipients_def recipients_def NotificationPolicySpec_IsActive_def
        policy_recipient_def NewNotificationService_def RemoveRecipient_def AddRecipientToSchedule_def policies_add_def
        mensure_def recipient_of_def)
qed

theorem policy_gauge_witness:
  "ns_inv demo_recipients (fst (fst (snd (reconcile_policy demo_recipients insertion_order 0 keyed_meta demo_policy
     (NewNotificationService, [])))))"
proof -
  have "ns_inv demo_recipients NewNotificationService \<and> distinct (np_Schedules (np_Spec demo_policy))"
    by (simp add: NewNotificationService_inv demo_policy_def)
  with policy_gauge [of demo_recipients NewNotificationService demo_policy insertion_order 0 keyed_meta "[]"]
  show ?thesis by blast
qed

text \<open>
  A recipient of any kind reports success exactly when the exchange answers with a status
  code from 200 to 299; a transport error is passed on.
\<close>

theorem notify_succeeds_iff:
  "recipient_Notify http ord r body = None \<longleftrightarrow>
     (\<exists>req code status. http req = Inr (code, status) \<and> 200 \<le> code \<and> code < 300 \<and>
        hr_Url req = (case r of ApiNotification u v \<Rightarrow> u | MSTeamsNotification u v \<Rightarrow> u | SlackNotification u v \<Rightarrow> u) \<and>
        hr_Method req = (case r of ApiNotification u v \<Rightarrow> ToUpper v | _ \<Rightarrow> ''POST'') \<and>
        hr_Body req = (case r of
            ApiNotification u v \<Rightarrow> Marshal (json_body body)
          | MSTeamsNotification u v \<Rightarrow> Marshal (msteams_payload ord v body)
          | SlackNotification u v \<Rightarrow>
              Marshal (json_map [(''text'', JString v), (''blocks'', JArray (slack_blocks ord v body))])))"
proof -
  have ok: "status_error l resp = None \<longleftrightarrow> (\<exists>code status. resp = Inr (code, status) \<and> 200 \<le> code \<and> code < 300)" for l resp
    by (auto simp: status_error_def split: sum.splits prod.splits)
  have ex: "(\<exists>req code status. http req = Inr (code, status) \<and> 200 \<le> code \<and> code < 300 \<and> hr_Url req = u \<and>
      hr_Method req = m \<and> hr_Body req = b) \<longleftrightarrow>
    (\<exists>code status. http \<lparr>hr_Method = m, hr_Url = u, hr_Body = b\<rparr> = Inr (code, status) \<and> 200 \<le> code \<and> code < 300)" for u m b
  proof
    assume "\<exists>req code status. http req = Inr (code, status) \<and> 200 \<le> code \<and> code < 300 \<and> hr_Url req = u \<and>
      hr_Method req = m \<and> hr_Body req = b"
    then obtain req code status where "http req = Inr (code, status)" "200 \<le> code" "code < 300"
      and "req = \<lparr>hr_Method = m, hr_Url = u, hr_Body = b\<rparr>"
      by (metis http_request.surjective old.unit.exhaust)
    then show "\<exists>code status. http \<lparr>hr_Method = m, hr_Url = u, hr_Body = b\<rparr> = Inr (code, status) \<and> 200 \<le> code \<and> code < 300"
      by blast
  next
    assume "\<exists>code status. http \<lparr>hr_Method = m, hr_Url = u, hr_Body = b\<rparr> = Inr (code, status) \<and> 200 \<le> code \<and> code < 300"
    then show "\<exists>req code status. http req = Inr (code, status) \<and> 200 \<le> code \<and> code < 300 \<and> hr_Url req = u \<and>
      hr_Method req = m \<and> hr_Body req = b"
      by (intro exI [of _ "\<lparr>hr_Method = m, hr_Url = u, hr_Body = b\<rparr>"]) simp
  qed
  show ?thesis
    unfolding ex by (cases r) (simp_all add: ok ApiNotification_Notify_def MSTeamsNotification_Notify_def
        SlackNotification_Notify_def del: Marshal.simps)
qed

lemma numberless_map [simp]: "numberless (json_map m) \<longleftrightarrow> list_all (\<lambda>(k, v). numberless v) m"
  by (simp add: json_map_def list_all_iff)

lemma numberless_meta [simp]: "numberless (json_meta v)"
  by (cases v) (simp_all add: list_all_iff)

lemma numberless_mrkdwn [simp]: "numberless (mrkdwn t)"
  by (simp add: mrkdwn_def)

lemma numberless_payloads:
  "numberless (json_body body)" "numberless (msteams_payload ord title body)"
  "list_all numberless (slack_blocks ord title body)"
  by (auto simp: json_body_def msteams_payload_def slack_blocks_def list_all_iff)

text \<open>
  Claim C38. Every request a recipient makes carries a well-formed JSON document, whatever
  characters the names, the errors and the title contain: a client that refuses any other body
  behaves the same. A receiver of the api kind decodes exactly the four names of the notice.
\<close>

theorem payload_roundtrip:
  "recipient_Notify (\<lambda>req. if parse_document (hr_Body req) = None then refuse req else http req) ord r body =
     recipient_Notify http ord r body \<and>
   (let payload = Marshal (json_body body) in
    Unmarshal_field ''schedule'' payload = Inr (nb_Schedule body) \<and> Unmarshal_field ''action'' payload = Inr (nb_Action body) \<and>
    Unmarshal_field ''resource'' payload = Inr (nb_Resource body) \<and> Unmarshal_field ''status'' payload = Inr (nb_Status body))"
proof
  show "recipient_Notify (\<lambda>req. if parse_document (hr_Body req) = None then refuse req else http req) ord r body =
     recipient_Notify http ord r body"
    by (cases r) (simp_all add: ApiNotification_Notify_def MSTeamsNotification_Notify_def SlackNotification_Notify_def
        parse_Marshal numberless_payloads del: Marshal.simps)
  have doc: "parse_document (Marshal (json_body body)) = Some (json_body body)"
    by (rule parse_Marshal) (rule numberless_payloads)
  show "let payload = Marshal (json_body body) in
    Unmarshal_field ''schedule'' payload = Inr (nb_Schedule body) \<and> Unmarshal_field ''action'' payload = Inr (nb_Action body) \<and>
    Unmarshal_field ''resource'' payload = Inr (nb_Resource body) \<and> Unmarshal_field ''status'' payload = Inr (nb_Status body)"
    unfolding Let_def Unmarshal_field_def doc by (simp add: json_body_def EqualFold_def lower_char_def)
qed

end
