(* ===== verification/Status_Types.thy ===== *)
theory Status_Types
  imports Operator Notification_Policy
begin

text \<open>
  The type of the status conditions across the operator. Nine reconcilers, the jobs of the seven
  kinds and the end of an action execution write the conditions of an object's status; each starts
  from the conditions it read. \<open>status_typed\<close> says that no condition type occurs twice and every
  type is Ready or starts with Action. \<open>status_step\<close> is one handler of the operator, seen
  through the log of its effects, and the invariant of its runs is that every status update in the log
  is typed. The API server is assumed to serve only conditions that some handler wrote before, or none.
\<close>

section \<open>The type\<close>

definition condition_type :: "string \<Rightarrow> bool" where
  "condition_type t \<longleftrightarrow> t = ''Ready'' \<or> HasPrefix t ''Action''"

definition status_typed :: "condition list \<Rightarrow> bool" where
  "status_typed cs \<longleftrightarrow> list_all (\<lambda>c. condition_type (c_Type c)) cs \<and> distinct (map c_Type cs)"

fun effect_typed :: "effect \<Rightarrow> bool" where
  "effect_typed (EvStatusUpdate kind name cs) \<longleftrightarrow> status_typed cs"
| "effect_typed _ \<longleftrightarrow> True"

abbreviation log_typed :: "effect_log \<Rightarrow> bool" where
  "log_typed log \<equiv> list_all effect_typed log"

lemma condition_type_action [simp]: "condition_type (conditionTypeForAction a)" "condition_type (''Action'' @ s)"
  by (simp_all add: condition_type_def conditionTypeForAction_def HasPrefix_def)

lemma condition_type_Ready [simp]: "condition_type ''Ready''"
  by (simp add: condition_type_def)

lemma status_typed_Nil [simp]: "status_typed []"
  by (simp add: status_typed_def)

lemma status_typed_filter [simp]: "status_typed cs \<Longrightarrow> status_typed (filter P cs)"
  by (auto simp: status_typed_def list_all_iff distinct_map_filter)

lemma c_Type_mk [simp]: "c_Type (mk_condition now ty st reason msg) = ty"
  by (simp add: mk_condition_def)

text \<open>
  What \<^verbatim>\<open>meta.SetStatusCondition\<close> and \<^verbatim>\<open>meta.RemoveStatusCondition\<close> document: the condition
  of the type is replaced or appended, or taken out, and no other type appears.
\<close>

definition meta_keyed :: "meta_api \<Rightarrow> bool" where
  "meta_keyed meta \<longleftrightarrow>
     (\<forall>cs c. distinct (map c_Type cs) \<longrightarrow> distinct (map c_Type (SetStatusCondition meta cs c)) \<and>
        c_Type ` set (SetStatusCondition meta cs c) \<subseteq> insert (c_Type c) (c_Type ` set cs)) \<and>
     (\<forall>cs t. distinct (map c_Type cs) \<longrightarrow> distinct (map c_Type (RemoveStatusCondition meta cs t)) \<and>
        c_Type ` set (RemoveStatusCondition meta cs t) \<subseteq> c_Type ` set cs)"

lemma keyed_meta_keyed: "meta_keyed keyed_meta"
  unfolding meta_keyed_def keyed_meta_def by (auto simp: distinct_map_filter)

text \<open>The type, said of the list of condition types.\<close>

lemma status_typed_iff:
  "status_typed cs \<longleftrightarrow> distinct (map c_Type cs) \<and> c_Type ` set cs \<subseteq> Collect condition_type"
  by (auto simp: status_typed_def list_all_iff)

lemma status_typed_Set [simp]:
  assumes "meta_keyed meta" and "status_typed cs" and "condition_type (c_Type c)"
  shows "status_typed (SetStatusCondition meta cs c)"
proof -
  have "distinct (map c_Type (SetStatusCondition meta cs c))"
    and "c_Type ` set (SetStatusCondition meta cs c) \<subseteq> insert (c_Type c) (c_Type ` set cs)"
    using assms(1,2) by (simp_all add: meta_keyed_def status_typed_iff)
  moreover have "insert (c_Type c) (c_Type ` set cs) \<subseteq> Collect condition_type"
    using assms(2,3) by (simp add: status_typed_iff)
  ultimately show ?thesis
    unfolding status_typed_iff by (meson subset_trans)
qed

lemma status_typed_add [simp]:
  "meta_keyed meta \<Longrightarrow> status_typed cs \<Longrightarrow> condition_type (c_Type c) \<Longrightarrow> status_typed (addToConditions meta cs c)"
  by (simp add: addToConditions_def)

lemma status_typed_remove [simp]:
  assumes "meta_keyed meta" and "status_typed cs"
  shows "status_typed (removeFromConditions meta cs t)"
proof -
  have "distinct (map c_Type (RemoveStatusCondition meta cs t))"
    and "c_Type ` set (RemoveStatusCondition meta cs t) \<subseteq> c_Type ` set cs"
    using assms by (simp_all add: meta_keyed_def status_typed_iff)
  with assms(2) show ?thesis
    unfolding status_typed_iff removeFromConditions_def by (meson subset_trans)
qed

section \<open>The resource reconcilers\<close>

lemma fold_remove_typed:
  "meta_keyed meta \<Longrightarrow> status_typed cs \<Longrightarrow>
    status_typed (fold (\<lambda>a cs. removeFromConditions meta cs (conditionTypeForAction a)) as cs)"
  by (induction as arbitrary: cs) simp_all

lemma prune_actions_typed:
  "meta_keyed meta \<Longrightarrow> status_typed cs \<Longrightarrow>
    status_typed (fst (snd (prune_actions lib meta x z actions ids as (svc, cs, acc))))"
  by (induction as arbitrary: svc cs acc) (simp_all add: Let_def split: option.split)

lemma schedule_action_typed:
  assumes "meta_keyed meta" and "status_typed cs" and "log_typed log"
    and "schedule_action lib api meta obj z on sas scheduled a (svc, cs, log) = (failed, svc', cs', log')"
  shows "status_typed cs' \<and> log_typed log'"
  using assms by (auto simp: schedule_action_def Let_def split: if_splits option.splits prod.splits sum.splits)

lemma schedule_actions_typed:
  assumes "meta_keyed meta" and "status_typed cs" and "log_typed log"
    and "schedule_actions lib api meta obj z actions on sas scheduled as (svc, cs, log) = (failed, svc', cs', log')"
  shows "status_typed cs' \<and> log_typed log'"
  using assms(2-)
proof (induction as arbitrary: svc cs log)
  case (Cons a as)
  obtain f1 svc1 cs1 log1 where s: "schedule_action lib api meta obj z
      (case mget actions a of None \<Rightarrow> False | Some x \<Rightarrow> on x) sas scheduled a (svc, cs, log) = (f1, svc1, cs1, log1)"
    by (rule prod_cases4)
  from schedule_action_typed [OF assms(1) Cons.prems(1,2) this] Cons s show ?case
    by (cases f1) auto
qed simp

lemma reconcileResource_typed:
  assumes "meta_keyed meta" and "status_typed (rr_Conditions obj)" and "log_typed (rc_log st)"
  shows "log_typed (rc_log (snd (reconcileResource lib ord api meta st obj z actions on)))"
proof (cases "rr_Active obj")
  case False
  with assms show ?thesis
    by (simp add: reconcileResource_def disableResource_def updateStatus_def Let_def)
next
  case act: True
  show ?thesis
  proof (cases "api_GetSchedule api (rc_log st) (rr_Schedule obj)")
    case (Inl err)
    with act assms show ?thesis
      by (simp add: reconcileResource_def updateStatus_def Let_def)
  next
    case (Inr schedule)
    let ?x = "rr_Schedule obj"
    obtain svc1 removed where n1: "RemoveActionsOfResourceFromNonCurrentSchedule lib ord (rc_svc st) ?x z = (svc1, removed)"
      by (rule prod.exhaust)
    let ?ids = "GetActionsOfResource ord svc1 ?x z"
    let ?cs1 = "fold (\<lambda>action cs. removeFromConditions meta cs (conditionTypeForAction action)) removed (rr_Conditions obj)"
    obtain svc2 cs2 scheduled where n2: "prune_actions lib meta ?x z actions ?ids
        (visit ord [''scheduled''] (mkeys ?ids)) (svc1, ?cs1, []) = (svc2, cs2, scheduled)"
      by (rule prod_cases3)
    obtain failed svc3 cs3 log3 where n3: "schedule_actions lib api meta obj z actions on
        (ss_Actions (sc_Spec schedule)) scheduled (visit ord [''actions''] (mkeys actions)) (svc2, cs2, rc_log st) =
        (failed, svc3, cs3, log3)"
      by (rule prod_cases4)
    have "status_typed cs2"
      using prune_actions_typed [OF assms(1) fold_remove_typed [OF assms(1,2)], where as = "visit ord [''scheduled''] (mkeys ?ids)"]
        n2 by (metis fst_conv snd_conv)
    from schedule_actions_typed [OF assms(1) this assms(3) n3] assms(1) show ?thesis
      by (simp add: reconcileResource_def Let_def act Inr n1 n2 n3 updateStatus_def split: option.split)
  qed
qed

lemma aws_Reconcile_typed:
  assumes "meta_keyed meta" and "\<And>obj. getObj (rc_log st) name = Inr obj \<Longrightarrow> status_typed (ar_Conditions obj)"
    and "log_typed (rc_log st)"
  shows "log_typed (rc_log (snd (aws_Reconcile lib ord api meta env kind getObj on opns st name)))"
  using assms by (auto simp: aws_Reconcile_def Let_def aws_reconcile_resource_def
      intro!: reconcileResource_typed split: option.split sum.split)

lemma k8s_Reconcile_typed:
  assumes "meta_keyed meta" and "\<And>obj. getObj (rc_log st) name = Inr obj \<Longrightarrow> status_typed (rr_Conditions (view obj))"
    and "log_typed (rc_log st)"
  shows "log_typed (rc_log (snd (k8s_Reconcile lib ord api meta kind getObj view actions on st name)))"
  using assms by (auto simp: k8s_Reconcile_def Let_def intro!: reconcileResource_typed split: sum.split)

section \<open>The schedule and policy reconcilers\<close>

lemma check_periods_typed: "log_typed log \<Longrightarrow> log_typed (snd (check_periods api name field ps (bad, log)))"
  by (induction ps arbitrary: bad log) auto

lemma check_both_typed:
  assumes "log_typed log"
  shows "log_typed (snd (check_periods api name f2 qs (check_periods api name f1 ps (bad, log))))"
  using check_periods_typed [OF check_periods_typed [OF assms, of api name f1 ps bad], of api name f2 qs] by (metis prod.collapse)

lemma action_condition_type [simp]: "c_Type (action_condition lib now a c) = conditionTypeForAction a"
  by (simp add: action_condition_def)

lemma check_actions_typed:
  "meta_keyed meta \<Longrightarrow> status_typed cs \<Longrightarrow> status_typed (fst (check_actions lib now meta actions as (cs, ret, acc)))"
  by (induction as arbitrary: cs ret acc) (simp_all split: option.split)

lemma removeMissing_typed [simp]: "status_typed cs \<Longrightarrow> status_typed (removeMissingActionFromConditions cs as)"
  by (simp add: removeMissingActionFromConditions_def Let_def)

lemma refresh_resources_typed:
  assumes "meta_keyed meta" and "status_typed cs" and "log_typed log"
    and "refresh_resources lib now meta x actions a zs (svc, cs, log) = (ret, svc', cs', log')"
  shows "status_typed cs' \<and> log_typed log'"
  using assms(2-)
proof (induction zs arbitrary: svc log)
  case (Cons z zs)
  show ?case
  proof (cases "mget actions a")
    case None
    with Cons.prems assms(1) show ?thesis by (auto simp: Let_def)
  next
    case (Some c)
    obtain svc1 ok where u: "UpdateCronSpec lib svc x a z (sa_Cron c) = (svc1, ok)"
      by (rule prod.exhaust)
    from Cons.prems(3) obtain ev where
      "refresh_resources lib now meta x actions a zs (svc1, cs, log @ [ev]) = (ret, svc', cs', log')" and "effect_typed ev"
      by (auto simp: Some u split: if_splits)
    with Cons.IH [OF Cons.prems(1) _ this(1)] Cons.prems(2) show ?thesis by simp
  qed
qed simp

lemma refresh_actions_typed:
  assumes "meta_keyed meta" and "status_typed cs" and "log_typed log"
    and "refresh_actions lib ord now meta x actions scheduled as (svc, cs, log) = (ret, svc', cs', log')"
  shows "status_typed cs' \<and> log_typed log'"
  using assms(2-)
proof (induction as arbitrary: svc cs log)
  case (Cons a as)
  obtain r svc1 cs1 log1 where s: "refresh_resources lib now meta x actions a
      (visit ord [''refresh'', a] (mkeys (midx scheduled a))) (svc, cs, log) = (r, svc1, cs1, log1)"
    by (rule prod_cases4)
  from refresh_resources_typed [OF assms(1) Cons.prems(1,2) this] Cons s show ?case
    by (cases r) auto
qed simp

lemma reconcile_schedule_typed:
  assumes "meta_keyed meta" and "status_typed cs" and "log_typed log"
    and "reconcile_schedule lib ord api meta sched (svc, cs, log) = (err, svc', cs', log')"
  shows "status_typed cs' \<and> log_typed log'"
proof -
  let ?as = "ss_Actions (sc_Spec sched)"
  obtain cs1 ret names where c: "check_actions lib (api_Now api) meta ?as (visit ord [''spec''] (mkeys ?as)) (cs, False, []) =
      (cs1, ret, names)"
    by (rule prod_cases3)
  have cs1: "status_typed cs1"
    using check_actions_typed [OF assms(1,2)] c by (metis fst_conv)
  let ?scheduled = "GetActions ord svc (sc_Name sched)"
  obtain r svc2 cs2 log2 where f: "refresh_actions lib ord (api_Now api) meta (sc_Name sched) ?as ?scheduled
      (visit ord [''refresh''] (mkeys ?scheduled)) (svc, removeMissingActionFromConditions cs1 names, log) = (r, svc2, cs2, log2)"
    by (rule prod_cases4)
  from refresh_actions_typed [OF assms(1) _ assms(3) this] cs1 have "status_typed cs2 \<and> log_typed log2" by simp
  with assms(1,3,4) cs1 show ?thesis
    by (auto simp: reconcile_schedule_def Let_def c f split: if_splits bool.splits)
qed

lemma Schedule_Reconcile_typed:
  assumes "meta_keyed meta" and "\<And>s. api_GetSchedule api (rc_log st) name = Inr s \<Longrightarrow> status_typed (sc_Conditions s)"
    and "log_typed (rc_log st)"
  shows "log_typed (rc_log (snd (Schedule_Reconcile lib ord api meta st name)))"
proof (cases "api_GetSchedule api (rc_log st) name")
  case (Inr s)
  obtain bad log1 where p: "check_periods api (sc_Name s) ''InactivePeriods'' (ss_InactivePeriods (sc_Spec s))
      (check_periods api (sc_Name s) ''ActivePeriods'' (ss_ActivePeriods (sc_Spec s)) (False, rc_log st)) = (bad, log1)"
    by (rule prod.exhaust)
  have log1: "log_typed log1"
    using check_both_typed [OF assms(3)] p by (metis snd_conv)
  obtain err svc cs log2 where r: "reconcile_schedule lib ord api meta s (rc_svc st, sc_Conditions s, log1) = (err, svc, cs, log2)"
    by (rule prod_cases4)
  from reconcile_schedule_typed [OF assms(1) assms(2) [OF Inr] log1 r] assms(1) assms(2) [OF Inr] log1 show ?thesis
    by (simp add: Schedule_Reconcile_def Let_def Inr p r split: option.split)
qed (use assms in \<open>simp add: Schedule_Reconcile_def\<close>)

lemma Policy_Reconcile_typed:
  assumes "meta_keyed meta" and "\<And>p. pa_GetPolicy api (snd st) name = Inr p \<Longrightarrow> status_typed (np_Conditions p)"
    and "log_typed (snd st)"
  shows "log_typed (snd (snd (Policy_Reconcile ops ord api meta st name)))"
proof (cases "pa_GetPolicy api (snd st) name")
  case (Inr p)
  with assms show ?thesis
    by (cases st) (auto simp: Policy_Reconcile_def reconcile_policy_def Let_def split: option.split sum.split prod.split)
qed (use assms in \<open>simp add: Policy_Reconcile_def\<close>)

section \<open>The jobs\<close>

lemma finish_job_typed:
  "meta_keyed meta \<Longrightarrow> status_typed cs \<Longrightarrow> log_typed log \<Longrightarrow> log_typed (snd (snd (finish_job env meta kind nm cs a errs log)))"
  by (simp add: finish_job_def)

lemma job_error_log [simp]: "snd (snd (job_error msg log)) = log"
  by (simp add: job_error_def)

lemma target_loop_typed: "log_typed log \<Longrightarrow> log_typed (snd (target_loop env creds kind nm plan ts (errs, log)))"
  by (induction ts arbitrary: errs log) (simp_all split: option.split)

lemma write_items_typed:
  assumes "\<And>i. effect_typed (ip_Write (plan i))"
  shows "log_typed log \<Longrightarrow> log_typed (snd (write_items env kind nm plan is (errs, log)))"
  by (induction "is" arbitrary: errs log) (simp_all add: assms Let_def split: option.split)

lemma namespace_loop_typed:
  assumes "\<And>i. effect_typed (ip_Write (plan i))"
  shows "log_typed log \<Longrightarrow> log_typed (snd (namespace_loop env kind nm resource sel msg plan nss (errs, log)))"
proof (induction nss arbitrary: errs log)
  case (Cons ns nss)
  show ?case
  proof (cases "ke_List env log resource ns sel")
    case (Inl err)
    with Cons show ?thesis by simp
  next
    case (Inr items)
    obtain errs1 log1 where w: "write_items env kind nm plan items (errs, log) = (errs1, log1)"
      by (rule prod.exhaust)
    then have "log_typed log1"
      using write_items_typed [of plan, OF assms Cons.prems] by (metis snd_conv)
    then show ?thesis by (simp add: Inr w Cons.IH)
  qed
qed simp

lemma plan_typed [simp]:
  "effect_typed (ip_Write (replicas_plan resource label ract i))" "effect_typed (ip_Write (hpa_plan hact i))"
  "effect_typed (ip_Write (run_plan env obj uact a ns))"
  by (simp_all add: replicas_plan_def hpa_plan_def run_plan_def Let_def split: prod.split)

lemma replicas_loop_typed: "log_typed log \<Longrightarrow> log_typed (snd (replicas_loop env obj act a sel nss log))"
  by (auto simp: replicas_loop_def Let_def intro!: namespace_loop_typed)

lemma case_finish_typed:
  assumes "log_typed (snd x)" and "meta_keyed meta" and "status_typed cs"
  shows "log_typed (snd (snd (case x of (errs, log1) \<Rightarrow> finish_job env meta kind nm cs a errs log1)))"
  using assms by (cases x) (simp add: finish_job_typed)

text \<open>A job of any kind: the object it fetches has typed conditions.\<close>

definition gets_typed :: "('o \<Rightarrow> condition list) \<Rightarrow> (effect_log \<Rightarrow> string \<Rightarrow> string \<Rightarrow> go_error + 'o) \<Rightarrow> effect_log \<Rightarrow> bool" where
  "gets_typed conds getObj log \<longleftrightarrow> (\<forall>ns name obj. getObj log ns name = Inr obj \<longrightarrow> status_typed (conds obj))"

lemma gets_typedD: "gets_typed conds getObj log \<Longrightarrow> getObj log ns name = Inr obj \<Longrightarrow> status_typed (conds obj)"
  by (simp add: gets_typed_def)

lemma aws_jobs_typed:
  assumes "meta_keyed meta" and "log_typed log"
  shows "gets_typed ar_Conditions rds log \<Longrightarrow> log_typed (snd (snd (startStopCluster k env meta features opns rds log ns nm a)))"
    and "gets_typed ar_Conditions ec2 log \<Longrightarrow> log_typed (snd (snd (startStopInstances env meta opns ec2 log ns nm a)))"
    and "gets_typed ar_Conditions tf log \<Longrightarrow> log_typed (snd (snd (startStopServer env meta opns tf log ns nm a)))"
  using assms
  by (auto simp: startStopCluster_def scale_cluster_def startStopInstances_def startStopServer_def Let_def
      intro!: case_finish_typed target_loop_typed status_typed_add elim: gets_typedD split: option.split sum.split)

lemma k8s_jobs_typed:
  assumes "meta_keyed meta" and "log_typed log"
  shows "gets_typed pr_Conditions pr log \<Longrightarrow> log_typed (snd (snd (setReplicas env meta pr log ns nm a)))"
    and "gets_typed hp_Conditions hp log \<Longrightarrow> log_typed (snd (snd (setAutoscaling env meta hp log ns nm a)))"
    and "gets_typed rj_Conditions rj log \<Longrightarrow> log_typed (snd (snd (runJob env meta opns rj log ns nm a)))"
  using assms
  by (auto simp: setReplicas_def setAutoscaling_def runJob_def Let_def simp del: write_items.simps namespace_loop.simps
      intro!: case_finish_typed replicas_loop_typed namespace_loop_typed write_items_typed elim: gets_typedD
      split: option.split sum.split)

lemma run_cron_job_typed:
  assumes "log_typed log" and "\<And>ns nm a. log_typed (snd (snd (job log ns nm a)))"
  shows "log_typed (run_cron_job api job j log)"
  using assms(1) assms(2) [of "job_Namespace j" "job_Name j" "job_Action j"]
  by (auto simp: run_cron_job_def Let_def split: option.split sum.split prod.split)

section \<open>Action executions\<close>

lemma finalizeAction_typed:
  assumes "meta_keyed meta" and "log_typed log"
    and "\<And>log' kind ns nm t. log_typed log' \<Longrightarrow> ax_GetTarget env log' kind ns nm = Inr t \<Longrightarrow> status_typed (ar_Conditions t)"
  shows "log_typed (finalizeAction rec env meta op err log)"
proof -
  let ?log1 = "if ar_NotificationService rec then log @ [EvNotify (finalize_notice op err)] else log"
  have log1: "log_typed ?log1" using assms(2) by simp
  have c: "condition_type (c_Type (finalize_condition now op err))" for now
    by (simp add: finalize_condition_def del: append.simps)
  let ?ref = "as_TargetResource (ae_Spec op)"
  show ?thesis
  proof (cases "ax_GetTarget env ?log1 (or_Kind ?ref) (or_Namespace ?ref) (or_Name ?ref)")
    case (Inl e)
    with log1 show ?thesis by (simp only: finalizeAction_def Let_def sum.case if_cancel)
  next
    case (Inr t)
    note set = status_typed_Set [OF assms(1) assms(3) [OF log1 Inr] c]
    from log1 set show ?thesis
      unfolding finalizeAction_def Let_def Inr sum.case
      by (cases "ax_TargetStatus env ?log1 (or_Kind ?ref) (ar_Name t)
        (SetStatusCondition meta (ar_Conditions t) (finalize_condition (je_End env) op err))") simp_all
  qed
qed

lemma ActionExecution_Reconcile_typed:
  assumes "meta_keyed meta" and "log_typed (ax_log s)"
    and "\<And>log' kind ns nm t. log_typed log' \<Longrightarrow> ax_GetTarget env log' kind ns nm = Inr t \<Longrightarrow> status_typed (ar_Conditions t)"
  shows "log_typed (ax_log (snd (snd (ActionExecution_Reconcile rec env meta ns nm s))))"
proof -
  have "log_typed (snd (finalize_and_delete rec env meta op err (ax_log s)))" for op err
    using finalizeAction_typed [OF assms] by (simp add: finalize_and_delete_def Let_def)
  then show ?thesis
    using assms(2)
    by (auto simp: ActionExecution_Reconcile_def Let_def case_prod_beta split: sum.split option.split prod.split)
qed

section \<open>Runs of the operator\<close>

text \<open>
  The API server's side: the conditions of every object it serves are those of some status update in
  the log, or none for an object whose status nobody wrote. An update that was refused and a stale
  read are included.
\<close>

definition written_status :: "effect_log \<Rightarrow> condition list \<Rightarrow> bool" where
  "written_status log cs \<longleftrightarrow> cs = [] \<or> (\<exists>kind name. EvStatusUpdate kind name cs \<in> set log)"

definition gets_written :: "('o \<Rightarrow> condition list) \<Rightarrow> (effect_log \<Rightarrow> string \<Rightarrow> string \<Rightarrow> go_error + 'o) \<Rightarrow> bool" where
  "gets_written conds getObj \<longleftrightarrow> (\<forall>log ns name obj. getObj log ns name = Inr obj \<longrightarrow> written_status log (conds obj))"

definition env_writes :: "('l, 'x) operator_env \<Rightarrow> bool" where
  "env_writes e \<longleftrightarrow> meta_keyed (oe_meta e) \<and> gets_written sc_Conditions (\<lambda>log ns. api_GetSchedule (oe_api e) log) \<and>
     gets_written ar_Conditions (oe_rds e) \<and> gets_written ar_Conditions (oe_docdb e) \<and>
     gets_written ar_Conditions (oe_ec2 e) \<and> gets_written ar_Conditions (oe_transfer e) \<and>
     gets_written pr_Conditions (oe_replicas e) \<and> gets_written hp_Conditions (oe_hpa e) \<and>
     gets_written rj_Conditions (oe_run e)"

lemma written_status_typed: "log_typed log \<Longrightarrow> written_status log cs \<Longrightarrow> status_typed cs"
  by (auto simp: written_status_def list_all_iff)

lemma gets_written_typed: "gets_written conds getObj \<Longrightarrow> log_typed log \<Longrightarrow> gets_typed conds getObj log"
  unfolding gets_written_def gets_typed_def using written_status_typed by blast

text \<open>
  One handler: its answers come with the step, and the state of the schedule service, of the
  notification service and of the clouds is any.
\<close>

inductive status_step :: "('c, 's) job_lib \<Rightarrow> effect_log \<Rightarrow> effect_log \<Rightarrow> bool" for lib where
  resource: "env_writes (e :: (string, string) operator_env) \<Longrightarrow>
    kind_Reconcile lib e kind \<lparr>rc_svc = svc, rc_log = log\<rparr> name = Some (err, st') \<Longrightarrow> status_step lib log (rc_log st')"
| schedule: "env_writes (e :: (string, string) operator_env) \<Longrightarrow>
    Schedule_Reconcile lib ord (oe_api e) (oe_meta e) \<lparr>rc_svc = svc, rc_log = log\<rparr> name = (err, st') \<Longrightarrow>
    status_step lib log (rc_log st')"
| policy: "meta_keyed meta \<Longrightarrow> gets_written np_Conditions (\<lambda>log ns. pa_GetPolicy papi log) \<Longrightarrow>
    Policy_Reconcile ops ord papi meta (ns, log) name = (err, (ns', log')) \<Longrightarrow> status_step lib log log'"
| fire: "env_writes (e :: (string, string) operator_env) \<Longrightarrow>
    status_step lib log (run_cron_job (oe_api e) (job_function e kind) j log)"
| execute: "meta_keyed meta \<Longrightarrow> (\<And>kind. gets_written ar_Conditions (\<lambda>log. ax_GetTarget (env :: action_env) log kind)) \<Longrightarrow>
    ActionExecution_Reconcile rec env meta namespace name \<lparr>ax_log = log, ax_db = db\<rparr> = (res, err, s') \<Longrightarrow>
    status_step lib log (ax_log s')"

lemma kind_Reconcile_typed:
  assumes "env_writes e" and "log_typed (rc_log st)" and "kind_Reconcile lib e kind st name = Some (err, st')"
  shows "log_typed (rc_log st')"
proof -
  have k: "meta_keyed (oe_meta e)" using assms(1) by (simp add: env_writes_def)
  have g: "gets_typed ar_Conditions (oe_rds e) (rc_log st)" "gets_typed ar_Conditions (oe_docdb e) (rc_log st)"
    "gets_typed ar_Conditions (oe_ec2 e) (rc_log st)" "gets_typed ar_Conditions (oe_transfer e) (rc_log st)"
    "gets_typed pr_Conditions (oe_replicas e) (rc_log st)" "gets_typed hp_Conditions (oe_hpa e) (rc_log st)"
    "gets_typed rj_Conditions (oe_run e) (rc_log st)"
    using assms(1,2) by (simp_all add: env_writes_def gets_written_typed)
  note aws = aws_Reconcile_typed [OF k _ assms(2)] and k8s = k8s_Reconcile_typed [OF k _ assms(2)]
  have fin: "log_typed (rc_log st')" if "x = (err, st')" and "log_typed (rc_log (snd x))" for x
    using that by simp
  show ?thesis
    using assms(3) g
    unfolding kind_Reconcile_def Let_def AwsRdsAuroraCluster_Reconcile_def AwsDocumentDBCluster_Reconcile_def
      AwsEc2Instance_Reconcile_def AwsTransferFamily_Reconcile_def K8sPodReplicas_Reconcile_def K8sHpa_Reconcile_def
      K8sRunJob_Reconcile_def
    by (auto split: if_splits elim!: fin elim: gets_typedD intro!: aws k8s)
qed

lemma job_function_typed:
  assumes "env_writes e" and "log_typed log"
  shows "log_typed (snd (snd (job_function e kind log ns nm a)))"
  using assms
  by (auto simp: env_writes_def job_function_def AwsRdsAuroraCluster_startStopCluster_def AwsDocumentDBCluster_startStopCluster_def
      gets_written_typed aws_jobs_typed k8s_jobs_typed)

lemma status_step_typed:
  assumes "log_typed log" and "status_step lib log log'"
  shows "log_typed log'"
  using assms(2)
proof (cases rule: status_step.cases)
  case (resource e kind svc name err st')
  from kind_Reconcile_typed [OF this(2) _ this(3)] assms(1) this(1) show ?thesis by simp
next
  case (schedule e ord svc name err st')
  have "status_typed (sc_Conditions s)" if "api_GetSchedule (oe_api e) log name = Inr s" for s
  proof -
    have "gets_written sc_Conditions (\<lambda>log ns. api_GetSchedule (oe_api e) log)"
      using schedule(2) by (simp add: env_writes_def)
    from gets_typedD [OF gets_written_typed [OF this assms(1)]] that show ?thesis by blast
  qed
  with Schedule_Reconcile_typed [of "oe_meta e" "oe_api e" "\<lparr>rc_svc = svc, rc_log = log\<rparr>" name lib ord] schedule assms(1)
  show ?thesis by (simp add: env_writes_def)
next
  case (policy meta papi ops ord ns name err ns')
  have "status_typed (np_Conditions p)" if "pa_GetPolicy papi log name = Inr p" for p
    using that policy(2) assms(1) unfolding gets_written_def by (blast intro: written_status_typed)
  with Policy_Reconcile_typed [of meta papi "(ns, log)" name ops ord] policy assms(1) show ?thesis by simp
next
  case (fire e kind j)
  then show ?thesis by (simp add: run_cron_job_typed job_function_typed assms(1))
next
  case (execute meta env rec namespace name db res err s')
  have "status_typed (ar_Conditions t)" if "log_typed log1" and "ax_GetTarget env log1 k ns nm = Inr t" for log1 k ns nm t
    using that execute(3) [of k] unfolding gets_written_def by (blast intro: written_status_typed)
  with ActionExecution_Reconcile_typed [of meta "\<lparr>ax_log = log, ax_db = db\<rparr>" env rec namespace name] execute assms(1)
  show ?thesis by simp
qed

interpretation statuses: step_invariant "\<lambda>log. log = []" "status_step lib" log_typed
  by unfold_locales (auto intro: status_step_typed)

text \<open>
  Claim C31. In every run of the operator, from an empty log and under any answers of an API
  server that serves only conditions written before, every status update of any handler has well-typed
  conditions: no condition type occurs twice, and every type is Ready or starts with Action.
\<close>

theorem status_conditions_typed:
  assumes "(status_step lib)\<^sup>*\<^sup>* [] log" and "EvStatusUpdate kind name cs \<in> set log"
  shows "distinct (map c_Type cs) \<and> (\<forall>c \<in> set cs. c_Type c = ''Ready'' \<or> HasPrefix (c_Type c) ''Action'')"
proof -
  from statuses.reachable_inv [OF refl assms(1)] have "log_typed log" .
  with assms(2) have "effect_typed (EvStatusUpdate kind name cs)"
    by (auto simp only: list_all_iff)
  then show ?thesis
    by (simp add: status_typed_def list_all_iff condition_type_def)
qed

theorem status_conditions_typed_witness:
  "\<exists>log cs. (status_step list_cron)\<^sup>*\<^sup>* [] log \<and> EvStatusUpdate ''NotificationPolicy'' ''p'' cs \<in> set log \<and> cs \<noteq> [] \<and>
     distinct (map c_Type cs)"
proof -
  let ?run = "Policy_Reconcile demo_recipients insertion_order demo_policy_api keyed_meta (NewNotificationService, []) ''p''"
  let ?cs = "addToConditions keyed_meta [] (mk_condition 0 ''Ready'' ConditionTrue ''Active'' [])"
  have w: "EvStatusUpdate ''NotificationPolicy'' ''p'' ?cs \<in> set (snd (snd ?run))"
    by (simp add: Policy_Reconcile_def reconcile_policy_def Let_def demo_policy_api_def demo_policy_def
        NotificationPolicySpec_IsActive_def policy_recipient_def)
  have "gets_written np_Conditions (\<lambda>log ns. pa_GetPolicy demo_policy_api log)"
    by (simp add: gets_written_def written_status_def demo_policy_api_def demo_policy_def)
  from status_step.policy [OF keyed_meta_keyed this, of demo_recipients insertion_order NewNotificationService "[]" "''p''"]
  have "status_step list_cron [] (snd (snd ?run))" by (metis prod.collapse)
  then have run: "(status_step list_cron)\<^sup>*\<^sup>* [] (snd (snd ?run))" ..
  have "?cs \<noteq> []" by (simp add: addToConditions_def keyed_meta_def)
  with status_conditions_typed [OF run w] run w show ?thesis by blast
qed

end
