(* ===== verification/Event_Routing.thy ===== *)
theory Event_Routing
  imports Operator
begin

text \<open>
  How changes reach the reconcilers: every \<^verbatim>\<open>SetupWithManager\<close> of the controllers registers its
  reconciler for one kind, nine of the ten with the predicate \<^verbatim>\<open>GenerationChangedPredicate\<close>. The
  manager of controller-runtime turns the watch events of a kind that pass the predicate into requests,
  calls the reconciler for each and keeps a request whose reconciliation failed. The predicate and the
  API server's generations are documented behaviour of libraries: \<open>predicate_contract\<close>, and a
  generation that a change of the spec raises and a change of the status leaves alone.
\<close>

section \<open>Events and requests\<close>

type_synonym object_key = "string \<times> string \<times> string"

record object_meta =
  om_Kind :: string
  om_Namespace :: string
  om_Name :: string
  om_Generation :: int

datatype watch_event =
    CreateEvent object_meta
  | UpdateEvent object_meta object_meta
  | DeleteEvent object_meta

fun event_object :: "watch_event \<Rightarrow> object_meta" where
  "event_object (CreateEvent obj) = obj"
| "event_object (UpdateEvent old new) = new"
| "event_object (DeleteEvent obj) = obj"

type_synonym event_predicate = "watch_event \<Rightarrow> bool"

definition predicate_contract :: "event_predicate \<Rightarrow> bool" where
  "predicate_contract p \<longleftrightarrow> (\<forall>obj. p (CreateEvent obj) \<and> p (DeleteEvent obj)) \<and>
     (\<forall>old new. p (UpdateEvent old new) \<longleftrightarrow> om_Generation new \<noteq> om_Generation old)"

text \<open>What a \<^verbatim>\<open>SetupWithManager\<close> asks for: the kind, the predicate if any, and the controller's name.\<close>

record controller_setup =
  cs_For :: string
  cs_GenerationChanged :: bool
  cs_Named :: string

definition Schedule_SetupWithManager :: controller_setup where
  "Schedule_SetupWithManager = \<lparr>cs_For = ''Schedule'', cs_GenerationChanged = True, cs_Named = ''schedule''\<rparr>"

definition NotificationPolicy_SetupWithManager :: controller_setup where
  "NotificationPolicy_SetupWithManager =
     \<lparr>cs_For = ''NotificationPolicy'', cs_GenerationChanged = True, cs_Named = ''notificationpolicy''\<rparr>"

definition AwsRdsAuroraCluster_SetupWithManager :: controller_setup where
  "AwsRdsAuroraCluster_SetupWithManager =
     \<lparr>cs_For = ''AwsRdsAuroraCluster'', cs_GenerationChanged = True, cs_Named = ''awsrdsauroracluster''\<rparr>"

definition AwsDocumentDBCluster_SetupWithManager :: controller_setup where
  "AwsDocumentDBCluster_SetupWithManager =
     \<lparr>cs_For = ''AwsDocumentDBCluster'', cs_GenerationChanged = True, cs_Named = ''awsdocumentdbcluster''\<rparr>"

definition AwsEc2Instance_SetupWithManager :: controller_setup where
  "AwsEc2Instance_SetupWithManager =
     \<lparr>cs_For = ''AwsEc2Instance'', cs_GenerationChanged = True, cs_Named = ''awsec2instance''\<rparr>"

definition AwsTransferFamily_SetupWithManager :: controller_setup where
  "AwsTransferFamily_SetupWithManager =
     \<lparr>cs_For = ''AwsTransferFamily'', cs_GenerationChanged = True, cs_Named = ''awstransferfamily''\<rparr>"

definition K8sPodReplicas_SetupWithManager :: controller_setup where
  "K8sPodReplicas_SetupWithManager =
     \<lparr>cs_For = ''K8sPodReplicas'', cs_GenerationChanged = True, cs_Named = ''k8spodreplicas''\<rparr>"

definition K8sHpa_SetupWithManager :: controller_setup where
  "K8sHpa_SetupWithManager = \<lparr>cs_For = ''K8sHpa'', cs_GenerationChanged = True, cs_Named = ''k8shpa''\<rparr>"

definition K8sRunJob_SetupWithManager :: controller_setup where
  "K8sRunJob_SetupWithManager = \<lparr>cs_For = ''K8sRunJob'', cs_GenerationChanged = True, cs_Named = ''k8srunjob''\<rparr>"

definition ActionExecution_SetupWithManager :: controller_setup where
  "ActionExecution_SetupWithManager =
     \<lparr>cs_For = ''ActionExecution'', cs_GenerationChanged = False, cs_Named = ''actionexecution''\<rparr>"

definition operator_setups :: "controller_setup list" where
  "operator_setups =
     [Schedule_SetupWithManager, K8sHpa_SetupWithManager, K8sPodReplicas_SetupWithManager, AwsRdsAuroraCluster_SetupWithManager,
      AwsDocumentDBCluster_SetupWithManager, AwsTransferFamily_SetupWithManager, AwsEc2Instance_SetupWithManager,
      K8sRunJob_SetupWithManager, NotificationPolicy_SetupWithManager, ActionExecution_SetupWithManager]"

text \<open>A request: the controller, and namespace and name of the object.\<close>

type_synonym request = "string \<times> string \<times> string"

definition route :: "event_predicate \<Rightarrow> controller_setup list \<Rightarrow> watch_event \<Rightarrow> request list" where
  "route p setups ev =
     (let obj = event_object ev in
      map (\<lambda>s. (cs_Named s, om_Namespace obj, om_Name obj))
        (filter (\<lambda>s. cs_For s = om_Kind obj \<and> (cs_GenerationChanged s \<longrightarrow> p ev)) setups))"

lemmas setup_defs = Schedule_SetupWithManager_def NotificationPolicy_SetupWithManager_def AwsRdsAuroraCluster_SetupWithManager_def
  AwsDocumentDBCluster_SetupWithManager_def AwsEc2Instance_SetupWithManager_def AwsTransferFamily_SetupWithManager_def
  K8sPodReplicas_SetupWithManager_def K8sHpa_SetupWithManager_def K8sRunJob_SetupWithManager_def ActionExecution_SetupWithManager_def

lemma operator_setups_eq:
  "operator_setups = map (\<lambda>(k, g, n). \<lparr>cs_For = k, cs_GenerationChanged = g, cs_Named = n\<rparr>)
     [(''Schedule'', True, ''schedule''), (''K8sHpa'', True, ''k8shpa''), (''K8sPodReplicas'', True, ''k8spodreplicas''),
      (''AwsRdsAuroraCluster'', True, ''awsrdsauroracluster''), (''AwsDocumentDBCluster'', True, ''awsdocumentdbcluster''),
      (''AwsTransferFamily'', True, ''awstransferfamily''), (''AwsEc2Instance'', True, ''awsec2instance''),
      (''K8sRunJob'', True, ''k8srunjob''), (''NotificationPolicy'', True, ''notificationpolicy''),
      (''ActionExecution'', False, ''actionexecution'')]"
  by (simp add: operator_setups_def setup_defs)

text \<open>No two controllers share a name or a kind.\<close>

lemma operator_setups_distinct: "distinct (map cs_Named operator_setups)" "distinct (map cs_For operator_setups)"
  by (simp_all add: operator_setups_eq)

lemma setup_named_eq:
  "s \<in> set operator_setups \<Longrightarrow> t \<in> set operator_setups \<Longrightarrow> cs_Named s = cs_Named t \<Longrightarrow> s = t"
  using operator_setups_distinct(1) by (auto simp: distinct_map inj_on_def)

lemma setup_for_eq:
  "s \<in> set operator_setups \<Longrightarrow> t \<in> set operator_setups \<Longrightarrow> cs_For s = cs_For t \<Longrightarrow> s = t"
  using operator_setups_distinct(2) by (auto simp: distinct_map inj_on_def)

lemma mem_route:
  "(n, ns, x) \<in> set (route p operator_setups ev) \<longleftrightarrow>
     (\<exists>s \<in> set operator_setups. n = cs_Named s \<and> cs_For s = om_Kind (event_object ev) \<and> (cs_GenerationChanged s \<longrightarrow> p ev) \<and>
        ns = om_Namespace (event_object ev) \<and> x = om_Name (event_object ev))"
  by (auto simp: route_def Let_def)

section \<open>The cluster\<close>

text \<open>
  The generation of every object, the requests that wait, the generation of an object at the last
  reconciliation of it that succeeded, and the state the reconcilers share.
\<close>

record 'c cluster =
  cl_gen :: "object_key \<Rightarrow> int option"
  cl_queue :: "request set"
  cl_seen :: "object_key \<Rightarrow> int option"
  cl_rc :: "'c rc_state"

definition meta_of :: "object_key \<Rightarrow> int \<Rightarrow> object_meta" where
  "meta_of k g = \<lparr>om_Kind = fst k, om_Namespace = fst (snd k), om_Name = snd (snd k), om_Generation = g\<rparr>"

definition deliver :: "event_predicate \<Rightarrow> watch_event \<Rightarrow> request set \<Rightarrow> request set" where
  "deliver p ev q = q \<union> set (route p operator_setups ev)"

text \<open>A request is done when its reconciliation succeeded; after an error it stays.\<close>

definition finish_request :: "request \<Rightarrow> object_key \<Rightarrow> go_error option \<Rightarrow> 'c cluster \<Rightarrow> 'c cluster" where
  "finish_request r k err c =
     (if err = None then c\<lparr>cl_queue := cl_queue c - {r}, cl_seen := (cl_seen c)(k := cl_gen c k)\<rparr> else c)"

datatype cluster_event =
    Created object_key
  | SpecChanged object_key
  | StatusChanged object_key
  | Resynced object_key
  | Removed object_key
  | Handled request
  | JobFired cron_key

inductive cluster_step :: "('c, 's) job_lib \<Rightarrow> event_predicate \<Rightarrow> cluster_event \<Rightarrow> 'c cluster \<Rightarrow> 'c cluster \<Rightarrow> bool" for lib p where
  created: "cl_gen c k = None \<Longrightarrow>
    cluster_step lib p (Created k) c (c\<lparr>cl_gen := (cl_gen c)(k \<mapsto> g), cl_queue := deliver p (CreateEvent (meta_of k g)) (cl_queue c)\<rparr>)"
| spec_changed: "cl_gen c k = Some g \<Longrightarrow>
    cluster_step lib p (SpecChanged k) c (c\<lparr>cl_gen := (cl_gen c)(k \<mapsto> g + 1),
      cl_queue := deliver p (UpdateEvent (meta_of k g) (meta_of k (g + 1))) (cl_queue c)\<rparr>)"
| status_changed: "cl_gen c k = Some g \<Longrightarrow>
    cluster_step lib p (StatusChanged k) c (c\<lparr>cl_queue := deliver p (UpdateEvent (meta_of k g) (meta_of k g)) (cl_queue c)\<rparr>)"
| resynced: "cl_gen c k = Some g \<Longrightarrow>
    cluster_step lib p (Resynced k) c (c\<lparr>cl_queue := deliver p (UpdateEvent (meta_of k g) (meta_of k g)) (cl_queue c)\<rparr>)"
| removed: "cl_gen c k = Some g \<Longrightarrow>
    cluster_step lib p (Removed k) c (c\<lparr>cl_gen := (cl_gen c)(k := None), cl_queue := deliver p (DeleteEvent (meta_of k g)) (cl_queue c)\<rparr>)"
| resource: "s \<in> set operator_setups \<Longrightarrow> (cs_Named s, ns, x) \<in> cl_queue c \<Longrightarrow>
    env_serves (e :: (string, string) operator_env) (rc_log (cl_rc c)) x \<Longrightarrow>
    kind_Reconcile lib e (cs_For s) (cl_rc c) x = Some (err, rc') \<Longrightarrow>
    cluster_step lib p (Handled (cs_Named s, ns, x)) c
      (finish_request (cs_Named s, ns, x) (cs_For s, ns, x) err (c\<lparr>cl_rc := rc'\<rparr>))"
| schedule: "(cs_Named Schedule_SetupWithManager, ns, x) \<in> cl_queue c \<Longrightarrow>
    Schedule_Reconcile lib ord api meta (cl_rc c) x = (err, rc') \<Longrightarrow>
    (\<forall>sched. api_GetSchedule api (rc_log (cl_rc c)) x = Inr sched \<longrightarrow> sc_Name sched = x) \<Longrightarrow>
    cluster_step lib p (Handled (cs_Named Schedule_SetupWithManager, ns, x)) c
      (finish_request (cs_Named Schedule_SetupWithManager, ns, x) (''Schedule'', ns, x) err (c\<lparr>cl_rc := rc'\<rparr>))"
| other: "s \<in> {NotificationPolicy_SetupWithManager, ActionExecution_SetupWithManager} \<Longrightarrow> (cs_Named s, ns, x) \<in> cl_queue c \<Longrightarrow>
    cluster_step lib p (Handled (cs_Named s, ns, x)) c
      (finish_request (cs_Named s, ns, x) (cs_For s, ns, x) err (c\<lparr>cl_rc := (cl_rc c)\<lparr>rc_log := log'\<rparr>\<rparr>))"
| fired: "registry lib (rc_svc (cl_rc c)) k = Some (sch, j) \<Longrightarrow>
    cluster_step lib p (JobFired k) c (c\<lparr>cl_rc := (cl_rc c)\<lparr>rc_log := log'\<rparr>\<rparr>)"

definition cluster_start :: "('c, 's) job_lib \<Rightarrow> 'c cluster" where
  "cluster_start lib = \<lparr>cl_gen = (\<lambda>_. None), cl_queue = {}, cl_seen = (\<lambda>_. None), cl_rc = \<lparr>rc_svc = New lib, rc_log = []\<rparr>\<rparr>"

definition cluster_next :: "('c, 's) job_lib \<Rightarrow> event_predicate \<Rightarrow> 'c cluster \<Rightarrow> 'c cluster \<Rightarrow> bool" where
  "cluster_next lib p c d \<longleftrightarrow> (\<exists>ev. cluster_step lib p ev c d)"

lemma cluster_run_step:
  "(cluster_next lib p)\<^sup>*\<^sup>* a b \<Longrightarrow> cluster_step lib p ev b c \<Longrightarrow> (cluster_next lib p)\<^sup>*\<^sup>* a c"
  unfolding cluster_next_def by (rule rtranclp.rtrancl_into_rtrancl) blast+

section \<open>No change is missed\<close>

definition covered :: "'c cluster \<Rightarrow> bool" where
  "covered c \<longleftrightarrow> (\<forall>s \<in> set operator_setups. \<forall>ns x g. cl_gen c (cs_For s, ns, x) = Some g \<longrightarrow>
     (cs_Named s, ns, x) \<in> cl_queue c \<or> cl_seen c (cs_For s, ns, x) = Some g)"

lemma meta_of_simps [simp]: "om_Kind (meta_of k g) = fst k" "om_Namespace (meta_of k g) = fst (snd k)" "om_Name (meta_of k g) = snd (snd k)"
  "om_Generation (meta_of k g) = g"
  by (simp_all add: meta_of_def)

lemma deliver_mono: "q \<subseteq> deliver p ev q"
  by (simp add: deliver_def)

lemma delivered_request:
  assumes "s \<in> set operator_setups" and "cs_For s = om_Kind (event_object ev)" and "p ev"
  shows "(cs_Named s, om_Namespace (event_object ev), om_Name (event_object ev)) \<in> deliver p ev q"
  using assms mem_route [of "cs_Named s" _ _ p ev] by (auto simp: deliver_def)

lemma coveredD:
  "covered c \<Longrightarrow> s \<in> set operator_setups \<Longrightarrow> cl_gen c (cs_For s, ns, x) = Some g \<Longrightarrow>
     (cs_Named s, ns, x) \<in> cl_queue c \<or> cl_seen c (cs_For s, ns, x) = Some g"
  unfolding covered_def by blast

lemma coveredI:
  "(\<And>s ns x g. s \<in> set operator_setups \<Longrightarrow> cl_gen c (cs_For s, ns, x) = Some g \<Longrightarrow>
     (cs_Named s, ns, x) \<in> cl_queue c \<or> cl_seen c (cs_For s, ns, x) = Some g) \<Longrightarrow> covered c"
  unfolding covered_def by blast

text \<open>An event about one object that may change its generation only together with a request.\<close>

lemma covered_grow:
  assumes "covered c" and "\<And>k. k \<noteq> k0 \<Longrightarrow> cl_gen d k = cl_gen c k" and "cl_queue c \<subseteq> cl_queue d" and "cl_seen d = cl_seen c"
    and "\<And>s g. s \<in> set operator_setups \<Longrightarrow> cs_For s = fst k0 \<Longrightarrow> cl_gen d k0 = Some g \<Longrightarrow>
      (cs_Named s, fst (snd k0), snd (snd k0)) \<in> cl_queue d \<or> cl_gen c k0 = Some g"
  shows "covered d"
proof (rule coveredI)
  fix s ns x g
  assume s: "s \<in> set operator_setups" and g: "cl_gen d (cs_For s, ns, x) = Some g"
  have "(cs_Named s, ns, x) \<in> cl_queue d \<or> cl_gen c (cs_For s, ns, x) = Some g"
  proof (cases "(cs_For s, ns, x) = k0")
    case True
    with assms(5) [OF s _ ] g show ?thesis by auto
  qed (use assms(2) g in metis)
  then show "(cs_Named s, ns, x) \<in> cl_queue d \<or> cl_seen d (cs_For s, ns, x) = Some g"
    using coveredD [OF assms(1) s] assms(3,4) by fastforce
qed

lemma covered_finish:
  assumes "covered c" and "s \<in> set operator_setups"
  shows "covered (finish_request (cs_Named s, ns, x) (cs_For s, ns, x) err (c\<lparr>cl_rc := rc'\<rparr>))" (is "covered ?d")
proof (rule coveredI)
  fix t ms y g
  assume t: "t \<in> set operator_setups" and g: "cl_gen ?d (cs_For t, ms, y) = Some g"
  from g have "cl_gen c (cs_For t, ms, y) = Some g" by (simp add: finish_request_def split: if_splits)
  note cov = coveredD [OF assms(1) t this]
  show "(cs_Named t, ms, y) \<in> cl_queue ?d \<or> cl_seen ?d (cs_For t, ms, y) = Some g"
  proof (cases "(cs_For t, ms, y) = (cs_For s, ns, x)")
    case True
    with cov g show ?thesis by (auto simp: finish_request_def)
  next
    case False
    then have "(cs_Named t, ms, y) \<noteq> (cs_Named s, ns, x)"
      using setup_named_eq [OF t assms(2)] by auto
    with False cov show ?thesis by (auto simp: finish_request_def)
  qed
qed

lemma cluster_step_covered:
  assumes "predicate_contract p" and "covered c" and "cluster_step lib p ev c d"
  shows "covered d"
  using assms(3)
proof (cases rule: cluster_step.cases)
  case (created k g)
  have "p (CreateEvent (meta_of k g))" using assms(1) by (simp add: predicate_contract_def)
  with delivered_request [of _ "CreateEvent (meta_of k g)" p "cl_queue c"] show ?thesis
    by (intro covered_grow [OF assms(2), of k]) (auto simp: created deliver_def)
next
  case (spec_changed k g)
  let ?ev = "UpdateEvent (meta_of k g) (meta_of k (g + 1))"
  have "p ?ev" using assms(1) by (simp add: predicate_contract_def)
  with delivered_request [of _ ?ev p "cl_queue c"] show ?thesis
    by (intro covered_grow [OF assms(2), of k]) (auto simp: spec_changed deliver_def)
next
  case (removed k g)
  show ?thesis by (intro covered_grow [OF assms(2), of k]) (auto simp: removed deliver_def)
next
  case (resource s ns x e err rc')
  with covered_finish [OF assms(2)] show ?thesis by simp
next
  case (schedule ns x ord api meta err rc')
  have "Schedule_SetupWithManager \<in> set operator_setups" and "cs_For Schedule_SetupWithManager = ''Schedule''"
    by (simp_all add: operator_setups_def setup_defs)
  with covered_finish [OF assms(2) this(1)] schedule show ?thesis by metis
next
  case (other s ns x err log')
  then have "s \<in> set operator_setups" by (auto simp: operator_setups_def)
  from covered_finish [OF assms(2) this] other show ?thesis by simp
next
  case (status_changed k g)
  show ?thesis by (rule covered_grow [OF assms(2), of k]) (auto simp: status_changed deliver_def)
next
  case (resynced k g)
  show ?thesis by (rule covered_grow [OF assms(2), of k]) (auto simp: resynced deliver_def)
next
  case (fired k sch j log')
  show ?thesis by (rule covered_grow [OF assms(2)]) (auto simp: fired)
qed

interpretation cluster: step_invariant "\<lambda>c. predicate_contract p \<and> c = cluster_start lib" "cluster_next lib p" "\<lambda>c. predicate_contract p \<and> covered c"
  for lib :: "('c, 's) job_lib" and p
proof unfold_locales
  fix c d
  assume inv: "predicate_contract p \<and> covered c" and "cluster_next lib p c d"
  then obtain ev where "cluster_step lib p ev c d" by (auto simp: cluster_next_def)
  with cluster_step_covered inv show "predicate_contract p \<and> covered d" by blast
qed (simp add: cluster_start_def covered_def)

section \<open>What a change of a schedule does not reach\<close>

definition not_about :: "string \<Rightarrow> string \<Rightarrow> cluster_event \<Rightarrow> bool" where
  "not_about kind x ev \<longleftrightarrow> (\<forall>ns. ev \<noteq> Created (kind, ns, x) \<and> ev \<noteq> SpecChanged (kind, ns, x) \<and> ev \<noteq> Removed (kind, ns, x))"

definition no_request :: "controller_setup \<Rightarrow> string \<Rightarrow> 'c cluster \<Rightarrow> bool" where
  "no_request s x c \<longleftrightarrow> (\<forall>ns. (cs_Named s, ns, x) \<notin> cl_queue c)"

lemma deliver_other:
  assumes "predicate_contract p" and "s \<in> set operator_setups" and "cs_GenerationChanged s"
    and "(cs_Named s, ns, x) \<in> deliver p ev q" and "(cs_Named s, ns, x) \<notin> q"
  shows "om_Kind (event_object ev) = cs_For s \<and> om_Name (event_object ev) = x \<and>
    (\<forall>old new. ev = UpdateEvent old new \<longrightarrow> om_Generation old \<noteq> om_Generation new)"
proof -
  from assms(4,5) have "(cs_Named s, ns, x) \<in> set (route p operator_setups ev)" by (simp add: deliver_def)
  then obtain t where t: "t \<in> set operator_setups" "cs_Named s = cs_Named t" "cs_For t = om_Kind (event_object ev)"
    "cs_GenerationChanged t \<longrightarrow> p ev" "x = om_Name (event_object ev)"
    unfolding mem_route by blast
  from setup_named_eq [OF assms(2) t(1,2)] have "t = s" by simp
  with t assms(3) have "p ev" and "om_Kind (event_object ev) = cs_For s" and "om_Name (event_object ev) = x" by simp_all
  with assms(1) show ?thesis by (auto simp: predicate_contract_def)
qed

lemma finish_queue: "cl_queue (finish_request r k err c) \<subseteq> cl_queue c" "cl_rc (finish_request r k err c) = cl_rc c"
  by (auto simp: finish_request_def)

lemma setup_For_no_colon: "s \<in> set operator_setups \<Longrightarrow> CHR '':'' \<notin> set (''v1alpha1.'' @ cs_For s)"
  by (auto simp: operator_setups_eq)

text \<open>An event about another object, or one that leaves the generation, asks nothing of the controller.\<close>

lemma no_request_event:
  assumes "predicate_contract p" and "s \<in> set operator_setups" "cs_GenerationChanged s" and "no_request s x c"
    and "cl_queue d = deliver p ev (cl_queue c)"
    and "om_Kind (event_object ev) \<noteq> cs_For s \<or> om_Name (event_object ev) \<noteq> x \<or>
      (\<exists>old new. ev = UpdateEvent old new \<and> om_Generation old = om_Generation new)"
  shows "no_request s x d"
  unfolding no_request_def
proof
  fix ns
  show "(cs_Named s, ns, x) \<notin> cl_queue d"
  proof
    assume "(cs_Named s, ns, x) \<in> cl_queue d"
    with assms(4,5) have "(cs_Named s, ns, x) \<in> deliver p ev (cl_queue c)" and "(cs_Named s, ns, x) \<notin> cl_queue c"
      by (simp_all add: no_request_def)
    from deliver_other [OF assms(1-3) this] assms(6) show False by blast
  qed
qed

lemma no_request_rc [simp]: "no_request s x (c\<lparr>cl_rc := rc\<rparr>) \<longleftrightarrow> no_request s x c"
  by (simp add: no_request_def)

lemma no_request_finish: "no_request s x c \<Longrightarrow> no_request s x (finish_request r k err (c\<lparr>cl_rc := rc'\<rparr>))"
  using finish_queue(1) [of r k err "c\<lparr>cl_rc := rc'\<rparr>"] by (auto simp: no_request_def)

lemma cluster_step_no_request:
  assumes p: "predicate_contract p" and s: "s \<in> set operator_setups" "cs_GenerationChanged s"
    and q: "no_request s x c" and step: "cluster_step lib p ev c d" and ev: "not_about (cs_For s) x ev"
  shows "no_request s x d"
proof -
  have other: "fst k \<noteq> cs_For s \<or> snd (snd k) \<noteq> x" if "ev = Created k \<or> ev = SpecChanged k \<or> ev = Removed k" for k
    using that ev by (cases k) (auto simp: not_about_def)
  note event = no_request_event [OF p s q]
  from step show ?thesis
  proof (cases rule: cluster_step.cases)
    case (created k g)
    show ?thesis by (rule event [of _ "CreateEvent (meta_of k g)"]) (use created other in auto)
  next
    case (spec_changed k g)
    show ?thesis
      by (rule event [of _ "UpdateEvent (meta_of k g) (meta_of k (g + 1))"]) (use spec_changed other in auto)
  next
    case (status_changed k g)
    show ?thesis by (rule event [of _ "UpdateEvent (meta_of k g) (meta_of k g)"]) (use status_changed in auto)
  next
    case (resynced k g)
    show ?thesis by (rule event [of _ "UpdateEvent (meta_of k g) (meta_of k g)"]) (use resynced in auto)
  next
    case (removed k g)
    show ?thesis by (rule event [of _ "DeleteEvent (meta_of k g)"]) (use removed other in auto)
  qed (simp_all add: no_request_finish [OF q] q)
qed

text \<open>
  What is registered for a resource is changed only by its own reconciliation, and, where something is
  registered, by the one of the schedule.
\<close>

lemma schedule_other_registry:
  assumes "svc_ok lib (rc_svc st)" and "Schedule_Reconcile lib ord api meta st y = (err, st')"
    and "\<And>sched. api_GetSchedule api (rc_log st) y = Inr sched \<Longrightarrow> sc_Name sched = y"
    and "y \<noteq> a \<or> registry lib (rc_svc st) (a, b, z) = None"
  shows "registry lib (rc_svc st') (a, b, z) = registry lib (rc_svc st) (a, b, z)"
proof (cases "y = a")
  case True
  with assms(4) schedule_keeps_jobs(2) [OF assms(1,2), of "(a, b, z)"] show ?thesis by simp
next
  case False
  with Schedule_Reconcile_registry [OF assms(1,2)] assms(3) show ?thesis
    unfolding partly_refreshed_def by metis
qed

definition settled :: "('c, 's) job_lib \<Rightarrow> controller_setup \<Rightarrow> string \<Rightarrow> string \<Rightarrow> string \<Rightarrow> ('s \<times> cron_job) option \<Rightarrow> 'c cluster \<Rightarrow> bool" where
  "settled lib s x sch a v c \<longleftrightarrow> svc_ok lib (rc_svc (cl_rc c)) \<and> no_request s x c \<and>
     (v \<noteq> None \<longrightarrow> no_request Schedule_SetupWithManager sch c) \<and>
     registry lib (rc_svc (cl_rc c)) (sch, a, resourceName (''v1alpha1.'' @ cs_For s) x) = v"

lemma cluster_step_registry:
  assumes s: "s \<in> set operator_setups" and u: "settled lib s x sch a v c" and step: "cluster_step lib p ev c d"
  shows "svc_ok lib (rc_svc (cl_rc d)) \<and> registry lib (rc_svc (cl_rc d)) (sch, a, resourceName (''v1alpha1.'' @ cs_For s) x) = v"
proof -
  let ?z = "resourceName (''v1alpha1.'' @ cs_For s) x"
  have q: "(cs_Named s, ns, x) \<notin> cl_queue c" for ns using u by (simp add: settled_def no_request_def)
  have ok: "svc_ok lib (rc_svc (cl_rc c))" and v: "registry lib (rc_svc (cl_rc c)) (sch, a, ?z) = v"
    using u by (simp_all add: settled_def)
  from step show ?thesis
  proof (cases rule: cluster_step.cases)
    case (resource t ns y e err rc')
    from kind_reconciled [OF ok resource(5,6)] have laws: "reconciled_laws lib (cs_For t) y (cl_rc c) rc'" by simp
    have "?z \<noteq> resourceName (''v1alpha1.'' @ cs_For t) y"
    proof
      assume "?z = resourceName (''v1alpha1.'' @ cs_For t) y"
      with resourceName_eq_iff [OF setup_For_no_colon [OF s] setup_For_no_colon [OF resource(3)]]
      have "cs_For s = cs_For t" and "x = y" by auto
      with setup_for_eq [OF s resource(3)] resource(4) q show False by auto
    qed
    with laws v show ?thesis by (simp add: reconciled_laws_def resource(2) finish_queue)
  next
    case (schedule ns y ord api meta err rc')
    have "y \<noteq> sch \<or> registry lib (rc_svc (cl_rc c)) (sch, a, ?z) = None"
    proof (cases v)
      case (Some w)
      with u have "no_request Schedule_SetupWithManager sch c" by (simp add: settled_def)
      with schedule(3) show ?thesis by (auto simp: no_request_def)
    qed (use v in simp)
    from schedule_other_registry [OF ok schedule(4) _ this] schedule(5) v schedule_keeps_jobs(1) [OF ok schedule(4)]
    show ?thesis by (simp add: schedule(2) finish_queue)
  qed (use ok v in \<open>simp_all add: finish_queue(2)\<close>)
qed

lemma cluster_steps_settled:
  assumes p: "predicate_contract p" and s: "s \<in> set operator_setups" "cs_GenerationChanged s" and "settled lib s x sch a v c"
    and "(\<lambda>c d. \<exists>ev. cluster_step lib p ev c d \<and> not_about (cs_For s) x ev \<and>
      (v \<noteq> None \<longrightarrow> not_about (cs_For Schedule_SetupWithManager) sch ev))\<^sup>*\<^sup>* c d"
  shows "settled lib s x sch a v d"
  using assms(5)
proof (induction rule: rtranclp_induct)
  case base
  show ?case by (rule assms(4))
next
  case (step d e)
  from step(2) obtain ev where ev: "cluster_step lib p ev d e" "not_about (cs_For s) x ev"
    "v \<noteq> None \<longrightarrow> not_about (cs_For Schedule_SetupWithManager) sch ev" by blast
  have sched: "Schedule_SetupWithManager \<in> set operator_setups" "cs_GenerationChanged Schedule_SetupWithManager"
    by (simp_all add: operator_setups_def setup_defs)
  have "no_request s x e" using cluster_step_no_request [OF p s _ ev(1,2)] step.IH by (simp add: settled_def)
  moreover have "v \<noteq> None \<Longrightarrow> no_request Schedule_SetupWithManager sch e"
    using cluster_step_no_request [OF p sched _ ev(1)] ev(3) step.IH by (simp add: settled_def)
  ultimately show ?case using cluster_step_registry [OF s(1) step.IH ev(1)] by (simp add: settled_def)
qed

section \<open>Properties\<close>

text \<open>The documented predicate itself, for the witnesses.\<close>

fun generation_changed :: event_predicate where
  "generation_changed (UpdateEvent old new) \<longleftrightarrow> om_Generation new \<noteq> om_Generation old"
| "generation_changed _ \<longleftrightarrow> True"

lemma generation_changed_contract: "predicate_contract generation_changed"
  by (simp add: predicate_contract_def)



text \<open>
  The reconcilers do not wake themselves: a change of an object's status, and a resync of
  the cache, adds no request and changes nothing else, for nine of the ten kinds; for an action execution,
  whose status carries its phase, it adds exactly the request for the next step.
\<close>

theorem status_change_wakes:
  assumes "predicate_contract p" and "cluster_step lib p (StatusChanged k) c d \<or> cluster_step lib p (Resynced k) c d"
  shows "d = c\<lparr>cl_queue := cl_queue c \<union>
    (if fst k = ''ActionExecution'' then {(''actionexecution'', fst (snd k), snd (snd k))} else {})\<rparr>"
proof -
  obtain g where d: "d = c\<lparr>cl_queue := deliver p (UpdateEvent (meta_of k g) (meta_of k g)) (cl_queue c)\<rparr>"
    using assms(2) by (auto elim: cluster_step.cases)
  have "\<not> p (UpdateEvent (meta_of k g) (meta_of k g))" using assms(1) by (simp add: predicate_contract_def)
  then have "set (route p operator_setups (UpdateEvent (meta_of k g) (meta_of k g))) =
      (if fst k = ''ActionExecution'' then {(''actionexecution'', fst (snd k), snd (snd k))} else {})"
    by (simp add: route_def operator_setups_eq)
  then show ?thesis by (simp add: d deliver_def)
qed

theorem status_change_wakes_witness:
  "\<exists>d. cluster_step list_cron generation_changed (StatusChanged (''ActionExecution'', ''ops'', ''grow''))
       ((cluster_start list_cron)\<lparr>cl_gen := [(''ActionExecution'', ''ops'', ''grow'') \<mapsto> 1]\<rparr>) d \<and>
     cl_queue d = {(''actionexecution'', ''ops'', ''grow'')}"
proof -
  let ?k = "(''ActionExecution'', ''ops'', ''grow'')"
  let ?c = "(cluster_start list_cron)\<lparr>cl_gen := [?k \<mapsto> 1]\<rparr>"
  have "cl_gen ?c ?k = Some 1" by simp
  note step = cluster_step.status_changed [OF this, of list_cron generation_changed]
  from status_change_wakes [OF generation_changed_contract disjI1, OF step] step show ?thesis
    by (auto simp: cluster_start_def)
qed

text \<open>
  Claim C17. A resource is not woken by its schedule: when an action of a resource is not registered
  and no request for the resource waits, as after a reconciliation that found the action missing in
  the schedule, then the action stays unregistered through every run in which the resource itself is
  not created, changed in its spec or deleted, whatever happens to the schedule and to everything else.
\<close>

theorem late_action_never_registered:
  assumes "predicate_contract p" and "s \<in> set operator_setups" and "cs_GenerationChanged s"
    and "svc_ok lib (rc_svc (cl_rc c))" and "no_request s x c"
    and "registry lib (rc_svc (cl_rc c)) (sch, a, resourceName (''v1alpha1.'' @ cs_For s) x) = None"
    and "(\<lambda>c d. \<exists>ev. cluster_step lib p ev c d \<and> not_about (cs_For s) x ev)\<^sup>*\<^sup>* c d"
  shows "registry lib (rc_svc (cl_rc d)) (sch, a, resourceName (''v1alpha1.'' @ cs_For s) x) = None"
proof -
  have "settled lib s x sch a None c" using assms(4-6) by (simp add: settled_def)
  from cluster_steps_settled [OF assms(1-3) this] assms(7) show ?thesis by (simp add: settled_def)
qed

theorem late_action_never_registered_witness:
  "\<exists>d. cluster_step list_cron generation_changed (SpecChanged (''Schedule'', '''', ''office''))
        ((cluster_start list_cron)\<lparr>cl_gen := [(''Schedule'', '''', ''office'') \<mapsto> 1]\<rparr>) d \<and>
     cl_gen d (''Schedule'', '''', ''office'') = Some 2 \<and>
     registry list_cron (rc_svc (cl_rc d)) (''office'', ''stop'', resourceName ''v1alpha1.K8sHpa'' ''web'') = None"
proof -
  let ?k = "(''Schedule'', '''', ''office'')"
  let ?c = "(cluster_start list_cron)\<lparr>cl_gen := [?k \<mapsto> 1]\<rparr>"
  have "cl_gen ?c ?k = Some 1" by simp
  note step = cluster_step.spec_changed [OF this, of list_cron generation_changed]
  let ?d = "?c\<lparr>cl_gen := (cl_gen ?c)(?k \<mapsto> 1 + 1), cl_queue := deliver generation_changed
    (UpdateEvent (meta_of ?k 1) (meta_of ?k (1 + 1))) (cl_queue ?c)\<rparr>"
  have "not_about ''K8sHpa'' ''web'' (SpecChanged ?k)" by (simp add: not_about_def)
  with step have run: "(\<lambda>c d. \<exists>ev. cluster_step list_cron generation_changed ev c d \<and>
      not_about (cs_For K8sHpa_SetupWithManager) ''web'' ev)\<^sup>*\<^sup>* ?c ?d"
    by (intro r_into_rtranclp) (auto simp: setup_defs)
  have s: "K8sHpa_SetupWithManager \<in> set operator_setups" and g: "cs_GenerationChanged K8sHpa_SetupWithManager"
    by (simp_all add: operator_setups_def) (simp add: setup_defs)
  have ok: "svc_ok list_cron (rc_svc (cl_rc ?c))" and q: "no_request K8sHpa_SetupWithManager ''web'' ?c"
    using svc_ok_New [OF list_cron_contract] by (simp_all add: cluster_start_def no_request_def)
  have none: "registry list_cron (rc_svc (cl_rc ?c)) (''office'', ''stop'', resourceName (''v1alpha1.'' @ cs_For K8sHpa_SetupWithManager) ''web'') = None"
    using list_cron_contract by (simp add: cluster_start_def)
  from late_action_never_registered [OF generation_changed_contract s g ok q none run]
  have "registry list_cron (rc_svc (cl_rc ?d)) (''office'', ''stop'', resourceName ''v1alpha1.K8sHpa'' ''web'') = None"
    by (simp add: setup_defs)
  with step show ?thesis by (intro exI [of _ ?d]) simp
qed

text \<open>
  Claim C16. What is registered for a resource changes only when the resource or its schedule changes:
  as long as no request for either waits and neither is created, changed in its spec or deleted, the
  entry keeps its expression and its job through every run, whatever resyncs, statuses, firings and
  other objects do. So an entry made from a schedule read before its last change stays as it is.
\<close>

theorem stale_entry_stays:
  assumes "predicate_contract p" and "s \<in> set operator_setups" and "cs_GenerationChanged s"
    and "svc_ok lib (rc_svc (cl_rc c))" and "no_request s x c" and "no_request Schedule_SetupWithManager sch c"
    and "(\<lambda>c d. \<exists>ev. cluster_step lib p ev c d \<and> not_about (cs_For s) x ev \<and> not_about ''Schedule'' sch ev)\<^sup>*\<^sup>* c d"
  shows "registry lib (rc_svc (cl_rc d)) (sch, a, resourceName (''v1alpha1.'' @ cs_For s) x) =
    registry lib (rc_svc (cl_rc c)) (sch, a, resourceName (''v1alpha1.'' @ cs_For s) x)"
proof -
  let ?v = "registry lib (rc_svc (cl_rc c)) (sch, a, resourceName (''v1alpha1.'' @ cs_For s) x)"
  have "settled lib s x sch a ?v c" using assms(4-6) by (simp add: settled_def)
  moreover have "(\<lambda>c d. \<exists>ev. cluster_step lib p ev c d \<and> not_about (cs_For s) x ev \<and>
      (?v \<noteq> None \<longrightarrow> not_about (cs_For Schedule_SetupWithManager) sch ev))\<^sup>*\<^sup>* c d"
    by (rule rtranclp_mono [THEN predicate2D, OF _ assms(7)]) (auto simp: setup_defs)
  ultimately have "settled lib s x sch a ?v d" by (rule cluster_steps_settled [OF assms(1-3)])
  then show ?thesis unfolding settled_def by blast
qed

text \<open>
  The race: a resource reads its schedule, the schedule changes from 20 to 21 hours and is reconciled
  while the resource has no entry yet, then the entry is made from what was read.
\<close>

definition changed_api :: api_server where
  "changed_api = demo_api\<lparr>api_GetSchedule := (\<lambda>_ _. Inr (demo_schedule\<lparr>sc_Spec := (sc_Spec demo_schedule)
     \<lparr>ss_Actions := [(''stop'', \<lparr>sa_Enabled = None, sa_Cron = ''0 21 * * *''\<rparr>)]\<rparr>\<rparr>))\<rparr>"

abbreviation office_key :: object_key where
  "office_key \<equiv> (''Schedule'', '''', ''office'')"

abbreviation web_key :: object_key where
  "web_key \<equiv> (''K8sPodReplicas'', '''', ''web'')"

lemma reconcile_schedule_no_error: "reconcile_schedule lib ord api meta sched acc \<noteq> (Some err, acc')"
  by (auto simp: reconcile_schedule_def Let_def split: prod.splits bool.splits)

lemma changed_schedule_reconciled:
  "fst (Schedule_Reconcile list_cron insertion_order changed_api keyed_meta demo_state ''office'') = None"
proof -
  obtain err svc cs log where r: "reconcile_schedule list_cron insertion_order changed_api keyed_meta
      (demo_schedule\<lparr>sc_Spec := (sc_Spec demo_schedule)\<lparr>ss_Actions := [(''stop'', \<lparr>sa_Enabled = None, sa_Cron = ''0 21 * * *''\<rparr>)]\<rparr>\<rparr>)
      (rc_svc demo_state, [], []) = (err, svc, cs, log)"
    by (rule prod_cases4)
  with reconcile_schedule_no_error have "err = None" by (metis option.exhaust)
  with r show ?thesis
    by (simp add: Schedule_Reconcile_def changed_api_def demo_api_def demo_schedule_def)
qed

lemma stale_entry_run:
  obtains c where "(cluster_next list_cron generation_changed)\<^sup>*\<^sup>* (cluster_start list_cron) c"
    and "cl_gen c office_key = Some 2" and "cl_seen c office_key = Some 2" and "cl_seen c web_key = cl_gen c web_key" and "cl_queue c = {}"
    and "svc_ok list_cron (rc_svc (cl_rc c))"
    and "registry list_cron (rc_svc (cl_rc c)) (''office'', ''stop'', ''v1alpha1.K8sPodReplicas:web'') = Some (''0 20 * * *'', demo_web)"
proof -
  let ?p = generation_changed and ?rs = "(''schedule'', '''', ''office'')" and ?rw = "(''k8spodreplicas'', '''', ''web'')"
  let ?c0 = "cluster_start list_cron"
  let ?c1 = "?c0\<lparr>cl_gen := [office_key \<mapsto> 1], cl_queue := {?rs}\<rparr>"
  let ?c2 = "?c0\<lparr>cl_gen := [office_key \<mapsto> 1, web_key \<mapsto> 1], cl_queue := {?rs, ?rw}\<rparr>"
  let ?c3 = "?c0\<lparr>cl_gen := [office_key \<mapsto> 2, web_key \<mapsto> 1], cl_queue := {?rs, ?rw}\<rparr>"
  have asked: "deliver ?p (CreateEvent (meta_of office_key 1)) {} = {?rs}"
    "deliver ?p (CreateEvent (meta_of web_key 1)) {?rs} = {?rs, ?rw}"
    "deliver ?p (UpdateEvent (meta_of office_key 1) (meta_of office_key 2)) {?rs, ?rw} = {?rs, ?rw}"
    by (auto simp: deliver_def route_def operator_setups_eq)
  have s1: "cluster_step list_cron ?p (Created office_key) ?c0 ?c1"
    using cluster_step.created [of ?c0 office_key list_cron ?p 1] by (simp add: cluster_start_def asked)
  have s2: "cluster_step list_cron ?p (Created web_key) ?c1 ?c2"
    using cluster_step.created [of ?c1 web_key list_cron ?p 1] by (simp add: asked)
  have s3: "cluster_step list_cron ?p (SpecChanged office_key) ?c2 ?c3"
    using cluster_step.spec_changed [of ?c2 office_key 1 list_cron ?p] by (simp add: asked fun_upd_twist)
  have run3: "(cluster_next list_cron ?p)\<^sup>*\<^sup>* ?c0 ?c3"
    by (rule cluster_run_step [OF _ s3], rule cluster_run_step [OF _ s2], rule cluster_run_step [OF _ s1]) (rule rtranclp.rtrancl_refl)
  have rc3: "cl_rc ?c3 = demo_state" by (simp add: cluster_start_def)
  obtain rc4 where sched: "Schedule_Reconcile list_cron insertion_order changed_api keyed_meta (cl_rc ?c3) ''office'' = (None, rc4)"
    using changed_schedule_reconciled unfolding rc3 by (metis prod.collapse)
  let ?c4 = "?c3\<lparr>cl_queue := {?rw}, cl_seen := [office_key \<mapsto> 2], cl_rc := rc4\<rparr>"
  have "cluster_step list_cron ?p (Handled (cs_Named Schedule_SetupWithManager, '''', ''office'')) ?c3
      (finish_request (cs_Named Schedule_SetupWithManager, '''', ''office'') office_key None (?c3\<lparr>cl_rc := rc4\<rparr>))"
    by (rule cluster_step.schedule [OF _ sched]) (simp_all add: setup_defs changed_api_def demo_schedule_def)
  then have step4: "cluster_step list_cron ?p (Handled ?rs) ?c3 ?c4"
    by (simp add: setup_defs finish_request_def) (simp add: cluster_start_def insert_Diff_if)
  have ok3: "svc_ok list_cron (rc_svc (cl_rc ?c3))" using svc_ok_New [OF list_cron_contract] by (simp add: rc3)
  have ok4: "svc_ok list_cron (rc_svc rc4)" and none4: "registry list_cron (rc_svc rc4) k = None" for k
    using schedule_keeps_jobs [OF ok3 sched] list_cron_contract by (simp_all add: rc3)
  from web_registered [OF ok4 none4] obtain rc5 where
    web: "kind_Reconcile list_cron demo_operator ''K8sPodReplicas'' rc4 ''web'' = Some (None, rc5)"
    and entry: "registry list_cron (rc_svc rc5) (''office'', ''stop'', ''v1alpha1.K8sPodReplicas:web'') = Some (''0 20 * * *'', demo_web)"
    and ok5: "svc_ok list_cron (rc_svc rc5)" and serves: "env_serves demo_operator (rc_log rc4) ''web''" .
  let ?s = K8sPodReplicas_SetupWithManager
  let ?c5 = "?c4\<lparr>cl_queue := {}, cl_seen := [office_key \<mapsto> 2, web_key \<mapsto> 1], cl_rc := rc5\<rparr>"
  have "cluster_step list_cron ?p (Handled (cs_Named ?s, '''', ''web'')) ?c4
      (finish_request (cs_Named ?s, '''', ''web'') (cs_For ?s, '''', ''web'') None (?c4\<lparr>cl_rc := rc5\<rparr>))"
    by (rule cluster_step.resource [of ?s _ _ _ demo_operator])
      (use web serves in \<open>simp_all add: operator_setups_def, simp_all add: setup_defs\<close>)
  then have step5: "cluster_step list_cron ?p (Handled ?rw) ?c4 ?c5"
    by (simp add: setup_defs finish_request_def) (simp add: cluster_start_def)
  have "(cluster_next list_cron ?p)\<^sup>*\<^sup>* ?c0 ?c5"
    by (rule cluster_run_step [OF _ step5], rule cluster_run_step [OF run3 step4])
  then show thesis
    by (rule that) (use entry ok5 in simp_all)
qed

theorem stale_entry_stays_witness:
  "\<exists>c d. (cluster_next list_cron generation_changed)\<^sup>*\<^sup>* (cluster_start list_cron) c \<and>
     cl_gen c office_key = Some 2 \<and> cl_seen c office_key = Some 2 \<and> cl_queue c = {} \<and>
     cluster_step list_cron generation_changed (Resynced office_key) c d \<and>
     registry list_cron (rc_svc (cl_rc d)) (''office'', ''stop'', ''v1alpha1.K8sPodReplicas:web'') = Some (''0 20 * * *'', demo_web)"
proof -
  obtain c where c: "(cluster_next list_cron generation_changed)\<^sup>*\<^sup>* (cluster_start list_cron) c"
    "cl_gen c office_key = Some 2" "cl_seen c office_key = Some 2" "cl_queue c = {}" "svc_ok list_cron (rc_svc (cl_rc c))"
    "registry list_cron (rc_svc (cl_rc c)) (''office'', ''stop'', ''v1alpha1.K8sPodReplicas:web'') = Some (''0 20 * * *'', demo_web)"
    by (rule stale_entry_run)
  note step = cluster_step.resynced [OF c(2), of list_cron generation_changed]
  let ?s = K8sPodReplicas_SetupWithManager
  have quiet: "no_request t x c" for t x using c(4) by (simp add: no_request_def)
  from step have run: "(\<lambda>c d. \<exists>ev. cluster_step list_cron generation_changed ev c d \<and> not_about (cs_For ?s) ''web'' ev \<and>
      not_about ''Schedule'' ''office'' ev)\<^sup>*\<^sup>* c (c\<lparr>cl_queue := deliver generation_changed
        (UpdateEvent (meta_of office_key 2) (meta_of office_key 2)) (cl_queue c)\<rparr>)"
    by (intro r_into_rtranclp exI [of _ "Resynced office_key"]) (simp add: not_about_def)
  have s: "?s \<in> set operator_setups" "cs_GenerationChanged ?s" by (simp_all add: operator_setups_def) (simp add: setup_defs)
  let ?d = "c\<lparr>cl_queue := deliver generation_changed (UpdateEvent (meta_of office_key 2) (meta_of office_key 2)) (cl_queue c)\<rparr>"
  from stale_entry_stays [OF generation_changed_contract s c(5) quiet quiet run, of "''stop''"] c(6)
  have "registry list_cron (rc_svc (cl_rc ?d)) (''office'', ''stop'', ''v1alpha1.K8sPodReplicas:web'') = Some (''0 20 * * *'', demo_web)"
    by (simp add: resourceName_def setup_defs)
  with c(1-4) step show ?thesis by (intro exI conjI) assumption+
qed

end
