(* ===== verification/Go_Memory.thy ===== *)
theory Go_Memory
  imports TT_Prelude
begin

text \<open>
  Go values in memory, for the generated deep copies of the API types. A struct is a value by
  itself; a pointer, a slice and a map refer to a cell of the heap, so two values may share memory.
  The heap is the list of its cells, an address is a position and allocation appends, so old addresses
  stay valid. A type describes how a value is read: \<open>view\<close> gives the tree a value of a type stands
  for and the addresses it occupies. \<open>copies\<close> is what a deep copy promises. Intermediate states
  of a copy are not modelled: a function gets the value it copies and returns the value it writes.
\<close>

section \<open>Types, values and the heap\<close>

datatype gtype =
    TString
  | TBool
  | TInt
  | TStruct "(string \<times> gtype) list"
  | TPtr gtype
  | TSlice gtype
  | TMap gtype

text \<open>A slice has an address, an offset and a length; \<open>GNil\<close> is the nil of all three kinds.\<close>

datatype gval =
    GString string
  | GBool bool
  | GInt int
  | GStruct "string \<Rightarrow> gval"
  | GNil
  | GRef nat
  | GSlice nat nat nat
  | GMap nat

datatype cell =
    CVal gval
  | CArr "gval list"
  | CMap "(string \<times> gval) list"

type_synonym heap = "cell list"

definition cell_at :: "heap \<Rightarrow> nat \<Rightarrow> cell option" where
  "cell_at h a = (if a < length h then Some (h ! a) else None)"

text \<open>What a value stands for, with a nil slice distinguished from an empty one.\<close>

datatype gtree =
    NString string
  | NBool bool
  | NInt int
  | NStruct "(string \<times> gtree) list"
  | NNil
  | NPtr gtree
  | NSlice "gtree list"
  | NMap "(string \<times> gtree) list"

fun views :: "(gtree \<times> nat list) option list \<Rightarrow> (gtree list \<times> nat list) option" where
  "views [] = Some ([], [])"
| "views (r # rs) = (case (r, views rs) of (Some (t, as), Some (ts, bs)) \<Rightarrow> Some (t # ts, as @ bs) | _ \<Rightarrow> None)"

fun view :: "heap \<Rightarrow> gtype \<Rightarrow> gval \<Rightarrow> (gtree \<times> nat list) option"
  and view_fields :: "heap \<Rightarrow> (string \<times> gtype) list \<Rightarrow> (string \<Rightarrow> gval) \<Rightarrow> ((string \<times> gtree) list \<times> nat list) option" where
  "view h TString v = (case v of GString s \<Rightarrow> Some (NString s, []) | _ \<Rightarrow> None)"
| "view h TBool v = (case v of GBool b \<Rightarrow> Some (NBool b, []) | _ \<Rightarrow> None)"
| "view h TInt v = (case v of GInt i \<Rightarrow> Some (NInt i, []) | _ \<Rightarrow> None)"
| "view h (TStruct fs) v = (case v of
      GStruct s \<Rightarrow> map_option (\<lambda>(ts, as). (NStruct ts, as)) (view_fields h fs s) | _ \<Rightarrow> None)"
| "view h (TPtr ty) v = (case v of
      GNil \<Rightarrow> Some (NNil, [])
    | GRef a \<Rightarrow> (case cell_at h a of
        Some (CVal w) \<Rightarrow> map_option (\<lambda>(t, as). (NPtr t, a # as)) (view h ty w) | _ \<Rightarrow> None)
    | _ \<Rightarrow> None)"
| "view h (TSlice ty) v = (case v of
      GNil \<Rightarrow> Some (NNil, [])
    | GSlice a off n \<Rightarrow> (case cell_at h a of
        Some (CArr ws) \<Rightarrow>
          if off + n \<le> length ws
          then map_option (\<lambda>(ts, as). (NSlice ts, a # as)) (views (map (view h ty) (take n (drop off ws))))
          else None
      | _ \<Rightarrow> None)
    | _ \<Rightarrow> None)"
| "view h (TMap ty) v = (case v of
      GNil \<Rightarrow> Some (NNil, [])
    | GMap a \<Rightarrow> (case cell_at h a of
        Some (CMap m) \<Rightarrow>
          map_option (\<lambda>(ts, as). (NMap (zip (map fst m) ts), a # as)) (views (map (\<lambda>kv. view h ty (snd kv)) m))
      | _ \<Rightarrow> None)
    | _ \<Rightarrow> None)"
| "view_fields h [] s = Some ([], [])"
| "view_fields h ((f, ty) # fs) s = (case (view h ty (s f), view_fields h fs s) of
      (Some (t, as), Some (ts, bs)) \<Rightarrow> Some ((f, t) # ts, as @ bs) | _ \<Rightarrow> None)"

text \<open>Values without references.\<close>

fun flat :: "gtype \<Rightarrow> bool" where
  "flat TString = True"
| "flat TBool = True"
| "flat TInt = True"
| "flat (TStruct fs) = list_all (\<lambda>ft. flat (snd ft)) fs"
| "flat _ = False"

section \<open>The statements of the generated functions\<close>

text \<open>The result of a statement is the value it writes and the heap after it.\<close>

type_synonym copier = "heap \<Rightarrow> gval \<Rightarrow> gval \<times> heap"

text \<open>An assignment: \<^verbatim>\<open>*out = *in\<close>, \<^verbatim>\<open>**out = **in\<close> and the built-in \<^verbatim>\<open>copy\<close> per element.\<close>

definition assign :: copier where
  "assign h v = (v, h)"

text \<open>\<^verbatim>\<open>if in.F != nil { *out = new(T); ... }\<close>\<close>

definition new_ptr :: "copier \<Rightarrow> copier" where
  "new_ptr c h v = (case v of
      GRef a \<Rightarrow> (case cell_at h a of
        Some (CVal w) \<Rightarrow> (let out = length h; (w', h1) = c (h @ [CVal GNil]) w in (GRef out, h1[out := CVal w']))
      | _ \<Rightarrow> (v, h))
    | _ \<Rightarrow> (v, h))"

fun copy_elems :: "copier \<Rightarrow> heap \<Rightarrow> gval list \<Rightarrow> gval list \<times> heap" where
  "copy_elems c h [] = ([], h)"
| "copy_elems c h (w # ws) = (let (w', h1) = c h w; (ws', h2) = copy_elems c h1 ws in (w' # ws', h2))"

text \<open>\<^verbatim>\<open>if in.F != nil { *out = make([]T, len(*in)); for i := range *in { ... } }\<close>\<close>

definition new_slice :: "copier \<Rightarrow> copier" where
  "new_slice c h v = (case v of
      GSlice a off n \<Rightarrow> (case cell_at h a of
        Some (CArr ws) \<Rightarrow>
          (let out = length h; (ws', h1) = copy_elems c (h @ [CArr (replicate n GNil)]) (take n (drop off ws))
           in (GSlice out 0 n, h1[out := CArr ws']))
      | _ \<Rightarrow> (v, h))
    | _ \<Rightarrow> (v, h))"

text \<open>
  \<^verbatim>\<open>if in.F != nil { *out = make(map[string]T, len(*in)); for key, val := range *in { ... } }\<close>.
  The order of the iteration shows only in which new address an entry gets, so the stored order is taken.
\<close>

definition new_map :: "copier \<Rightarrow> copier" where
  "new_map c h v = (case v of
      GMap a \<Rightarrow> (case cell_at h a of
        Some (CMap m) \<Rightarrow>
          (let out = length h; (ws', h1) = copy_elems c (h @ [CMap []]) (map snd m)
           in (GMap out, h1[out := CMap (zip (map fst m) ws')]))
      | _ \<Rightarrow> (v, h))
    | _ \<Rightarrow> (v, h))"

text \<open>A \<^verbatim>\<open>DeepCopyInto\<close>: \<^verbatim>\<open>*out = *in\<close>, then one statement per listed field.\<close>

fun copy_fields :: "(string \<times> copier) list \<Rightarrow> heap \<Rightarrow> (string \<Rightarrow> gval) \<Rightarrow> (string \<Rightarrow> gval) \<Rightarrow> (string \<Rightarrow> gval) \<times> heap" where
  "copy_fields [] h s out = (out, h)"
| "copy_fields ((f, c) # cs) h s out = (case c h (s f) of (v, h1) \<Rightarrow> copy_fields cs h1 s (out(f := v)))"

definition copy_struct :: "(string \<times> copier) list \<Rightarrow> copier" where
  "copy_struct cs h v = (case v of
      GStruct s \<Rightarrow> (case copy_fields cs h s s of (out, h1) \<Rightarrow> (GStruct out, h1)) | _ \<Rightarrow> (v, h))"

text \<open>
  \<^verbatim>\<open>if in == nil { return nil }; out := new(T); in.DeepCopyInto(out); return out\<close>, its use
  \<^verbatim>\<open>*val.DeepCopy()\<close> on a loop variable, and \<^verbatim>\<open>DeepCopyObject\<close>, which answers a nil
  pointer with a nil interface.
\<close>

definition DeepCopy_by :: "copier \<Rightarrow> copier" where
  "DeepCopy_by into h p = (case p of GNil \<Rightarrow> (GNil, h) | _ \<Rightarrow> new_ptr into h p)"

definition val_DeepCopy :: "copier \<Rightarrow> copier" where
  "val_DeepCopy deepCopy h v =
     (let (p, h1) = deepCopy (h @ [CVal v]) (GRef (length h)) in
      ((case p of GRef a \<Rightarrow> (case cell_at h1 a of Some (CVal w) \<Rightarrow> w | _ \<Rightarrow> GNil) | _ \<Rightarrow> GNil), h1))"

definition DeepCopyObject_by :: "copier \<Rightarrow> heap \<Rightarrow> gval \<Rightarrow> gval option \<times> heap" where
  "DeepCopyObject_by deepCopy h p = (case deepCopy h p of (q, h1) \<Rightarrow> (case q of GNil \<Rightarrow> None | _ \<Rightarrow> Some q, h1))"

section \<open>What a deep copy promises\<close>

text \<open>
  The copy of a value of the type stands for the same tree, the heap only grows, and every address
  of the copy is new.
\<close>

definition fresh_copy :: "heap \<Rightarrow> heap \<Rightarrow> gtype \<Rightarrow> gtree \<Rightarrow> gval \<Rightarrow> bool" where
  "fresh_copy h h1 ty t v \<longleftrightarrow> (\<exists>bs. view h1 ty v = Some (t, bs) \<and> (\<forall>b \<in> set bs. length h \<le> b))"

definition copies :: "copier \<Rightarrow> gtype \<Rightarrow> bool" where
  "copies c ty \<longleftrightarrow> (\<forall>h v t as. view h ty v = Some (t, as) \<longrightarrow>
     (\<exists>v' new. c h v = (v', h @ new) \<and> fresh_copy h (h @ new) ty t v'))"

lemma copiesE:
  assumes "copies c ty" and "view h ty v = Some (t, as)"
  obtains v' new where "c h v = (v', h @ new)" and "fresh_copy h (h @ new) ty t v'"
  using assms unfolding copies_def by blast

section \<open>Reading a value depends only on its own cells\<close>

lemma views_Some_iff:
  "views rs = Some (ts, as) \<longleftrightarrow> (\<exists>ps. rs = map Some ps \<and> ts = map fst ps \<and> as = concat (map snd ps))"
proof (induction rs arbitrary: ts as)
  case (Cons r rs)
  show ?case
  proof
    assume "views (r # rs) = Some (ts, as)"
    then obtain t bs ts' cs where "r = Some (t, bs)" "views rs = Some (ts', cs)" "ts = t # ts'" "as = bs @ cs"
      by (auto split: option.splits)
    with Cons.IH show "\<exists>ps. r # rs = map Some ps \<and> ts = map fst ps \<and> as = concat (map snd ps)"
      by (metis (no_types) concat.simps(2) fst_conv list.simps(9) snd_conv)
  next
    assume "\<exists>ps. r # rs = map Some ps \<and> ts = map fst ps \<and> as = concat (map snd ps)"
    then obtain p ps where "r = Some p" "rs = map Some ps" "ts = fst p # map fst ps" "as = snd p @ concat (map snd ps)"
      by (auto simp: Cons_eq_map_conv)
    with Cons.IH [of "map fst ps" "concat (map snd ps)"] show "views (r # rs) = Some (ts, as)"
      by (cases p) auto
  qed
qed auto

lemma views_agree:
  assumes "views (map f xs) = Some (ts, as)"
    and "\<And>x t bs. x \<in> set xs \<Longrightarrow> f x = Some (t, bs) \<Longrightarrow> set bs \<subseteq> set as \<Longrightarrow> g x = Some (t, bs)"
  shows "views (map g xs) = Some (ts, as)"
proof -
  from assms(1) obtain ps where ps: "map f xs = map Some ps" "ts = map fst ps" "as = concat (map snd ps)"
    unfolding views_Some_iff by blast
  have "g x = f x" if "x \<in> set xs" for x
  proof -
    from that ps(1) have "f x \<in> Some ` set ps" by (metis image_eqI list.set_map)
    then obtain t bs where "f x = Some (t, bs)" and "(t, bs) \<in> set ps" by force
    moreover from this(2) have "set bs \<subseteq> set as" by (force simp: ps(3))
    ultimately show ?thesis using assms(2) [OF that] by simp
  qed
  then have "map g xs = map f xs" by simp
  then show ?thesis using assms(1) by (simp only:)
qed

lemma view_agree:
  "view h ty v = Some (t, as) \<Longrightarrow> (\<And>a. a \<in> set as \<Longrightarrow> cell_at h' a = cell_at h a) \<Longrightarrow> view h' ty v = Some (t, as)"
  "view_fields h fs s = Some (ts, as) \<Longrightarrow> (\<And>a. a \<in> set as \<Longrightarrow> cell_at h' a = cell_at h a) \<Longrightarrow> view_fields h' fs s = Some (ts, as)"
proof (induction h ty v and h fs s arbitrary: t as and ts as rule: view_view_fields.induct)
  case (5 h ty v)
  show ?case
  proof (cases v)
    case (GRef a)
    with 5(2) obtain w t1 as1 where c: "cell_at h a = Some (CVal w)" and v: "view h ty w = Some (t1, as1)"
      and t: "t = NPtr t1" "as = a # as1" by (auto split: option.splits cell.splits)
    moreover from 5(1) [OF GRef c refl v] 5(3) t have "view h' ty w = Some (t1, as1)" by simp
    moreover from 5(3) [of a] t c have "cell_at h' a = Some (CVal w)" by simp
    ultimately show ?thesis by (simp add: GRef)
  qed (use 5(2) in auto)
next
  case (6 h ty v)
  show ?case
  proof (cases v)
    case (GSlice a off n)
    with 6(2) obtain ws ts1 as1 where c: "cell_at h a = Some (CArr ws)" and le: "off + n \<le> length ws"
      and v: "views (map (view h ty) (take n (drop off ws))) = Some (ts1, as1)" and t: "t = NSlice ts1" "as = a # as1"
      by (auto split: option.splits cell.splits if_splits)
    have "views (map (view h' ty) (take n (drop off ws))) = Some (ts1, as1)"
    proof (rule views_agree [OF v])
      fix w t2 bs
      assume "w \<in> set (take n (drop off ws))" and "view h ty w = Some (t2, bs)" and "set bs \<subseteq> set as1"
      with 6(3) t show "view h' ty w = Some (t2, bs)"
        by (intro 6(1) [OF GSlice c refl le]) auto
    qed
    moreover from 6(3) [of a] t c have "cell_at h' a = Some (CArr ws)" by simp
    ultimately show ?thesis by (simp add: GSlice le t)
  qed (use 6(2) in auto)
next
  case (7 h ty v)
  show ?case
  proof (cases v)
    case (GMap a)
    with 7(2) obtain m ts1 as1 where c: "cell_at h a = Some (CMap m)"
      and v: "views (map (\<lambda>kv. view h ty (snd kv)) m) = Some (ts1, as1)" and t: "t = NMap (zip (map fst m) ts1)" "as = a # as1"
      by (auto split: option.splits cell.splits)
    have "views (map (\<lambda>kv. view h' ty (snd kv)) m) = Some (ts1, as1)"
    proof (rule views_agree [OF v])
      fix kv t2 bs
      assume "kv \<in> set m" and "view h ty (snd kv) = Some (t2, bs)" and "set bs \<subseteq> set as1"
      with 7(3) t show "view h' ty (snd kv) = Some (t2, bs)"
        by (intro 7(1) [OF GMap c refl]) auto
    qed
    moreover from 7(3) [of a] t c have "cell_at h' a = Some (CMap m)" by simp
    ultimately show ?thesis by (simp add: GMap t)
  qed (use 7(2) in auto)
next
  case (9 h f ty fs s)
  from 9(3) obtain t1 as1 ts2 as2 where v: "view h ty (s f) = Some (t1, as1)" "view_fields h fs s = Some (ts2, as2)"
    and t: "ts = (f, t1) # ts2" "as = as1 @ as2" by (auto split: option.splits)
  from 9(1) [OF v(1)] 9(2) [OF v(2)] 9(4) t show ?case by simp
qed (auto split: gval.splits)

lemma views_in:
  assumes "views (map f xs) = Some (ts, as)" and "a \<in> set as"
  obtains x t bs where "x \<in> set xs" and "f x = Some (t, bs)" and "a \<in> set bs"
proof -
  from assms(1) obtain ps where ps: "map f xs = map Some ps" "as = concat (map snd ps)"
    unfolding views_Some_iff by blast
  from assms(2) ps(2) obtain p where "p \<in> set ps" and "a \<in> set (snd p)" by auto
  moreover from this(1) ps(1) have "Some p \<in> f ` set xs" by (metis image_eqI list.set_map)
  ultimately show thesis
    using that by (metis imageE prod.collapse)
qed

text \<open>The addresses of a value are allocated.\<close>

lemma view_allocated:
  "view h ty v = Some (t, as) \<Longrightarrow> a \<in> set as \<Longrightarrow> a < length h"
  "view_fields h fs s = Some (ts, as) \<Longrightarrow> a \<in> set as \<Longrightarrow> a < length h"
proof (induction h ty v and h fs s arbitrary: t as and ts as rule: view_view_fields.induct)
  case (6 h ty v)
  from 6(2,3) obtain b off n ws ts1 as1 where v: "v = GSlice b off n" and c: "cell_at h b = Some (CArr ws)"
    and le: "off + n \<le> length ws" and vs: "views (map (view h ty) (take n (drop off ws))) = Some (ts1, as1)" and as: "as = b # as1"
    by (auto split: gval.splits option.splits cell.splits if_splits)
  show ?case
  proof (cases "a = b")
    case True
    with c show ?thesis by (simp add: cell_at_def split: if_splits)
  next
    case False
    with as 6(3) have "a \<in> set as1" by simp
    from views_in [OF vs this] show ?thesis using 6(1) [OF v c refl le] by blast
  qed
next
  case (7 h ty v)
  from 7(2,3) obtain b m ts1 as1 where v: "v = GMap b" and c: "cell_at h b = Some (CMap m)"
    and vs: "views (map (\<lambda>kv. view h ty (snd kv)) m) = Some (ts1, as1)" and as: "as = b # as1"
    by (auto split: gval.splits option.splits cell.splits)
  show ?case
  proof (cases "a = b")
    case True
    with c show ?thesis by (simp add: cell_at_def split: if_splits)
  next
    case False
    with as 7(3) have "a \<in> set as1" by simp
    from views_in [OF vs this] show ?thesis using 7(1) [OF v c refl] by blast
  qed
next
  case (9 h f ty fs s)
  then show ?case by (auto split: option.splits)
qed (auto simp: cell_at_def split: gval.splits option.splits cell.splits if_splits)

lemma view_append:
  assumes "view h ty v = Some (t, as)"
  shows "view (h @ new) ty v = Some (t, as)"
  by (rule view_agree(1) [OF assms]) (use view_allocated(1) [OF assms] in \<open>force simp: cell_at_def nth_append\<close>)

lemma view_update:
  assumes "view h ty v = Some (t, as)" and "a \<notin> set as"
  shows "view (h[a := c]) ty v = Some (t, as)"
  by (rule view_agree(1) [OF assms(1)]) (use assms(2) in \<open>auto simp: cell_at_def intro!: nth_list_update_neq\<close>)

lemma fresh_copy_append: "fresh_copy h h1 ty t v \<Longrightarrow> fresh_copy h (h1 @ new) ty t v"
  unfolding fresh_copy_def using view_append by blast

lemma fresh_copy_earlier: "fresh_copy (h @ new) h1 ty t v \<Longrightarrow> fresh_copy h h1 ty t v"
  unfolding fresh_copy_def by fastforce

section \<open>The statements keep the promise\<close>

named_theorems copies_intros \<open>statements that copy a value of a type\<close>

lemma flat_view:
  "flat ty \<Longrightarrow> view h ty v = Some (t, as) \<Longrightarrow> as = []"
  "list_all (\<lambda>ft. flat (snd ft)) fs \<Longrightarrow> view_fields h fs s = Some (ts, as) \<Longrightarrow> as = []"
  by (induction h ty v and h fs s arbitrary: t as and ts as rule: view_view_fields.induct)
     (auto split: gval.splits option.splits)

lemma copies_assign [copies_intros]: "flat ty \<Longrightarrow> copies assign ty"
  unfolding copies_def assign_def fresh_copy_def using flat_view(1) by fastforce

lemma fresh_copy_flat: "flat ty \<Longrightarrow> view h1 ty v = Some (t, as) \<Longrightarrow> fresh_copy h h1 ty t v"
  unfolding fresh_copy_def using flat_view(1) by fastforce

lemma cell_at_less: "cell_at h a = Some c \<Longrightarrow> a < length h"
  by (simp add: cell_at_def split: if_splits)

lemma copies_new_ptr [copies_intros]:
  assumes "copies c ty"
  shows "copies (new_ptr c) (TPtr ty)"
  unfolding copies_def
proof (intro allI impI)
  fix h v t as
  assume v: "view h (TPtr ty) v = Some (t, as)"
  show "\<exists>v' new. new_ptr c h v = (v', h @ new) \<and> fresh_copy h (h @ new) (TPtr ty) t v'"
  proof (cases v)
    case (GRef a)
    with v obtain w t1 as1 where a: "cell_at h a = Some (CVal w)" and w: "view h ty w = Some (t1, as1)" and t: "t = NPtr t1"
      by (auto split: option.splits cell.splits)
    from copiesE [OF assms view_append [OF w]] obtain w' new where
      c: "c (h @ [CVal GNil]) w = (w', (h @ [CVal GNil]) @ new)" and f: "fresh_copy (h @ [CVal GNil]) ((h @ [CVal GNil]) @ new) ty t1 w'"
      by blast
    let ?h = "h @ CVal w' # new"
    from f obtain bs where b: "view (h @ CVal GNil # new) ty w' = Some (t1, bs)" and fr: "\<forall>b \<in> set bs. Suc (length h) \<le> b"
      by (auto simp: fresh_copy_def)
    then have "length h \<notin> set bs" by fastforce
    from view_update [OF b this, of "CVal w'"] have "view ?h ty w' = Some (t1, bs)" by (simp add: list_update_append)
    with fr have "fresh_copy h ?h (TPtr ty) t (GRef (length h))"
      by (auto simp: fresh_copy_def cell_at_def t)
    then show ?thesis
      using c by (auto simp: new_ptr_def GRef a Let_def list_update_append)
  qed (use v in \<open>auto simp: new_ptr_def fresh_copy_def\<close>)
qed

lemma map_view_append: "map (view h ty) ws = map Some ps \<Longrightarrow> map (view (h @ new) ty) ws = map Some ps"
proof (induction ws arbitrary: ps)
  case (Cons w ws)
  then show ?case by (cases ps) (use view_append [of h ty w] in \<open>auto simp: prod_eq_iff\<close>)
qed simp

lemma copy_elems_ok:
  assumes "copies c ty" and "map (view h ty) ws = map Some ps"
  shows "\<exists>ws' new. copy_elems c h ws = (ws', h @ new) \<and> list_all2 (\<lambda>w' p. fresh_copy h (h @ new) ty (fst p) w') ws' ps"
  using assms(2)
proof (induction ws arbitrary: h ps)
  case (Cons w ws)
  from Cons.prems obtain p qs where ps: "ps = p # qs" and w: "view h ty w = Some (fst p, snd p)"
    and ws: "map (view h ty) ws = map Some qs" by (auto simp: Cons_eq_map_conv map_eq_Cons_conv)
  from copiesE [OF assms(1) w] obtain w' n1 where c: "c h w = (w', h @ n1)" and f: "fresh_copy h (h @ n1) ty (fst p) w'"
    by blast
  have "map (view (h @ n1) ty) ws = map Some qs"
    by (rule map_view_append [OF ws])
  from Cons.IH [OF this] obtain ws' n2 where cs: "copy_elems c (h @ n1) ws = (ws', (h @ n1) @ n2)"
    and fs: "list_all2 (\<lambda>w' p. fresh_copy (h @ n1) ((h @ n1) @ n2) ty (fst p) w') ws' qs" by blast
  from fs have "list_all2 (\<lambda>w' p. fresh_copy h (h @ n1 @ n2) ty (fst p) w') ws' qs"
    by (rule list_all2_mono) (auto dest: fresh_copy_earlier)
  moreover have "fresh_copy h (h @ n1 @ n2) ty (fst p) w'"
    using fresh_copy_append [OF f, of n2] by simp
  ultimately show ?case
    using c cs by (simp add: ps Let_def)
qed (simp add: exI [of _ "[]"])

text \<open>Elements copied after a cell was allocated for them, and the cell then filled.\<close>

lemma fresh_elems_view:
  assumes "list_all2 (\<lambda>w' p. fresh_copy (h @ [c0]) ((h @ [c0]) @ new) ty (fst p) w') ws' ps"
  shows "\<exists>bs. views (map (view (h @ c1 # new) ty) ws') = Some (map fst ps, bs) \<and> (\<forall>b \<in> set bs. length h \<le> b)"
  using assms
proof (induction ws' ps rule: list_all2_induct)
  case (Cons w' ws' p ps)
  then obtain bs where b: "view (h @ c0 # new) ty w' = Some (fst p, bs)" and fr: "\<forall>b \<in> set bs. Suc (length h) \<le> b"
    by (auto simp: fresh_copy_def)
  then have "length h \<notin> set bs" by fastforce
  from view_update [OF b this, of c1] have "view (h @ c1 # new) ty w' = Some (fst p, bs)" by (simp add: list_update_append)
  with Cons fr show ?case by fastforce
qed simp

lemma copies_new_slice [copies_intros]:
  assumes "copies c ty"
  shows "copies (new_slice c) (TSlice ty)"
  unfolding copies_def
proof (intro allI impI)
  fix h v t as
  assume v: "view h (TSlice ty) v = Some (t, as)"
  show "\<exists>v' new. new_slice c h v = (v', h @ new) \<and> fresh_copy h (h @ new) (TSlice ty) t v'"
  proof (cases v)
    case (GSlice a off n)
    with v obtain ws ts1 as1 where a: "cell_at h a = Some (CArr ws)" and le: "off + n \<le> length ws" and t: "t = NSlice ts1"
      and vs: "views (map (view h ty) (take n (drop off ws))) = Some (ts1, as1)"
      by (auto split: option.splits cell.splits if_splits)
    let ?ws = "take n (drop off ws)" and ?c0 = "CArr (replicate n GNil)"
    from vs obtain ps where ps: "map (view h ty) ?ws = map Some ps" "ts1 = map fst ps"
      unfolding views_Some_iff by blast
    have "map (view (h @ [?c0]) ty) ?ws = map Some ps"
      by (rule map_view_append [OF ps(1)])
    from copy_elems_ok [OF assms this] obtain ws' new where c: "copy_elems c (h @ [?c0]) ?ws = (ws', (h @ [?c0]) @ new)"
      and f: "list_all2 (\<lambda>w' p. fresh_copy (h @ [?c0]) ((h @ [?c0]) @ new) ty (fst p) w') ws' ps" by blast
    from ps(1) le have "length ps = n" by (metis length_map length_take length_drop min.absorb2 add_le_imp_le_diff add.commute)
    with f have len: "length ws' = n" by (simp add: list_all2_lengthD)
    from fresh_elems_view [OF f, of "CArr ws'"] len ps(2)
    have "fresh_copy h (h @ CArr ws' # new) (TSlice ty) t (GSlice (length h) 0 n)"
      by (auto simp: fresh_copy_def cell_at_def t)
    then show ?thesis
      using c by (auto simp: new_slice_def GSlice a Let_def list_update_append)
  qed (use v in \<open>auto simp: new_slice_def fresh_copy_def\<close>)
qed

lemma map_zip_snd: "length ks = length ws \<Longrightarrow> map (\<lambda>kv. F (snd kv)) (zip ks ws) = map F ws"
  by (induction ks ws rule: list_induct2) auto

lemma copies_new_map [copies_intros]:
  assumes "copies c ty"
  shows "copies (new_map c) (TMap ty)"
  unfolding copies_def
proof (intro allI impI)
  fix h v t as
  assume v: "view h (TMap ty) v = Some (t, as)"
  show "\<exists>v' new. new_map c h v = (v', h @ new) \<and> fresh_copy h (h @ new) (TMap ty) t v'"
  proof (cases v)
    case (GMap a)
    with v obtain m ts1 as1 where a: "cell_at h a = Some (CMap m)" and t: "t = NMap (zip (map fst m) ts1)"
      and vs: "views (map (\<lambda>kv. view h ty (snd kv)) m) = Some (ts1, as1)"
      by (auto split: option.splits cell.splits)
    from vs obtain ps where ps: "map (view h ty) (map snd m) = map Some ps" "ts1 = map fst ps"
      unfolding views_Some_iff by (auto simp: comp_def)
    have "map (view (h @ [CMap []]) ty) (map snd m) = map Some ps"
      by (rule map_view_append [OF ps(1)])
    from copy_elems_ok [OF assms this] obtain ws' new where c: "copy_elems c (h @ [CMap []]) (map snd m) = (ws', (h @ [CMap []]) @ new)"
      and f: "list_all2 (\<lambda>w' p. fresh_copy (h @ [CMap []]) ((h @ [CMap []]) @ new) ty (fst p) w') ws' ps" by blast
    from ps(1) have "length ps = length m" by (metis length_map)
    with f have len: "length ws' = length m" by (simp add: list_all2_lengthD)
    let ?m = "zip (map fst m) ws'"
    have "map fst ?m = map fst m" using len by simp
    have "map (\<lambda>kv. view g ty (snd kv)) ?m = map (view g ty) ws'" for g
      by (rule map_zip_snd) (simp add: len)
    with fresh_elems_view [OF f, of "CMap ?m"] ps(2) \<open>map fst ?m = map fst m\<close>
    have "fresh_copy h (h @ CMap ?m # new) (TMap ty) t (GMap (length h))"
      by (auto simp: fresh_copy_def cell_at_def t)
    then show ?thesis
      using c by (auto simp: new_map_def GMap a Let_def list_update_append)
  qed (use v in \<open>auto simp: new_map_def fresh_copy_def\<close>)
qed

text \<open>The fields of a struct: each listed field gets its copy, the others keep the assigned value.\<close>

lemma copy_fields_ok:
  assumes "distinct (map fst cs)" and "\<And>f c. (f, c) \<in> set cs \<Longrightarrow> copies c (T f)"
    and "\<And>f. f \<in> fst ` set cs \<Longrightarrow> view h (T f) (s f) = Some (tr f, ad f)"
  shows "\<exists>out' new. copy_fields cs h s out = (out', h @ new) \<and>
     (\<forall>f \<in> fst ` set cs. fresh_copy h (h @ new) (T f) (tr f) (out' f)) \<and> (\<forall>f. f \<notin> fst ` set cs \<longrightarrow> out' f = out f)"
  using assms
proof (induction cs arbitrary: h out)
  case (Cons fc cs)
  obtain f c where fc: "fc = (f, c)" by (cases fc)
  from Cons.prems(2) [of f c] Cons.prems(3) [of f] fc obtain v n1 where c: "c h (s f) = (v, h @ n1)"
    and v: "fresh_copy h (h @ n1) (T f) (tr f) v" by (auto elim: copiesE)
  have "view (h @ n1) (T g) (s g) = Some (tr g, ad g)" if "g \<in> fst ` set cs" for g
    using Cons.prems(3) [of g] that by (simp add: view_append)
  note vw = this
  have cp: "copies c' (T g)" if "(g, c') \<in> set cs" for g c'
    using Cons.prems(1,2) that by (auto simp: fc)
  have d: "distinct (map fst cs)" using Cons.prems(1) by (simp add: fc)
  from Cons.IH [OF d cp vw, of "out(f := v)"] obtain out' n2 where
    cs: "copy_fields cs (h @ n1) s (out(f := v)) = (out', (h @ n1) @ n2)"
    and fs: "\<forall>g \<in> fst ` set cs. fresh_copy (h @ n1) ((h @ n1) @ n2) (T g) (tr g) (out' g)"
    and rest: "\<forall>g. g \<notin> fst ` set cs \<longrightarrow> out' g = (out(f := v)) g" by blast
  have "f \<notin> fst ` set cs" using Cons.prems(1) by (simp add: fc)
  with rest have "out' f = v" by simp
  moreover have "fresh_copy h (h @ n1 @ n2) (T f) (tr f) v"
    using fresh_copy_append [OF v, of n2] by simp
  moreover have "fresh_copy h (h @ n1 @ n2) (T g) (tr g) (out' g)" if "g \<in> fst ` set cs" for g
    using fs that fresh_copy_earlier [of h n1] by auto
  ultimately show ?case
    using c cs rest by (intro exI [of _ out'] exI [of _ "n1 @ n2"]) (auto simp: fc)
qed simp

lemma view_fields_in: "view_fields h fs s = Some (ts, as) \<Longrightarrow> (f, ty) \<in> set fs \<Longrightarrow> \<exists>t bs. view h ty (s f) = Some (t, bs)"
  by (induction fs arbitrary: ts as) (auto split: option.splits)

lemma view_fields_fresh:
  assumes "view_fields h fs s = Some (ts, as)"
    and "\<And>f ty t bs. (f, ty) \<in> set fs \<Longrightarrow> view h ty (s f) = Some (t, bs) \<Longrightarrow> fresh_copy h h1 ty t (s' f)"
  shows "\<exists>bs. view_fields h1 fs s' = Some (ts, bs) \<and> (\<forall>b \<in> set bs. length h \<le> b)"
  using assms
proof (induction fs arbitrary: ts as)
  case (Cons x fs)
  obtain f ty where x: "x = (f, ty)" by (cases x)
  from Cons.prems(1) obtain t as1 ts2 as2 where t: "view h ty (s f) = Some (t, as1)" and ts2: "view_fields h fs s = Some (ts2, as2)"
    and ts: "ts = (f, t) # ts2" by (auto simp: x split: option.splits)
  from Cons.prems(2) [of f ty, OF _ t] obtain bs1 where "view h1 ty (s' f) = Some (t, bs1)" "\<forall>b \<in> set bs1. length h \<le> b"
    by (auto simp: x fresh_copy_def)
  moreover from Cons.IH [OF ts2] Cons.prems(2) obtain bs2 where "view_fields h1 fs s' = Some (ts2, bs2)" "\<forall>b \<in> set bs2. length h \<le> b"
    by (metis list.set_intros(2))
  ultimately show ?case by (auto simp: x ts)
qed simp

text \<open>
  A struct is copied when every listed field is copied by its type and every other field is flat.
  Dropping the statement of a field that holds a reference breaks this.
\<close>

lemma copies_copy_struct:
  assumes "distinct (map fst cs)" and "distinct (map fst fs)"
    and "list_all (\<lambda>fc. fst fc \<in> fst ` set fs) cs"
    and "list_all (\<lambda>ft. case map_of cs (fst ft) of None \<Rightarrow> flat (snd ft) | Some c \<Rightarrow> copies c (snd ft)) fs"
  shows "copies (copy_struct cs) (TStruct fs)"
  unfolding copies_def
proof (intro allI impI)
  fix h v t as
  assume v: "view h (TStruct fs) v = Some (t, as)"
  then obtain s ts where s: "v = GStruct s" and ts: "view_fields h fs s = Some (ts, as)" and t: "t = NStruct ts"
    by (auto split: gval.splits)
  define T where "T f = the (map_of fs f)" for f
  have T: "T f = ty" if "(f, ty) \<in> set fs" for f ty
    using that assms(2) by (simp add: T_def)
  have field: "case map_of cs f of None \<Rightarrow> flat ty | Some c \<Rightarrow> copies c ty" if "(f, ty) \<in> set fs" for f ty
    using bspec [OF assms(4) [unfolded list_all_iff] that] by (cases "map_of cs f") simp_all
  have "copies c (T f)" if "(f, c) \<in> set cs" for f c
  proof -
    from assms(3) that obtain ty where ty: "(f, ty) \<in> set fs" by (force simp: list_all_iff)
    from that assms(1) have "map_of cs f = Some c" by simp
    with field [OF ty] T [OF ty] show ?thesis by simp
  qed
  moreover have "view h (T f) (s f) = Some (fst (the (view h (T f) (s f))), snd (the (view h (T f) (s f))))"
    if "f \<in> fst ` set cs" for f
  proof -
    from assms(3) that obtain ty where ty: "(f, ty) \<in> set fs" by (force simp: list_all_iff)
    from view_fields_in [OF ts this] T [OF ty] show ?thesis by auto
  qed
  ultimately obtain out new where out: "copy_fields cs h s s = (out, h @ new)"
    and copied: "\<forall>f \<in> fst ` set cs. fresh_copy h (h @ new) (T f) (fst (the (view h (T f) (s f)))) (out f)"
    and same: "\<forall>f. f \<notin> fst ` set cs \<longrightarrow> out f = s f"
    using copy_fields_ok [OF assms(1), of T h s "\<lambda>f. fst (the (view h (T f) (s f)))" "\<lambda>f. snd (the (view h (T f) (s f)))" s] by blast
  have "fresh_copy h (h @ new) ty x (out f)" if "(f, ty) \<in> set fs" "view h ty (s f) = Some (x, bs)" for f ty x bs
  proof (cases "f \<in> fst ` set cs")
    case True
    with copied T [OF that(1)] that(2) show ?thesis by force
  next
    case False
    then have "map_of cs f = None" by (simp add: map_of_eq_None_iff)
    with field [OF that(1)] have "flat ty" by simp
    from fresh_copy_flat [OF this view_append [OF that(2)]] same False show ?thesis by simp
  qed
  note fields = this
  have "\<exists>bs. view_fields (h @ new) fs out = Some (ts, bs) \<and> (\<forall>b \<in> set bs. length h \<le> b)"
    by (rule view_fields_fresh [OF ts]) (rule fields)
  then obtain bs where "view_fields (h @ new) fs out = Some (ts, bs)" "\<forall>b \<in> set bs. length h \<le> b"
    by blast
  then have "fresh_copy h (h @ new) (TStruct fs) t (GStruct out)"
    by (auto simp: fresh_copy_def t)
  with out s show "\<exists>v' new. copy_struct cs h v = (v', h @ new) \<and> fresh_copy h (h @ new) (TStruct fs) t v'"
    by (auto simp: copy_struct_def)
qed

lemma copies_DeepCopy [copies_intros]:
  assumes "copies into ty"
  shows "copies (DeepCopy_by into) (TPtr ty)"
proof -
  have "DeepCopy_by into h p = new_ptr into h p" for h p
    by (cases p) (simp_all add: DeepCopy_by_def new_ptr_def)
  then have "DeepCopy_by into = new_ptr into" by (intro ext)
  with copies_new_ptr [OF assms] show ?thesis by simp
qed

lemma copies_val_DeepCopy [copies_intros]:
  assumes "copies deepCopy (TPtr ty)"
  shows "copies (val_DeepCopy deepCopy) ty"
  unfolding copies_def
proof (intro allI impI)
  fix h v t as
  assume v: "view h ty v = Some (t, as)"
  let ?h = "h @ [CVal v]"
  have "view ?h (TPtr ty) (GRef (length h)) = Some (NPtr t, length h # as)"
    using view_append [OF v, of "[CVal v]"] by (simp add: cell_at_def)
  from copiesE [OF assms this] obtain p new where c: "deepCopy ?h (GRef (length h)) = (p, ?h @ new)"
    and f: "fresh_copy ?h (?h @ new) (TPtr ty) (NPtr t) p" by blast
  from f obtain a w bs where p: "p = GRef a" and a: "cell_at (?h @ new) a = Some (CVal w)"
    and w: "view (?h @ new) ty w = Some (t, bs)" and fr: "\<forall>b \<in> set bs. length h \<le> b"
    by (auto simp: fresh_copy_def split: gval.splits option.splits cell.splits) fastforce
  then have "val_DeepCopy deepCopy h v = (w, h @ CVal v # new)"
    by (simp add: val_DeepCopy_def c)
  moreover have "fresh_copy h (h @ CVal v # new) ty t w"
    using w fr by (auto simp: fresh_copy_def)
  ultimately show "\<exists>v' new. val_DeepCopy deepCopy h v = (v', h @ new) \<and> fresh_copy h (h @ new) ty t v'" by blast
qed

text \<open>\<^verbatim>\<open>DeepCopyObject\<close>: nil to nil, an object to a fresh one.\<close>

lemma DeepCopyObject_nil: "DeepCopyObject_by (DeepCopy_by into) h GNil = (None, h)"
  by (simp add: DeepCopyObject_by_def DeepCopy_by_def)

lemma DeepCopyObject_fresh:
  assumes "copies into ty" and "view h (TPtr ty) (GRef a) = Some (t, as)"
  shows "\<exists>b new. DeepCopyObject_by (DeepCopy_by into) h (GRef a) = (Some (GRef b), h @ new) \<and>
    fresh_copy h (h @ new) (TPtr ty) t (GRef b)"
proof -
  from copiesE [OF copies_DeepCopy [OF assms(1)] assms(2)] obtain p new where
    c: "DeepCopy_by into h (GRef a) = (p, h @ new)" and f: "fresh_copy h (h @ new) (TPtr ty) t p" by blast
  from assms(2) obtain w where "cell_at h a = Some (CVal w)" by (auto split: option.splits cell.splits)
  with c have "\<exists>b. p = GRef b" by (auto simp: DeepCopy_by_def new_ptr_def Let_def split: prod.splits)
  with c f show ?thesis by (auto simp: DeepCopyObject_by_def)
qed

end
