(* ===== verification/Api_Layout.thy ===== *)
theory Api_Layout
  imports Go_Memory
begin

text \<open>
  The types of \<^verbatim>\<open>api/v1alpha1\<close> as they lie in memory: the fields in the order of the
  declarations, with the optional ones as pointers. The types of apimachinery and client-go they embed
  come from a library: \<open>al_type\<close> is how such a type lies in memory and \<open>al_DeepCopyInto\<close> is its
  own copy function. \<open>api_lib_ok\<close> says what the generated code relies on: the library's functions
  copy values of their types, and the two library types that are copied by assignment hold no references.
\<close>

record api_lib =
  al_type :: "string \<Rightarrow> gtype"
  al_DeepCopyInto :: "string \<Rightarrow> copier"

definition api_lib_ok :: "api_lib \<Rightarrow> bool" where
  "api_lib_ok E \<longleftrightarrow> flat (al_type E ''TypeMeta'') \<and> flat (al_type E ''ObjectReference'') \<and>
     (\<forall>n. copies (al_DeepCopyInto E n) (al_type E n))"

lemma api_lib_okD:
  assumes "api_lib_ok E"
  shows "flat (al_type E ''TypeMeta'')" "flat (al_type E ''ObjectReference'')" "copies (al_DeepCopyInto E n) (al_type E n)"
  using assms by (simp_all add: api_lib_ok_def)

definition ActionExecutionSpec_type :: "api_lib \<Rightarrow> gtype" where
  "ActionExecutionSpec_type E = TStruct
     [(''TargetResource'', al_type E ''ObjectReference''), (''ActionType'', TString),
      (''ActionName'', TString), (''Parameters'', TString)]"

definition ActionExecutionStatus_type :: "api_lib \<Rightarrow> gtype" where
  "ActionExecutionStatus_type E = TStruct
     [(''Phase'', TString), (''StateData'', TMap TString), (''Conditions'', TSlice (al_type E ''Condition''))]"

definition ActionExecution_type :: "api_lib \<Rightarrow> gtype" where
  "ActionExecution_type E = TStruct
     [(''TypeMeta'', al_type E ''TypeMeta''), (''ObjectMeta'', al_type E ''ObjectMeta''),
      (''Spec'', (ActionExecutionSpec_type E)), (''Status'', (ActionExecutionStatus_type E))]"

definition ActionExecutionList_type :: "api_lib \<Rightarrow> gtype" where
  "ActionExecutionList_type E = TStruct
     [(''TypeMeta'', al_type E ''TypeMeta''), (''ListMeta'', al_type E ''ListMeta''),
      (''Items'', TSlice (ActionExecution_type E))]"

definition AwsCredentialsKeysRef_type :: "gtype" where
  "AwsCredentialsKeysRef_type = TStruct
     [(''AccessKey'', TString), (''SecretKey'', TString), (''SessionKey'', TString)]"

definition AwsCredentialsSpec_type :: "gtype" where
  "AwsCredentialsSpec_type = TStruct
     [(''SecretName'', TString), (''Namespace'', TString), (''KeysRef'', TPtr AwsCredentialsKeysRef_type)]"

definition AwsDocumentDBClusterAction_type :: "gtype" where
  "AwsDocumentDBClusterAction_type = TStruct
     [(''Enabled'', TPtr TBool), (''Command'', TString), (''InstanceClass'', TPtr TString)]"

definition AwsDocumentDBClusterIdentifier_type :: "gtype" where
  "AwsDocumentDBClusterIdentifier_type = TStruct
     [(''Identifier'', TString), (''Region'', TString)]"

definition AwsDocumentDBClusterSpec_type :: "gtype" where
  "AwsDocumentDBClusterSpec_type = TStruct
     [(''Enabled'', TPtr TBool), (''Schedule'', TString), (''ServiceEndpoint'', TPtr TString),
      (''DBClusterIdentifiers'', TSlice AwsDocumentDBClusterIdentifier_type),
      (''Actions'', TMap AwsDocumentDBClusterAction_type), (''Credentials'', TPtr AwsCredentialsSpec_type)]"

definition Status_type :: "api_lib \<Rightarrow> gtype" where
  "Status_type E = TStruct
     [(''Conditions'', TSlice (al_type E ''Condition''))]"

definition StatusType_type :: "api_lib \<Rightarrow> gtype" where
  "StatusType_type E = TStruct
     [(''Status'', (Status_type E))]"

definition AwsDocumentDBCluster_type :: "api_lib \<Rightarrow> gtype" where
  "AwsDocumentDBCluster_type E = TStruct
     [(''TypeMeta'', al_type E ''TypeMeta''), (''ObjectMeta'', al_type E ''ObjectMeta''),
      (''Spec'', AwsDocumentDBClusterSpec_type), (''StatusType'', (StatusType_type E))]"

definition AwsDocumentDBClusterList_type :: "api_lib \<Rightarrow> gtype" where
  "AwsDocumentDBClusterList_type E = TStruct
     [(''TypeMeta'', al_type E ''TypeMeta''), (''ListMeta'', al_type E ''ListMeta''),
      (''Items'', TSlice (AwsDocumentDBCluster_type E))]"

definition AwsEc2InstanceAction_type :: "gtype" where
  "AwsEc2InstanceAction_type = TStruct
     [(''Enabled'', TPtr TBool), (''Command'', TString), (''Force'', TPtr TBool)]"

definition AwsEc2InstanceIdentifier_type :: "gtype" where
  "AwsEc2InstanceIdentifier_type = TStruct
     [(''Id'', TString), (''Region'', TString)]"

definition AwsEc2InstanceSpec_type :: "gtype" where
  "AwsEc2InstanceSpec_type = TStruct
     [(''Enabled'', TPtr TBool), (''Schedule'', TString), (''ServiceEndpoint'', TPtr TString),
      (''Instances'', TSlice AwsEc2InstanceIdentifier_type), (''Actions'', TMap AwsEc2InstanceAction_type),
      (''Credentials'', TPtr AwsCredentialsSpec_type)]"

definition AwsEc2Instance_type :: "api_lib \<Rightarrow> gtype" where
  "AwsEc2Instance_type E = TStruct
     [(''TypeMeta'', al_type E ''TypeMeta''), (''ObjectMeta'', al_type E ''ObjectMeta''),
      (''Spec'', AwsEc2InstanceSpec_type), (''StatusType'', (StatusType_type E))]"

definition AwsEc2InstanceList_type :: "api_lib \<Rightarrow> gtype" where
  "AwsEc2InstanceList_type E = TStruct
     [(''TypeMeta'', al_type E ''TypeMeta''), (''ListMeta'', al_type E ''ListMeta''),
      (''Items'', TSlice (AwsEc2Instance_type E))]"

definition AwsRdsAuroraClusterAction_type :: "gtype" where
  "AwsRdsAuroraClusterAction_type = TStruct
     [(''Enabled'', TPtr TBool), (''Command'', TString), (''InstanceClass'', TPtr TString)]"

definition AwsRdsAuroraClusterIdentifier_type :: "gtype" where
  "AwsRdsAuroraClusterIdentifier_type = TStruct
     [(''Identifier'', TString), (''Region'', TString)]"

definition AwsRdsAuroraClusterSpec_type :: "gtype" where
  "AwsRdsAuroraClusterSpec_type = TStruct
     [(''Enabled'', TPtr TBool), (''Schedule'', TString), (''ServiceEndpoint'', TPtr TString),
      (''DBClusterIdentifiers'', TSlice AwsRdsAuroraClusterIdentifier_type),
      (''Actions'', TMap AwsRdsAuroraClusterAction_type), (''Credentials'', TPtr AwsCredentialsSpec_type)]"

definition AwsRdsAuroraCluster_type :: "api_lib \<Rightarrow> gtype" where
  "AwsRdsAuroraCluster_type E = TStruct
     [(''TypeMeta'', al_type E ''TypeMeta''), (''ObjectMeta'', al_type E ''ObjectMeta''),
      (''Spec'', AwsRdsAuroraClusterSpec_type), (''StatusType'', (StatusType_type E))]"

definition AwsRdsAuroraClusterList_type :: "api_lib \<Rightarrow> gtype" where
  "AwsRdsAuroraClusterList_type E = TStruct
     [(''TypeMeta'', al_type E ''TypeMeta''), (''ListMeta'', al_type E ''ListMeta''),
      (''Items'', TSlice (AwsRdsAuroraCluster_type E))]"

definition AwsTransferFamilyAction_type :: "gtype" where
  "AwsTransferFamilyAction_type = TStruct
     [(''Enabled'', TPtr TBool), (''Command'', TString)]"

definition AwsTransferFamilyIdentifier_type :: "gtype" where
  "AwsTransferFamilyIdentifier_type = TStruct
     [(''Id'', TString), (''Region'', TString)]"

definition AwsTransferFamilySpec_type :: "gtype" where
  "AwsTransferFamilySpec_type = TStruct
     [(''Enabled'', TPtr TBool), (''Schedule'', TString), (''ServiceEndpoint'', TPtr TString),
      (''ServerIds'', TSlice AwsTransferFamilyIdentifier_type),
      (''Actions'', TMap AwsTransferFamilyAction_type), (''Credentials'', TPtr AwsCredentialsSpec_type)]"

definition AwsTransferFamily_type :: "api_lib \<Rightarrow> gtype" where
  "AwsTransferFamily_type E = TStruct
     [(''TypeMeta'', al_type E ''TypeMeta''), (''ObjectMeta'', al_type E ''ObjectMeta''),
      (''Spec'', AwsTransferFamilySpec_type), (''StatusType'', (StatusType_type E))]"

definition AwsTransferFamilyList_type :: "api_lib \<Rightarrow> gtype" where
  "AwsTransferFamilyList_type E = TStruct
     [(''TypeMeta'', al_type E ''TypeMeta''), (''ListMeta'', al_type E ''ListMeta''),
      (''Items'', TSlice (AwsTransferFamily_type E))]"

definition K8sHpaAction_type :: "gtype" where
  "K8sHpaAction_type = TStruct
     [(''Enabled'', TPtr TBool), (''MinReplicas'', TInt), (''MaxReplicas'', TInt)]"

definition K8sHpaSpec_type :: "api_lib \<Rightarrow> gtype" where
  "K8sHpaSpec_type E = TStruct
     [(''Enabled'', TPtr TBool), (''Namespaces'', TSlice TString),
      (''LabelSelector'', al_type E ''LabelSelector''), (''Schedule'', TString),
      (''Actions'', TMap K8sHpaAction_type)]"

definition K8sHpa_type :: "api_lib \<Rightarrow> gtype" where
  "K8sHpa_type E = TStruct
     [(''TypeMeta'', al_type E ''TypeMeta''), (''ObjectMeta'', al_type E ''ObjectMeta''),
      (''Spec'', (K8sHpaSpec_type E)), (''StatusType'', (StatusType_type E))]"

definition K8sHpaList_type :: "api_lib \<Rightarrow> gtype" where
  "K8sHpaList_type E = TStruct
     [(''TypeMeta'', al_type E ''TypeMeta''), (''ListMeta'', al_type E ''ListMeta''),
      (''Items'', TSlice (K8sHpa_type E))]"

definition K8sPodReplicasAction_type :: "gtype" where
  "K8sPodReplicasAction_type = TStruct
     [(''Enabled'', TPtr TBool), (''Replicas'', TInt)]"

definition K8sPodReplicasSpec_type :: "api_lib \<Rightarrow> gtype" where
  "K8sPodReplicasSpec_type E = TStruct
     [(''Enabled'', TPtr TBool), (''Namespaces'', TSlice TString), (''ResourceType'', TString),
      (''LabelSelector'', al_type E ''LabelSelector''), (''Schedule'', TString),
      (''Actions'', TMap K8sPodReplicasAction_type)]"

definition K8sPodReplicas_type :: "api_lib \<Rightarrow> gtype" where
  "K8sPodReplicas_type E = TStruct
     [(''TypeMeta'', al_type E ''TypeMeta''), (''ObjectMeta'', al_type E ''ObjectMeta''),
      (''Spec'', (K8sPodReplicasSpec_type E)), (''StatusType'', (StatusType_type E))]"

definition K8sPodReplicasList_type :: "api_lib \<Rightarrow> gtype" where
  "K8sPodReplicasList_type E = TStruct
     [(''TypeMeta'', al_type E ''TypeMeta''), (''ListMeta'', al_type E ''ListMeta''),
      (''Items'', TSlice (K8sPodReplicas_type E))]"

definition K8sRunJobAction_type :: "api_lib \<Rightarrow> gtype" where
  "K8sRunJobAction_type E = TStruct
     [(''Enabled'', TPtr TBool), (''Job'', al_type E ''JobSpec'')]"

definition K8sRunJobSpec_type :: "api_lib \<Rightarrow> gtype" where
  "K8sRunJobSpec_type E = TStruct
     [(''Enabled'', TPtr TBool), (''Namespaces'', TSlice TString), (''Schedule'', TString),
      (''Actions'', TMap (K8sRunJobAction_type E))]"

definition K8sRunJob_type :: "api_lib \<Rightarrow> gtype" where
  "K8sRunJob_type E = TStruct
     [(''TypeMeta'', al_type E ''TypeMeta''), (''ObjectMeta'', al_type E ''ObjectMeta''),
      (''Spec'', (K8sRunJobSpec_type E)), (''StatusType'', (StatusType_type E))]"

definition K8sRunJobList_type :: "api_lib \<Rightarrow> gtype" where
  "K8sRunJobList_type E = TStruct
     [(''TypeMeta'', al_type E ''TypeMeta''), (''ListMeta'', al_type E ''ListMeta''),
      (''Items'', TSlice (K8sRunJob_type E))]"

definition NotificationPolicyApiSpec_type :: "gtype" where
  "NotificationPolicyApiSpec_type = TStruct
     [(''Url'', TString), (''Method'', TString)]"

definition NotificationPolicyMSTeamsSpec_type :: "gtype" where
  "NotificationPolicyMSTeamsSpec_type = TStruct
     [(''WebHookUrl'', TString), (''CardTitle'', TString)]"

definition NotificationPolicySlackSpec_type :: "gtype" where
  "NotificationPolicySlackSpec_type = TStruct
     [(''WebHookUrl'', TString), (''Title'', TString)]"

definition NotificationPolicySpec_type :: "gtype" where
  "NotificationPolicySpec_type = TStruct
     [(''Enabled'', TPtr TBool), (''Schedules'', TSlice TString), (''Type'', TString),
      (''Api'', TPtr NotificationPolicyApiSpec_type), (''MSTeams'', TPtr NotificationPolicyMSTeamsSpec_type),
      (''Slack'', TPtr NotificationPolicySlackSpec_type)]"

definition NotificationPolicy_type :: "api_lib \<Rightarrow> gtype" where
  "NotificationPolicy_type E = TStruct
     [(''TypeMeta'', al_type E ''TypeMeta''), (''ObjectMeta'', al_type E ''ObjectMeta''),
      (''Spec'', NotificationPolicySpec_type), (''StatusType'', (StatusType_type E))]"

definition NotificationPolicyList_type :: "api_lib \<Rightarrow> gtype" where
  "NotificationPolicyList_type E = TStruct
     [(''TypeMeta'', al_type E ''TypeMeta''), (''ListMeta'', al_type E ''ListMeta''),
      (''Items'', TSlice (NotificationPolicy_type E))]"

definition ScheduleAction_type :: "gtype" where
  "ScheduleAction_type = TStruct
     [(''Enabled'', TPtr TBool), (''Cron'', TString)]"

definition TimePeriod_type :: "api_lib \<Rightarrow> gtype" where
  "TimePeriod_type E = TStruct
     [(''Start'', al_type E ''Time''), (''End'', al_type E ''Time''), (''Actions'', TSlice TString)]"

definition ScheduleSpec_type :: "api_lib \<Rightarrow> gtype" where
  "ScheduleSpec_type E = TStruct
     [(''Enabled'', TPtr TBool), (''Actions'', TMap ScheduleAction_type),
      (''ActivePeriods'', TSlice (TimePeriod_type E)), (''InactivePeriods'', TSlice (TimePeriod_type E))]"

definition Schedule_type :: "api_lib \<Rightarrow> gtype" where
  "Schedule_type E = TStruct
     [(''TypeMeta'', al_type E ''TypeMeta''), (''ObjectMeta'', al_type E ''ObjectMeta''),
      (''Spec'', (ScheduleSpec_type E)), (''StatusType'', (StatusType_type E))]"

definition ScheduleList_type :: "api_lib \<Rightarrow> gtype" where
  "ScheduleList_type E = TStruct
     [(''TypeMeta'', al_type E ''TypeMeta''), (''ListMeta'', al_type E ''ListMeta''),
      (''Items'', TSlice (Schedule_type E))]"

end
