(* ===== verification/Deep_Copy.thy ===== *)
theory Deep_Copy
  imports Api_Layout
begin

text \<open>
  The deep copies of \<^verbatim>\<open>zz_generated.deepcopy.go\<close>, one definition per function: each
  \<^verbatim>\<open>DeepCopyInto\<close> lists its statements in order, with the field and how the statement fills
  it; an empty list is \<^verbatim>\<open>*out = *in\<close> alone. The manager's cache hands out the objects it holds
  through these functions, and the reconcilers change what they get in place. Shown is that every copy
  stands for the same object and shares no memory with anything that was there before.
\<close>

section \<open>The copy functions\<close>

definition ActionExecutionSpec_DeepCopyInto :: "api_lib \<Rightarrow> copier" where
  "ActionExecutionSpec_DeepCopyInto E = copy_struct
     [(''TargetResource'', assign)]"

definition ActionExecutionSpec_DeepCopy :: "api_lib \<Rightarrow> copier" where
  "ActionExecutionSpec_DeepCopy E = DeepCopy_by (ActionExecutionSpec_DeepCopyInto E)"

definition ActionExecutionStatus_DeepCopyInto :: "api_lib \<Rightarrow> copier" where
  "ActionExecutionStatus_DeepCopyInto E = copy_struct
     [(''StateData'', new_map assign), (''Conditions'', new_slice (al_DeepCopyInto E ''Condition''))]"

definition ActionExecutionStatus_DeepCopy :: "api_lib \<Rightarrow> copier" where
  "ActionExecutionStatus_DeepCopy E = DeepCopy_by (ActionExecutionStatus_DeepCopyInto E)"

definition ActionExecution_DeepCopyInto :: "api_lib \<Rightarrow> copier" where
  "ActionExecution_DeepCopyInto E = copy_struct
     [(''TypeMeta'', assign), (''ObjectMeta'', al_DeepCopyInto E ''ObjectMeta''), (''Spec'', assign),
      (''Status'', ActionExecutionStatus_DeepCopyInto E)]"

definition ActionExecution_DeepCopy :: "api_lib \<Rightarrow> copier" where
  "ActionExecution_DeepCopy E = DeepCopy_by (ActionExecution_DeepCopyInto E)"

definition ActionExecution_DeepCopyObject :: "api_lib \<Rightarrow> heap \<Rightarrow> gval \<Rightarrow> gval option \<times> heap" where
  "ActionExecution_DeepCopyObject E = DeepCopyObject_by (ActionExecution_DeepCopy E)"

definition ActionExecutionList_DeepCopyInto :: "api_lib \<Rightarrow> copier" where
  "ActionExecutionList_DeepCopyInto E = copy_struct
     [(''TypeMeta'', assign), (''ListMeta'', al_DeepCopyInto E ''ListMeta''),
      (''Items'', new_slice (ActionExecution_DeepCopyInto E))]"

definition ActionExecutionList_DeepCopy :: "api_lib \<Rightarrow> copier" where
  "ActionExecutionList_DeepCopy E = DeepCopy_by (ActionExecutionList_DeepCopyInto E)"

definition ActionExecutionList_DeepCopyObject :: "api_lib \<Rightarrow> heap \<Rightarrow> gval \<Rightarrow> gval option \<times> heap" where
  "ActionExecutionList_DeepCopyObject E = DeepCopyObject_by (ActionExecutionList_DeepCopy E)"

definition AwsCredentialsKeysRef_DeepCopyInto :: "copier" where
  "AwsCredentialsKeysRef_DeepCopyInto = assign"

definition AwsCredentialsKeysRef_DeepCopy :: "copier" where
  "AwsCredentialsKeysRef_DeepCopy = DeepCopy_by AwsCredentialsKeysRef_DeepCopyInto"

definition AwsCredentialsSpec_DeepCopyInto :: "copier" where
  "AwsCredentialsSpec_DeepCopyInto = copy_struct
     [(''KeysRef'', new_ptr assign)]"

definition AwsCredentialsSpec_DeepCopy :: "copier" where
  "AwsCredentialsSpec_DeepCopy = DeepCopy_by AwsCredentialsSpec_DeepCopyInto"

definition AwsDocumentDBClusterAction_DeepCopyInto :: "copier" where
  "AwsDocumentDBClusterAction_DeepCopyInto = copy_struct
     [(''Enabled'', new_ptr assign), (''InstanceClass'', new_ptr assign)]"

definition AwsDocumentDBClusterAction_DeepCopy :: "copier" where
  "AwsDocumentDBClusterAction_DeepCopy = DeepCopy_by AwsDocumentDBClusterAction_DeepCopyInto"

definition AwsDocumentDBClusterIdentifier_DeepCopyInto :: "copier" where
  "AwsDocumentDBClusterIdentifier_DeepCopyInto = assign"

definition AwsDocumentDBClusterIdentifier_DeepCopy :: "copier" where
  "AwsDocumentDBClusterIdentifier_DeepCopy = DeepCopy_by AwsDocumentDBClusterIdentifier_DeepCopyInto"

definition AwsDocumentDBClusterSpec_DeepCopyInto :: "copier" where
  "AwsDocumentDBClusterSpec_DeepCopyInto = copy_struct
     [(''Enabled'', new_ptr assign), (''ServiceEndpoint'', new_ptr assign),
      (''DBClusterIdentifiers'', new_slice assign),
      (''Actions'', new_map (val_DeepCopy AwsDocumentDBClusterAction_DeepCopy)),
      (''Credentials'', new_ptr AwsCredentialsSpec_DeepCopyInto)]"

definition AwsDocumentDBClusterSpec_DeepCopy :: "copier" where
  "AwsDocumentDBClusterSpec_DeepCopy = DeepCopy_by AwsDocumentDBClusterSpec_DeepCopyInto"

definition Status_DeepCopyInto :: "api_lib \<Rightarrow> copier" where
  "Status_DeepCopyInto E = copy_struct
     [(''Conditions'', new_slice (al_DeepCopyInto E ''Condition''))]"

definition Status_DeepCopy :: "api_lib \<Rightarrow> copier" where
  "Status_DeepCopy E = DeepCopy_by (Status_DeepCopyInto E)"

definition StatusType_DeepCopyInto :: "api_lib \<Rightarrow> copier" where
  "StatusType_DeepCopyInto E = copy_struct
     [(''Status'', Status_DeepCopyInto E)]"

definition StatusType_DeepCopy :: "api_lib \<Rightarrow> copier" where
  "StatusType_DeepCopy E = DeepCopy_by (StatusType_DeepCopyInto E)"

definition AwsDocumentDBCluster_DeepCopyInto :: "api_lib \<Rightarrow> copier" where
  "AwsDocumentDBCluster_DeepCopyInto E = copy_struct
     [(''TypeMeta'', assign), (''ObjectMeta'', al_DeepCopyInto E ''ObjectMeta''),
      (''Spec'', AwsDocumentDBClusterSpec_DeepCopyInto), (''StatusType'', StatusType_DeepCopyInto E)]"

definition AwsDocumentDBCluster_DeepCopy :: "api_lib \<Rightarrow> copier" where
  "AwsDocumentDBCluster_DeepCopy E = DeepCopy_by (AwsDocumentDBCluster_DeepCopyInto E)"

definition AwsDocumentDBCluster_DeepCopyObject :: "api_lib \<Rightarrow> heap \<Rightarrow> gval \<Rightarrow> gval option \<times> heap" where
  "AwsDocumentDBCluster_DeepCopyObject E = DeepCopyObject_by (AwsDocumentDBCluster_DeepCopy E)"

definition AwsDocumentDBClusterList_DeepCopyInto :: "api_lib \<Rightarrow> copier" where
  "AwsDocumentDBClusterList_DeepCopyInto E = copy_struct
     [(''TypeMeta'', assign), (''ListMeta'', al_DeepCopyInto E ''ListMeta''),
      (''Items'', new_slice (AwsDocumentDBCluster_DeepCopyInto E))]"

definition AwsDocumentDBClusterList_DeepCopy :: "api_lib \<Rightarrow> copier" where
  "AwsDocumentDBClusterList_DeepCopy E = DeepCopy_by (AwsDocumentDBClusterList_DeepCopyInto E)"

definition AwsDocumentDBClusterList_DeepCopyObject :: "api_lib \<Rightarrow> heap \<Rightarrow> gval \<Rightarrow> gval option \<times> heap" where
  "AwsDocumentDBClusterList_DeepCopyObject E = DeepCopyObject_by (AwsDocumentDBClusterList_DeepCopy E)"

definition AwsEc2InstanceAction_DeepCopyInto :: "copier" where
  "AwsEc2InstanceAction_DeepCopyInto = copy_struct
     [(''Enabled'', new_ptr assign), (''Force'', new_ptr assign)]"

definition AwsEc2InstanceAction_DeepCopy :: "copier" where
  "AwsEc2InstanceAction_DeepCopy = DeepCopy_by AwsEc2InstanceAction_DeepCopyInto"

definition AwsEc2InstanceIdentifier_DeepCopyInto :: "copier" where
  "AwsEc2InstanceIdentifier_DeepCopyInto = assign"

definition AwsEc2InstanceIdentifier_DeepCopy :: "copier" where
  "AwsEc2InstanceIdentifier_DeepCopy = DeepCopy_by AwsEc2InstanceIdentifier_DeepCopyInto"

definition AwsEc2InstanceSpec_DeepCopyInto :: "copier" where
  "AwsEc2InstanceSpec_DeepCopyInto = copy_struct
     [(''Enabled'', new_ptr assign), (''ServiceEndpoint'', new_ptr assign), (''Instances'', new_slice assign),
      (''Actions'', new_map (val_DeepCopy AwsEc2InstanceAction_DeepCopy)),
      (''Credentials'', new_ptr AwsCredentialsSpec_DeepCopyInto)]"

definition AwsEc2InstanceSpec_DeepCopy :: "copier" where
  "AwsEc2InstanceSpec_DeepCopy = DeepCopy_by AwsEc2InstanceSpec_DeepCopyInto"

definition AwsEc2Instance_DeepCopyInto :: "api_lib \<Rightarrow> copier" where
  "AwsEc2Instance_DeepCopyInto E = copy_struct
     [(''TypeMeta'', assign), (''ObjectMeta'', al_DeepCopyInto E ''ObjectMeta''),
      (''Spec'', AwsEc2InstanceSpec_DeepCopyInto), (''StatusType'', StatusType_DeepCopyInto E)]"

definition AwsEc2Instance_DeepCopy :: "api_lib \<Rightarrow> copier" where
  "AwsEc2Instance_DeepCopy E = DeepCopy_by (AwsEc2Instance_DeepCopyInto E)"

definition AwsEc2Instance_DeepCopyObject :: "api_lib \<Rightarrow> heap \<Rightarrow> gval \<Rightarrow> gval option \<times> heap" where
  "AwsEc2Instance_DeepCopyObject E = DeepCopyObject_by (AwsEc2Instance_DeepCopy E)"

definition AwsEc2InstanceList_DeepCopyInto :: "api_lib \<Rightarrow> copier" where
  "AwsEc2InstanceList_DeepCopyInto E = copy_struct
     [(''TypeMeta'', assign), (''ListMeta'', al_DeepCopyInto E ''ListMeta''),
      (''Items'', new_slice (AwsEc2Instance_DeepCopyInto E))]"

definition AwsEc2InstanceList_DeepCopy :: "api_lib \<Rightarrow> copier" where
  "AwsEc2InstanceList_DeepCopy E = DeepCopy_by (AwsEc2InstanceList_DeepCopyInto E)"

definition AwsEc2InstanceList_DeepCopyObject :: "api_lib \<Rightarrow> heap \<Rightarrow> gval \<Rightarrow> gval option \<times> heap" where
  "AwsEc2InstanceList_DeepCopyObject E = DeepCopyObject_by (AwsEc2InstanceList_DeepCopy E)"

definition AwsRdsAuroraClusterAction_DeepCopyInto :: "copier" where
  "AwsRdsAuroraClusterAction_DeepCopyInto = copy_struct
     [(''Enabled'', new_ptr assign), (''InstanceClass'', new_ptr assign)]"

definition AwsRdsAuroraClusterAction_DeepCopy :: "copier" where
  "AwsRdsAuroraClusterAction_DeepCopy = DeepCopy_by AwsRdsAuroraClusterAction_DeepCopyInto"

definition AwsRdsAuroraClusterIdentifier_DeepCopyInto :: "copier" where
  "AwsRdsAuroraClusterIdentifier_DeepCopyInto = assign"

definition AwsRdsAuroraClusterIdentifier_DeepCopy :: "copier" where
  "AwsRdsAuroraClusterIdentifier_DeepCopy = DeepCopy_by AwsRdsAuroraClusterIdentifier_DeepCopyInto"

definition AwsRdsAuroraClusterSpec_DeepCopyInto :: "copier" where
  "AwsRdsAuroraClusterSpec_DeepCopyInto = copy_struct
     [(''Enabled'', new_ptr assign), (''ServiceEndpoint'', new_ptr assign),
      (''DBClusterIdentifiers'', new_slice assign),
      (''Actions'', new_map (val_DeepCopy AwsRdsAuroraClusterAction_DeepCopy)),
      (''Credentials'', new_ptr AwsCredentialsSpec_DeepCopyInto)]"

definition AwsRdsAuroraClusterSpec_DeepCopy :: "copier" where
  "AwsRdsAuroraClusterSpec_DeepCopy = DeepCopy_by AwsRdsAuroraClusterSpec_DeepCopyInto"

definition AwsRdsAuroraCluster_DeepCopyInto :: "api_lib \<Rightarrow> copier" where
  "AwsRdsAuroraCluster_DeepCopyInto E = copy_struct
     [(''TypeMeta'', assign), (''ObjectMeta'', al_DeepCopyInto E ''ObjectMeta''),
      (''Spec'', AwsRdsAuroraClusterSpec_DeepCopyInto), (''StatusType'', StatusType_DeepCopyInto E)]"

definition AwsRdsAuroraCluster_DeepCopy :: "api_lib \<Rightarrow> copier" where
  "AwsRdsAuroraCluster_DeepCopy E = DeepCopy_by (AwsRdsAuroraCluster_DeepCopyInto E)"

definition AwsRdsAuroraCluster_DeepCopyObject :: "api_lib \<Rightarrow> heap \<Rightarrow> gval \<Rightarrow> gval option \<times> heap" where
  "AwsRdsAuroraCluster_DeepCopyObject E = DeepCopyObject_by (AwsRdsAuroraCluster_DeepCopy E)"

definition AwsRdsAuroraClusterList_DeepCopyInto :: "api_lib \<Rightarrow> copier" where
  "AwsRdsAuroraClusterList_DeepCopyInto E = copy_struct
     [(''TypeMeta'', assign), (''ListMeta'', al_DeepCopyInto E ''ListMeta''),
      (''Items'', new_slice (AwsRdsAuroraCluster_DeepCopyInto E))]"

definition AwsRdsAuroraClusterList_DeepCopy :: "api_lib \<Rightarrow> copier" where
  "AwsRdsAuroraClusterList_DeepCopy E = DeepCopy_by (AwsRdsAuroraClusterList_DeepCopyInto E)"

definition AwsRdsAuroraClusterList_DeepCopyObject :: "api_lib \<Rightarrow> heap \<Rightarrow> gval \<Rightarrow> gval option \<times> heap" where
  "AwsRdsAuroraClusterList_DeepCopyObject E = DeepCopyObject_by (AwsRdsAuroraClusterList_DeepCopy E)"

definition AwsTransferFamilyAction_DeepCopyInto :: "copier" where
  "AwsTransferFamilyAction_DeepCopyInto = copy_struct
     [(''Enabled'', new_ptr assign)]"

definition AwsTransferFamilyAction_DeepCopy :: "copier" where
  "AwsTransferFamilyAction_DeepCopy = DeepCopy_by AwsTransferFamilyAction_DeepCopyInto"

definition AwsTransferFamilyIdentifier_DeepCopyInto :: "copier" where
  "AwsTransferFamilyIdentifier_DeepCopyInto = assign"

definition AwsTransferFamilyIdentifier_DeepCopy :: "copier" where
  "AwsTransferFamilyIdentifier_DeepCopy = DeepCopy_by AwsTransferFamilyIdentifier_DeepCopyInto"

definition AwsTransferFamilySpec_DeepCopyInto :: "copier" where
  "AwsTransferFamilySpec_DeepCopyInto = copy_struct
     [(''Enabled'', new_ptr assign), (''ServiceEndpoint'', new_ptr assign), (''ServerIds'', new_slice assign),
      (''Actions'', new_map (val_DeepCopy AwsTransferFamilyAction_DeepCopy)),
      (''Credentials'', new_ptr AwsCredentialsSpec_DeepCopyInto)]"

definition AwsTransferFamilySpec_DeepCopy :: "copier" where
  "AwsTransferFamilySpec_DeepCopy = DeepCopy_by AwsTransferFamilySpec_DeepCopyInto"

definition AwsTransferFamily_DeepCopyInto :: "api_lib \<Rightarrow> copier" where
  "AwsTransferFamily_DeepCopyInto E = copy_struct
     [(''TypeMeta'', assign), (''ObjectMeta'', al_DeepCopyInto E ''ObjectMeta''),
      (''Spec'', AwsTransferFamilySpec_DeepCopyInto), (''StatusType'', StatusType_DeepCopyInto E)]"

definition AwsTransferFamily_DeepCopy :: "api_lib \<Rightarrow> copier" where
  "AwsTransferFamily_DeepCopy E = DeepCopy_by (AwsTransferFamily_DeepCopyInto E)"

definition AwsTransferFamily_DeepCopyObject :: "api_lib \<Rightarrow> heap \<Rightarrow> gval \<Rightarrow> gval option \<times> heap" where
  "AwsTransferFamily_DeepCopyObject E = DeepCopyObject_by (AwsTransferFamily_DeepCopy E)"

definition AwsTransferFamilyList_DeepCopyInto :: "api_lib \<Rightarrow> copier" where
  "AwsTransferFamilyList_DeepCopyInto E = copy_struct
     [(''TypeMeta'', assign), (''ListMeta'', al_DeepCopyInto E ''ListMeta''),
      (''Items'', new_slice (AwsTransferFamily_DeepCopyInto E))]"

definition AwsTransferFamilyList_DeepCopy :: "api_lib \<Rightarrow> copier" where
  "AwsTransferFamilyList_DeepCopy E = DeepCopy_by (AwsTransferFamilyList_DeepCopyInto E)"

definition AwsTransferFamilyList_DeepCopyObject :: "api_lib \<Rightarrow> heap \<Rightarrow> gval \<Rightarrow> gval option \<times> heap" where
  "AwsTransferFamilyList_DeepCopyObject E = DeepCopyObject_by (AwsTransferFamilyList_DeepCopy E)"

definition K8sHpaAction_DeepCopyInto :: "copier" where
  "K8sHpaAction_DeepCopyInto = copy_struct
     [(''Enabled'', new_ptr assign)]"

definition K8sHpaAction_DeepCopy :: "copier" where
  "K8sHpaAction_DeepCopy = DeepCopy_by K8sHpaAction_DeepCopyInto"

definition K8sHpaSpec_DeepCopyInto :: "api_lib \<Rightarrow> copier" where
  "K8sHpaSpec_DeepCopyInto E = copy_struct
     [(''Enabled'', new_ptr assign), (''Namespaces'', new_slice assign),
      (''LabelSelector'', al_DeepCopyInto E ''LabelSelector''),
      (''Actions'', new_map (val_DeepCopy K8sHpaAction_DeepCopy))]"

definition K8sHpaSpec_DeepCopy :: "api_lib \<Rightarrow> copier" where
  "K8sHpaSpec_DeepCopy E = DeepCopy_by (K8sHpaSpec_DeepCopyInto E)"

definition K8sHpa_DeepCopyInto :: "api_lib \<Rightarrow> copier" where
  "K8sHpa_DeepCopyInto E = copy_struct
     [(''TypeMeta'', assign), (''ObjectMeta'', al_DeepCopyInto E ''ObjectMeta''),
      (''Spec'', K8sHpaSpec_DeepCopyInto E), (''StatusType'', StatusType_DeepCopyInto E)]"

definition K8sHpa_DeepCopy :: "api_lib \<Rightarrow> copier" where
  "K8sHpa_DeepCopy E = DeepCopy_by (K8sHpa_DeepCopyInto E)"

definition K8sHpa_DeepCopyObject :: "api_lib \<Rightarrow> heap \<Rightarrow> gval \<Rightarrow> gval option \<times> heap" where
  "K8sHpa_DeepCopyObject E = DeepCopyObject_by (K8sHpa_DeepCopy E)"

definition K8sHpaList_DeepCopyInto :: "api_lib \<Rightarrow> copier" where
  "K8sHpaList_DeepCopyInto E = copy_struct
     [(''TypeMeta'', assign), (''ListMeta'', al_DeepCopyInto E ''ListMeta''),
      (''Items'', new_slice (K8sHpa_DeepCopyInto E))]"

definition K8sHpaList_DeepCopy :: "api_lib \<Rightarrow> copier" where
  "K8sHpaList_DeepCopy E = DeepCopy_by (K8sHpaList_DeepCopyInto E)"

definition K8sHpaList_DeepCopyObject :: "api_lib \<Rightarrow> heap \<Rightarrow> gval \<Rightarrow> gval option \<times> heap" where
  "K8sHpaList_DeepCopyObject E = DeepCopyObject_by (K8sHpaList_DeepCopy E)"

definition K8sPodReplicasAction_DeepCopyInto :: "copier" where
  "K8sPodReplicasAction_DeepCopyInto = copy_struct
     [(''Enabled'', new_ptr assign)]"

definition K8sPodReplicasAction_DeepCopy :: "copier" where
  "K8sPodReplicasAction_DeepCopy = DeepCopy_by K8sPodReplicasAction_DeepCopyInto"

definition K8sPodReplicasSpec_DeepCopyInto :: "api_lib \<Rightarrow> copier" where
  "K8sPodReplicasSpec_DeepCopyInto E = copy_struct
     [(''Enabled'', new_ptr assign), (''Namespaces'', new_slice assign),
      (''LabelSelector'', al_DeepCopyInto E ''LabelSelector''),
      (''Actions'', new_map (val_DeepCopy K8sPodReplicasAction_DeepCopy))]"

definition K8sPodReplicasSpec_DeepCopy :: "api_lib \<Rightarrow> copier" where
  "K8sPodReplicasSpec_DeepCopy E = DeepCopy_by (K8sPodReplicasSpec_DeepCopyInto E)"

definition K8sPodReplicas_DeepCopyInto :: "api_lib \<Rightarrow> copier" where
  "K8sPodReplicas_DeepCopyInto E = copy_struct
     [(''TypeMeta'', assign), (''ObjectMeta'', al_DeepCopyInto E ''ObjectMeta''),
      (''Spec'', K8sPodReplicasSpec_DeepCopyInto E), (''StatusType'', StatusType_DeepCopyInto E)]"

definition K8sPodReplicas_DeepCopy :: "api_lib \<Rightarrow> copier" where
  "K8sPodReplicas_DeepCopy E = DeepCopy_by (K8sPodReplicas_DeepCopyInto E)"

definition K8sPodReplicas_DeepCopyObject :: "api_lib \<Rightarrow> heap \<Rightarrow> gval \<Rightarrow> gval option \<times> heap" where
  "K8sPodReplicas_DeepCopyObject E = DeepCopyObject_by (K8sPodReplicas_DeepCopy E)"

definition K8sPodReplicasList_DeepCopyInto :: "api_lib \<Rightarrow> copier" where
  "K8sPodReplicasList_DeepCopyInto E = copy_struct
     [(''TypeMeta'', assign), (''ListMeta'', al_DeepCopyInto E ''ListMeta''),
      (''Items'', new_slice (K8sPodReplicas_DeepCopyInto E))]"

definition K8sPodReplicasList_DeepCopy :: "api_lib \<Rightarrow> copier" where
  "K8sPodReplicasList_DeepCopy E = DeepCopy_by (K8sPodReplicasList_DeepCopyInto E)"

definition K8sPodReplicasList_DeepCopyObject :: "api_lib \<Rightarrow> heap \<Rightarrow> gval \<Rightarrow> gval option \<times> heap" where
  "K8sPodReplicasList_DeepCopyObject E = DeepCopyObject_by (K8sPodReplicasList_DeepCopy E)"

definition K8sRunJobAction_DeepCopyInto :: "api_lib \<Rightarrow> copier" where
  "K8sRunJobAction_DeepCopyInto E = copy_struct
     [(''Enabled'', new_ptr assign), (''Job'', al_DeepCopyInto E ''JobSpec'')]"

definition K8sRunJobAction_DeepCopy :: "api_lib \<Rightarrow> copier" where
  "K8sRunJobAction_DeepCopy E = DeepCopy_by (K8sRunJobAction_DeepCopyInto E)"

definition K8sRunJobSpec_DeepCopyInto :: "api_lib \<Rightarrow> copier" where
  "K8sRunJobSpec_DeepCopyInto E = copy_struct
     [(''Enabled'', new_ptr assign), (''Namespaces'', new_slice assign),
      (''Actions'', new_map (val_DeepCopy (K8sRunJobAction_DeepCopy E)))]"

definition K8sRunJobSpec_DeepCopy :: "api_lib \<Rightarrow> copier" where
  "K8sRunJobSpec_DeepCopy E = DeepCopy_by (K8sRunJobSpec_DeepCopyInto E)"

definition K8sRunJob_DeepCopyInto :: "api_lib \<Rightarrow> copier" where
  "K8sRunJob_DeepCopyInto E = copy_struct
     [(''TypeMeta'', assign), (''ObjectMeta'', al_DeepCopyInto E ''ObjectMeta''),
      (''Spec'', K8sRunJobSpec_DeepCopyInto E), (''StatusType'', StatusType_DeepCopyInto E)]"

definition K8sRunJob_DeepCopy :: "api_lib \<Rightarrow> copier" where
  "K8sRunJob_DeepCopy E = DeepCopy_by (K8sRunJob_DeepCopyInto E)"

definition K8sRunJob_DeepCopyObject :: "api_lib \<Rightarrow> heap \<Rightarrow> gval \<Rightarrow> gval option \<times> heap" where
  "K8sRunJob_DeepCopyObject E = DeepCopyObject_by (K8sRunJob_DeepCopy E)"

definition K8sRunJobList_DeepCopyInto :: "api_lib \<Rightarrow> copier" where
  "K8sRunJobList_DeepCopyInto E = copy_struct
     [(''TypeMeta'', assign), (''ListMeta'', al_DeepCopyInto E ''ListMeta''),
      (''Items'', new_slice (K8sRunJob_DeepCopyInto E))]"

definition K8sRunJobList_DeepCopy :: "api_lib \<Rightarrow> copier" where
  "K8sRunJobList_DeepCopy E = DeepCopy_by (K8sRunJobList_DeepCopyInto E)"

definition K8sRunJobList_DeepCopyObject :: "api_lib \<Rightarrow> heap \<Rightarrow> gval \<Rightarrow> gval option \<times> heap" where
  "K8sRunJobList_DeepCopyObject E = DeepCopyObject_by (K8sRunJobList_DeepCopy E)"

definition NotificationPolicyApiSpec_DeepCopyInto :: "copier" where
  "NotificationPolicyApiSpec_DeepCopyInto = assign"

definition NotificationPolicyApiSpec_DeepCopy :: "copier" where
  "NotificationPolicyApiSpec_DeepCopy = DeepCopy_by NotificationPolicyApiSpec_DeepCopyInto"

definition NotificationPolicyMSTeamsSpec_DeepCopyInto :: "copier" where
  "NotificationPolicyMSTeamsSpec_DeepCopyInto = assign"

definition NotificationPolicyMSTeamsSpec_DeepCopy :: "copier" where
  "NotificationPolicyMSTeamsSpec_DeepCopy = DeepCopy_by NotificationPolicyMSTeamsSpec_DeepCopyInto"

definition NotificationPolicySlackSpec_DeepCopyInto :: "copier" where
  "NotificationPolicySlackSpec_DeepCopyInto = assign"

definition NotificationPolicySlackSpec_DeepCopy :: "copier" where
  "NotificationPolicySlackSpec_DeepCopy = DeepCopy_by NotificationPolicySlackSpec_DeepCopyInto"

definition NotificationPolicySpec_DeepCopyInto :: "copier" where
  "NotificationPolicySpec_DeepCopyInto = copy_struct
     [(''Enabled'', new_ptr assign), (''Schedules'', new_slice assign), (''Api'', new_ptr assign),
      (''MSTeams'', new_ptr assign), (''Slack'', new_ptr assign)]"

definition NotificationPolicySpec_DeepCopy :: "copier" where
  "NotificationPolicySpec_DeepCopy = DeepCopy_by NotificationPolicySpec_DeepCopyInto"

definition NotificationPolicy_DeepCopyInto :: "api_lib \<Rightarrow> copier" where
  "NotificationPolicy_DeepCopyInto E = copy_struct
     [(''TypeMeta'', assign), (''ObjectMeta'', al_DeepCopyInto E ''ObjectMeta''),
      (''Spec'', NotificationPolicySpec_DeepCopyInto), (''StatusType'', StatusType_DeepCopyInto E)]"

definition NotificationPolicy_DeepCopy :: "api_lib \<Rightarrow> copier" where
  "NotificationPolicy_DeepCopy E = DeepCopy_by (NotificationPolicy_DeepCopyInto E)"

definition NotificationPolicy_DeepCopyObject :: "api_lib \<Rightarrow> heap \<Rightarrow> gval \<Rightarrow> gval option \<times> heap" where
  "NotificationPolicy_DeepCopyObject E = DeepCopyObject_by (NotificationPolicy_DeepCopy E)"

definition NotificationPolicyList_DeepCopyInto :: "api_lib \<Rightarrow> copier" where
  "NotificationPolicyList_DeepCopyInto E = copy_struct
     [(''TypeMeta'', assign), (''ListMeta'', al_DeepCopyInto E ''ListMeta''),
      (''Items'', new_slice (NotificationPolicy_DeepCopyInto E))]"

definition NotificationPolicyList_DeepCopy :: "api_lib \<Rightarrow> copier" where
  "NotificationPolicyList_DeepCopy E = DeepCopy_by (NotificationPolicyList_DeepCopyInto E)"

definition NotificationPolicyList_DeepCopyObject :: "api_lib \<Rightarrow> heap \<Rightarrow> gval \<Rightarrow> gval option \<times> heap" where
  "NotificationPolicyList_DeepCopyObject E = DeepCopyObject_by (NotificationPolicyList_DeepCopy E)"

definition ScheduleAction_DeepCopyInto :: "copier" where
  "ScheduleAction_DeepCopyInto = copy_struct
     [(''Enabled'', new_ptr assign)]"

definition ScheduleAction_DeepCopy :: "copier" where
  "ScheduleAction_DeepCopy = DeepCopy_by ScheduleAction_DeepCopyInto"

definition TimePeriod_DeepCopyInto :: "api_lib \<Rightarrow> copier" where
  "TimePeriod_DeepCopyInto E = copy_struct
     [(''Start'', al_DeepCopyInto E ''Time''), (''End'', al_DeepCopyInto E ''Time''),
      (''Actions'', new_slice assign)]"

definition TimePeriod_DeepCopy :: "api_lib \<Rightarrow> copier" where
  "TimePeriod_DeepCopy E = DeepCopy_by (TimePeriod_DeepCopyInto E)"

definition ScheduleSpec_DeepCopyInto :: "api_lib \<Rightarrow> copier" where
  "ScheduleSpec_DeepCopyInto E = copy_struct
     [(''Enabled'', new_ptr assign), (''Actions'', new_map (val_DeepCopy ScheduleAction_DeepCopy)),
      (''ActivePeriods'', new_slice (TimePeriod_DeepCopyInto E)),
      (''InactivePeriods'', new_slice (TimePeriod_DeepCopyInto E))]"

definition ScheduleSpec_DeepCopy :: "api_lib \<Rightarrow> copier" where
  "ScheduleSpec_DeepCopy E = DeepCopy_by (ScheduleSpec_DeepCopyInto E)"

definition Schedule_DeepCopyInto :: "api_lib \<Rightarrow> copier" where
  "Schedule_DeepCopyInto E = copy_struct
     [(''TypeMeta'', assign), (''ObjectMeta'', al_DeepCopyInto E ''ObjectMeta''),
      (''Spec'', ScheduleSpec_DeepCopyInto E), (''StatusType'', StatusType_DeepCopyInto E)]"

definition Schedule_DeepCopy :: "api_lib \<Rightarrow> copier" where
  "Schedule_DeepCopy E = DeepCopy_by (Schedule_DeepCopyInto E)"

definition Schedule_DeepCopyObject :: "api_lib \<Rightarrow> heap \<Rightarrow> gval \<Rightarrow> gval option \<times> heap" where
  "Schedule_DeepCopyObject E = DeepCopyObject_by (Schedule_DeepCopy E)"

definition ScheduleList_DeepCopyInto :: "api_lib \<Rightarrow> copier" where
  "ScheduleList_DeepCopyInto E = copy_struct
     [(''TypeMeta'', assign), (''ListMeta'', al_DeepCopyInto E ''ListMeta''),
      (''Items'', new_slice (Schedule_DeepCopyInto E))]"

definition ScheduleList_DeepCopy :: "api_lib \<Rightarrow> copier" where
  "ScheduleList_DeepCopy E = DeepCopy_by (ScheduleList_DeepCopyInto E)"

definition ScheduleList_DeepCopyObject :: "api_lib \<Rightarrow> heap \<Rightarrow> gval \<Rightarrow> gval option \<times> heap" where
  "ScheduleList_DeepCopyObject E = DeepCopyObject_by (ScheduleList_DeepCopy E)"


section \<open>Every function copies its type\<close>

text \<open>The types copied by assignment alone hold no references.\<close>

lemma flat_types [simp]: "flat AwsCredentialsKeysRef_type"
  "flat AwsDocumentDBClusterIdentifier_type"
  "flat AwsEc2InstanceIdentifier_type"
  "flat AwsRdsAuroraClusterIdentifier_type"
  "flat AwsTransferFamilyIdentifier_type"
  "flat NotificationPolicyApiSpec_type"
  "flat NotificationPolicyMSTeamsSpec_type"
  "flat NotificationPolicySlackSpec_type"
  by (simp_all add: AwsCredentialsKeysRef_type_def
      AwsDocumentDBClusterIdentifier_type_def
      AwsEc2InstanceIdentifier_type_def
      AwsRdsAuroraClusterIdentifier_type_def
      AwsTransferFamilyIdentifier_type_def
      NotificationPolicyApiSpec_type_def
      NotificationPolicyMSTeamsSpec_type_def
      NotificationPolicySlackSpec_type_def)

lemma flat_ActionExecutionSpec [copies_intros]: "api_lib_ok E \<Longrightarrow> flat (ActionExecutionSpec_type E)"
  by (simp add: ActionExecutionSpec_type_def api_lib_okD)

lemma copies_ActionExecutionSpec [copies_intros]:
  assumes "api_lib_ok E"
  shows "copies (ActionExecutionSpec_DeepCopyInto E) (ActionExecutionSpec_type E)"
  unfolding ActionExecutionSpec_DeepCopyInto_def ActionExecutionSpec_type_def
  by (rule copies_copy_struct) (simp_all add: copies_intros api_lib_okD [OF assms] assms)

lemma copies_ActionExecutionSpec_DeepCopy [copies_intros]:
  assumes "api_lib_ok E"
  shows "copies (ActionExecutionSpec_DeepCopy E) (TPtr (ActionExecutionSpec_type E))"
  unfolding ActionExecutionSpec_DeepCopy_def by (rule copies_DeepCopy) (simp add: copies_intros assms)

lemma copies_ActionExecutionStatus [copies_intros]:
  assumes "api_lib_ok E"
  shows "copies (ActionExecutionStatus_DeepCopyInto E) (ActionExecutionStatus_type E)"
  unfolding ActionExecutionStatus_DeepCopyInto_def ActionExecutionStatus_type_def
  by (rule copies_copy_struct) (simp_all add: copies_intros api_lib_okD [OF assms] assms)

lemma copies_ActionExecutionStatus_DeepCopy [copies_intros]:
  assumes "api_lib_ok E"
  shows "copies (ActionExecutionStatus_DeepCopy E) (TPtr (ActionExecutionStatus_type E))"
  unfolding ActionExecutionStatus_DeepCopy_def by (rule copies_DeepCopy) (simp add: copies_intros assms)

lemma copies_ActionExecution [copies_intros]:
  assumes "api_lib_ok E"
  shows "copies (ActionExecution_DeepCopyInto E) (ActionExecution_type E)"
  unfolding ActionExecution_DeepCopyInto_def ActionExecution_type_def
  by (rule copies_copy_struct) (simp_all add: copies_intros api_lib_okD [OF assms] assms)

lemma copies_ActionExecution_DeepCopy [copies_intros]:
  assumes "api_lib_ok E"
  shows "copies (ActionExecution_DeepCopy E) (TPtr (ActionExecution_type E))"
  unfolding ActionExecution_DeepCopy_def by (rule copies_DeepCopy) (simp add: copies_intros assms)

lemma copies_ActionExecutionList [copies_intros]:
  assumes "api_lib_ok E"
  shows "copies (ActionExecutionList_DeepCopyInto E) (ActionExecutionList_type E)"
  unfolding ActionExecutionList_DeepCopyInto_def ActionExecutionList_type_def
  by (rule copies_copy_struct) (simp_all add: copies_intros api_lib_okD [OF assms] assms)

lemma copies_ActionExecutionList_DeepCopy [copies_intros]:
  assumes "api_lib_ok E"
  shows "copies (ActionExecutionList_DeepCopy E) (TPtr (ActionExecutionList_type E))"
  unfolding ActionExecutionList_DeepCopy_def by (rule copies_DeepCopy) (simp add: copies_intros assms)

lemma copies_AwsCredentialsKeysRef [copies_intros]:
  "copies AwsCredentialsKeysRef_DeepCopyInto AwsCredentialsKeysRef_type"
  unfolding AwsCredentialsKeysRef_DeepCopyInto_def by (rule copies_assign) (simp add: AwsCredentialsKeysRef_type_def)

lemma copies_AwsCredentialsKeysRef_DeepCopy [copies_intros]:
  "copies AwsCredentialsKeysRef_DeepCopy (TPtr AwsCredentialsKeysRef_type)"
  unfolding AwsCredentialsKeysRef_DeepCopy_def by (rule copies_DeepCopy) (simp add: copies_intros)

lemma copies_AwsCredentialsSpec [copies_intros]:
  "copies AwsCredentialsSpec_DeepCopyInto AwsCredentialsSpec_type"
  unfolding AwsCredentialsSpec_DeepCopyInto_def AwsCredentialsSpec_type_def
  by (rule copies_copy_struct) (simp_all add: copies_intros)

lemma copies_AwsCredentialsSpec_DeepCopy [copies_intros]:
  "copies AwsCredentialsSpec_DeepCopy (TPtr AwsCredentialsSpec_type)"
  unfolding AwsCredentialsSpec_DeepCopy_def by (rule copies_DeepCopy) (simp add: copies_intros)

lemma copies_AwsDocumentDBClusterAction [copies_intros]:
  "copies AwsDocumentDBClusterAction_DeepCopyInto AwsDocumentDBClusterAction_type"
  unfolding AwsDocumentDBClusterAction_DeepCopyInto_def AwsDocumentDBClusterAction_type_def
  by (rule copies_copy_struct) (simp_all add: copies_intros)

lemma copies_AwsDocumentDBClusterAction_DeepCopy [copies_intros]:
  "copies AwsDocumentDBClusterAction_DeepCopy (TPtr AwsDocumentDBClusterAction_type)"
  unfolding AwsDocumentDBClusterAction_DeepCopy_def by (rule copies_DeepCopy) (simp add: copies_intros)

lemma copies_AwsDocumentDBClusterIdentifier [copies_intros]:
  "copies AwsDocumentDBClusterIdentifier_DeepCopyInto AwsDocumentDBClusterIdentifier_type"
  unfolding AwsDocumentDBClusterIdentifier_DeepCopyInto_def by (rule copies_assign) (simp add: AwsDocumentDBClusterIdentifier_type_def)

lemma copies_AwsDocumentDBClusterIdentifier_DeepCopy [copies_intros]:
  "copies AwsDocumentDBClusterIdentifier_DeepCopy (TPtr AwsDocumentDBClusterIdentifier_type)"
  unfolding AwsDocumentDBClusterIdentifier_DeepCopy_def by (rule copies_DeepCopy) (simp add: copies_intros)

lemma copies_AwsDocumentDBClusterSpec [copies_intros]:
  "copies AwsDocumentDBClusterSpec_DeepCopyInto AwsDocumentDBClusterSpec_type"
  unfolding AwsDocumentDBClusterSpec_DeepCopyInto_def AwsDocumentDBClusterSpec_type_def
  by (rule copies_copy_struct) (simp_all add: copies_intros)

lemma copies_AwsDocumentDBClusterSpec_DeepCopy [copies_intros]:
  "copies AwsDocumentDBClusterSpec_DeepCopy (TPtr AwsDocumentDBClusterSpec_type)"
  unfolding AwsDocumentDBClusterSpec_DeepCopy_def by (rule copies_DeepCopy) (simp add: copies_intros)

lemma copies_Status [copies_intros]:
  assumes "api_lib_ok E"
  shows "copies (Status_DeepCopyInto E) (Status_type E)"
  unfolding Status_DeepCopyInto_def Status_type_def
  by (rule copies_copy_struct) (simp_all add: copies_intros api_lib_okD [OF assms] assms)

lemma copies_Status_DeepCopy [copies_intros]:
  assumes "api_lib_ok E"
  shows "copies (Status_DeepCopy E) (TPtr (Status_type E))"
  unfolding Status_DeepCopy_def by (rule copies_DeepCopy) (simp add: copies_intros assms)

lemma copies_StatusType [copies_intros]:
  assumes "api_lib_ok E"
  shows "copies (StatusType_DeepCopyInto E) (StatusType_type E)"
  unfolding StatusType_DeepCopyInto_def StatusType_type_def
  by (rule copies_copy_struct) (simp_all add: copies_intros api_lib_okD [OF assms] assms)

lemma copies_StatusType_DeepCopy [copies_intros]:
  assumes "api_lib_ok E"
  shows "copies (StatusType_DeepCopy E) (TPtr (StatusType_type E))"
  unfolding StatusType_DeepCopy_def by (rule copies_DeepCopy) (simp add: copies_intros assms)

lemma copies_AwsDocumentDBCluster [copies_intros]:
  assumes "api_lib_ok E"
  shows "copies (AwsDocumentDBCluster_DeepCopyInto E) (AwsDocumentDBCluster_type E)"
  unfolding AwsDocumentDBCluster_DeepCopyInto_def AwsDocumentDBCluster_type_def
  by (rule copies_copy_struct) (simp_all add: copies_intros api_lib_okD [OF assms] assms)

lemma copies_AwsDocumentDBCluster_DeepCopy [copies_intros]:
  assumes "api_lib_ok E"
  shows "copies (AwsDocumentDBCluster_DeepCopy E) (TPtr (AwsDocumentDBCluster_type E))"
  unfolding AwsDocumentDBCluster_DeepCopy_def by (rule copies_DeepCopy) (simp add: copies_intros assms)

lemma copies_AwsDocumentDBClusterList [copies_intros]:
  assumes "api_lib_ok E"
  shows "copies (AwsDocumentDBClusterList_DeepCopyInto E) (AwsDocumentDBClusterList_type E)"
  unfolding AwsDocumentDBClusterList_DeepCopyInto_def AwsDocumentDBClusterList_type_def
  by (rule copies_copy_struct) (simp_all add: copies_intros api_lib_okD [OF assms] assms)

lemma copies_AwsDocumentDBClusterList_DeepCopy [copies_intros]:
  assumes "api_lib_ok E"
  shows "copies (AwsDocumentDBClusterList_DeepCopy E) (TPtr (AwsDocumentDBClusterList_type E))"
  unfolding AwsDocumentDBClusterList_DeepCopy_def by (rule copies_DeepCopy) (simp add: copies_intros assms)

lemma copies_AwsEc2InstanceAction [copies_intros]:
  "copies AwsEc2InstanceAction_DeepCopyInto AwsEc2InstanceAction_type"
  unfolding AwsEc2InstanceAction_DeepCopyInto_def AwsEc2InstanceAction_type_def
  by (rule copies_copy_struct) (simp_all add: copies_intros)

lemma copies_AwsEc2InstanceAction_DeepCopy [copies_intros]:
  "copies AwsEc2InstanceAction_DeepCopy (TPtr AwsEc2InstanceAction_type)"
  unfolding AwsEc2InstanceAction_DeepCopy_def by (rule copies_DeepCopy) (simp add: copies_intros)

lemma copies_AwsEc2InstanceIdentifier [copies_intros]:
  "copies AwsEc2InstanceIdentifier_DeepCopyInto AwsEc2InstanceIdentifier_type"
  unfolding AwsEc2InstanceIdentifier_DeepCopyInto_def by (rule copies_assign) (simp add: AwsEc2InstanceIdentifier_type_def)

lemma copies_AwsEc2InstanceIdentifier_DeepCopy [copies_intros]:
  "copies AwsEc2InstanceIdentifier_DeepCopy (TPtr AwsEc2InstanceIdentifier_type)"
  unfolding AwsEc2InstanceIdentifier_DeepCopy_def by (rule copies_DeepCopy) (simp add: copies_intros)

lemma copies_AwsEc2InstanceSpec [copies_intros]:
  "copies AwsEc2InstanceSpec_DeepCopyInto AwsEc2InstanceSpec_type"
  unfolding AwsEc2InstanceSpec_DeepCopyInto_def AwsEc2InstanceSpec_type_def
  by (rule copies_copy_struct) (simp_all add: copies_intros)

lemma copies_AwsEc2InstanceSpec_DeepCopy [copies_intros]:
  "copies AwsEc2InstanceSpec_DeepCopy (TPtr AwsEc2InstanceSpec_type)"
  unfolding AwsEc2InstanceSpec_DeepCopy_def by (rule copies_DeepCopy) (simp add: copies_intros)

lemma copies_AwsEc2Instance [copies_intros]:
  assumes "api_lib_ok E"
  shows "copies (AwsEc2Instance_DeepCopyInto E) (AwsEc2Instance_type E)"
  unfolding AwsEc2Instance_DeepCopyInto_def AwsEc2Instance_type_def
  by (rule copies_copy_struct) (simp_all add: copies_intros api_lib_okD [OF assms] assms)

lemma copies_AwsEc2Instance_DeepCopy [copies_intros]:
  assumes "api_lib_ok E"
  shows "copies (AwsEc2Instance_DeepCopy E) (TPtr (AwsEc2Instance_type E))"
  unfolding AwsEc2Instance_DeepCopy_def by (rule copies_DeepCopy) (simp add: copies_intros assms)

lemma copies_AwsEc2InstanceList [copies_intros]:
  assumes "api_lib_ok E"
  shows "copies (AwsEc2InstanceList_DeepCopyInto E) (AwsEc2InstanceList_type E)"
  unfolding AwsEc2InstanceList_DeepCopyInto_def AwsEc2InstanceList_type_def
  by (rule copies_copy_struct) (simp_all add: copies_intros api_lib_okD [OF assms] assms)

lemma copies_AwsEc2InstanceList_DeepCopy [copies_intros]:
  assumes "api_lib_ok E"
  shows "copies (AwsEc2InstanceList_DeepCopy E) (TPtr (AwsEc2InstanceList_type E))"
  unfolding AwsEc2InstanceList_DeepCopy_def by (rule copies_DeepCopy) (simp add: copies_intros assms)

lemma copies_AwsRdsAuroraClusterAction [copies_intros]:
  "copies AwsRdsAuroraClusterAction_DeepCopyInto AwsRdsAuroraClusterAction_type"
  unfolding AwsRdsAuroraClusterAction_DeepCopyInto_def AwsRdsAuroraClusterAction_type_def
  by (rule copies_copy_struct) (simp_all add: copies_intros)

lemma copies_AwsRdsAuroraClusterAction_DeepCopy [copies_intros]:
  "copies AwsRdsAuroraClusterAction_DeepCopy (TPtr AwsRdsAuroraClusterAction_type)"
  unfolding AwsRdsAuroraClusterAction_DeepCopy_def by (rule copies_DeepCopy) (simp add: copies_intros)

lemma copies_AwsRdsAuroraClusterIdentifier [copies_intros]:
  "copies AwsRdsAuroraClusterIdentifier_DeepCopyInto AwsRdsAuroraClusterIdentifier_type"
  unfolding AwsRdsAuroraClusterIdentifier_DeepCopyInto_def by (rule copies_assign) (simp add: AwsRdsAuroraClusterIdentifier_type_def)

lemma copies_AwsRdsAuroraClusterIdentifier_DeepCopy [copies_intros]:
  "copies AwsRdsAuroraClusterIdentifier_DeepCopy (TPtr AwsRdsAuroraClusterIdentifier_type)"
  unfolding AwsRdsAuroraClusterIdentifier_DeepCopy_def by (rule copies_DeepCopy) (simp add: copies_intros)

lemma copies_AwsRdsAuroraClusterSpec [copies_intros]:
  "copies AwsRdsAuroraClusterSpec_DeepCopyInto AwsRdsAuroraClusterSpec_type"
  unfolding AwsRdsAuroraClusterSpec_DeepCopyInto_def AwsRdsAuroraClusterSpec_type_def
  by (rule copies_copy_struct) (simp_all add: copies_intros)

lemma copies_AwsRdsAuroraClusterSpec_DeepCopy [copies_intros]:
  "copies AwsRdsAuroraClusterSpec_DeepCopy (TPtr AwsRdsAuroraClusterSpec_type)"
  unfolding AwsRdsAuroraClusterSpec_DeepCopy_def by (rule copies_DeepCopy) (simp add: copies_intros)

lemma copies_AwsRdsAuroraCluster [copies_intros]:
  assumes "api_lib_ok E"
  shows "copies (AwsRdsAuroraCluster_DeepCopyInto E) (AwsRdsAuroraCluster_type E)"
  unfolding AwsRdsAuroraCluster_DeepCopyInto_def AwsRdsAuroraCluster_type_def
  by (rule copies_copy_struct) (simp_all add: copies_intros api_lib_okD [OF assms] assms)

lemma copies_AwsRdsAuroraCluster_DeepCopy [copies_intros]:
  assumes "api_lib_ok E"
  shows "copies (AwsRdsAuroraCluster_DeepCopy E) (TPtr (AwsRdsAuroraCluster_type E))"
  unfolding AwsRdsAuroraCluster_DeepCopy_def by (rule copies_DeepCopy) (simp add: copies_intros assms)

lemma copies_AwsRdsAuroraClusterList [copies_intros]:
  assumes "api_lib_ok E"
  shows "copies (AwsRdsAuroraClusterList_DeepCopyInto E) (AwsRdsAuroraClusterList_type E)"
  unfolding AwsRdsAuroraClusterList_DeepCopyInto_def AwsRdsAuroraClusterList_type_def
  by (rule copies_copy_struct) (simp_all add: copies_intros api_lib_okD [OF assms] assms)

lemma copies_AwsRdsAuroraClusterList_DeepCopy [copies_intros]:
  assumes "api_lib_ok E"
  shows "copies (AwsRdsAuroraClusterList_DeepCopy E) (TPtr (AwsRdsAuroraClusterList_type E))"
  unfolding AwsRdsAuroraClusterList_DeepCopy_def by (rule copies_DeepCopy) (simp add: copies_intros assms)

lemma copies_AwsTransferFamilyAction [copies_intros]:
  "copies AwsTransferFamilyAction_DeepCopyInto AwsTransferFamilyAction_type"
  unfolding AwsTransferFamilyAction_DeepCopyInto_def AwsTransferFamilyAction_type_def
  by (rule copies_copy_struct) (simp_all add: copies_intros)

lemma copies_AwsTransferFamilyAction_DeepCopy [copies_intros]:
  "copies AwsTransferFamilyAction_DeepCopy (TPtr AwsTransferFamilyAction_type)"
  unfolding AwsTransferFamilyAction_DeepCopy_def by (rule copies_DeepCopy) (simp add: copies_intros)

lemma copies_AwsTransferFamilyIdentifier [copies_intros]:
  "copies AwsTransferFamilyIdentifier_DeepCopyInto AwsTransferFamilyIdentifier_type"
  unfolding AwsTransferFamilyIdentifier_DeepCopyInto_def by (rule copies_assign) (simp add: AwsTransferFamilyIdentifier_type_def)

lemma copies_AwsTransferFamilyIdentifier_DeepCopy [copies_intros]:
  "copies AwsTransferFamilyIdentifier_DeepCopy (TPtr AwsTransferFamilyIdentifier_type)"
  unfolding AwsTransferFamilyIdentifier_DeepCopy_def by (rule copies_DeepCopy) (simp add: copies_intros)

lemma copies_AwsTransferFamilySpec [copies_intros]:
  "copies AwsTransferFamilySpec_DeepCopyInto AwsTransferFamilySpec_type"
  unfolding AwsTransferFamilySpec_DeepCopyInto_def AwsTransferFamilySpec_type_def
  by (rule copies_copy_struct) (simp_all add: copies_intros)

lemma copies_AwsTransferFamilySpec_DeepCopy [copies_intros]:
  "copies AwsTransferFamilySpec_DeepCopy (TPtr AwsTransferFamilySpec_type)"
  unfolding AwsTransferFamilySpec_DeepCopy_def by (rule copies_DeepCopy) (simp add: copies_intros)

lemma copies_AwsTransferFamily [copies_intros]:
  assumes "api_lib_ok E"
  shows "copies (AwsTransferFamily_DeepCopyInto E) (AwsTransferFamily_type E)"
  unfolding AwsTransferFamily_DeepCopyInto_def AwsTransferFamily_type_def
  by (rule copies_copy_struct) (simp_all add: copies_intros api_lib_okD [OF assms] assms)

lemma copies_AwsTransferFamily_DeepCopy [copies_intros]:
  assumes "api_lib_ok E"
  shows "copies (AwsTransferFamily_DeepCopy E) (TPtr (AwsTransferFamily_type E))"
  unfolding AwsTransferFamily_DeepCopy_def by (rule copies_DeepCopy) (simp add: copies_intros assms)

lemma copies_AwsTransferFamilyList [copies_intros]:
  assumes "api_lib_ok E"
  shows "copies (AwsTransferFamilyList_DeepCopyInto E) (AwsTransferFamilyList_type E)"
  unfolding AwsTransferFamilyList_DeepCopyInto_def AwsTransferFamilyList_type_def
  by (rule copies_copy_struct) (simp_all add: copies_intros api_lib_okD [OF assms] assms)

lemma copies_AwsTransferFamilyList_DeepCopy [copies_intros]:
  assumes "api_lib_ok E"
  shows "copies (AwsTransferFamilyList_DeepCopy E) (TPtr (AwsTransferFamilyList_type E))"
  unfolding AwsTransferFamilyList_DeepCopy_def by (rule copies_DeepCopy) (simp add: copies_intros assms)

lemma copies_K8sHpaAction [copies_intros]:
  "copies K8sHpaAction_DeepCopyInto K8sHpaAction_type"
  unfolding K8sHpaAction_DeepCopyInto_def K8sHpaAction_type_def
  by (rule copies_copy_struct) (simp_all add: copies_intros)

lemma copies_K8sHpaAction_DeepCopy [copies_intros]:
  "copies K8sHpaAction_DeepCopy (TPtr K8sHpaAction_type)"
  unfolding K8sHpaAction_DeepCopy_def by (rule copies_DeepCopy) (simp add: copies_intros)

lemma copies_K8sHpaSpec [copies_intros]:
  assumes "api_lib_ok E"
  shows "copies (K8sHpaSpec_DeepCopyInto E) (K8sHpaSpec_type E)"
  unfolding K8sHpaSpec_DeepCopyInto_def K8sHpaSpec_type_def
  by (rule copies_copy_struct) (simp_all add: copies_intros api_lib_okD [OF assms] assms)

lemma copies_K8sHpaSpec_DeepCopy [copies_intros]:
  assumes "api_lib_ok E"
  shows "copies (K8sHpaSpec_DeepCopy E) (TPtr (K8sHpaSpec_type E))"
  unfolding K8sHpaSpec_DeepCopy_def by (rule copies_DeepCopy) (simp add: copies_intros assms)

lemma copies_K8sHpa [copies_intros]:
  assumes "api_lib_ok E"
  shows "copies (K8sHpa_DeepCopyInto E) (K8sHpa_type E)"
  unfolding K8sHpa_DeepCopyInto_def K8sHpa_type_def
  by (rule copies_copy_struct) (simp_all add: copies_intros api_lib_okD [OF assms] assms)

lemma copies_K8sHpa_DeepCopy [copies_intros]:
  assumes "api_lib_ok E"
  shows "copies (K8sHpa_DeepCopy E) (TPtr (K8sHpa_type E))"
  unfolding K8sHpa_DeepCopy_def by (rule copies_DeepCopy) (simp add: copies_intros assms)

lemma copies_K8sHpaList [copies_intros]:
  assumes "api_lib_ok E"
  shows "copies (K8sHpaList_DeepCopyInto E) (K8sHpaList_type E)"
  unfolding K8sHpaList_DeepCopyInto_def K8sHpaList_type_def
  by (rule copies_copy_struct) (simp_all add: copies_intros api_lib_okD [OF assms] assms)

lemma copies_K8sHpaList_DeepCopy [copies_intros]:
  assumes "api_lib_ok E"
  shows "copies (K8sHpaList_DeepCopy E) (TPtr (K8sHpaList_type E))"
  unfolding K8sHpaList_DeepCopy_def by (rule copies_DeepCopy) (simp add: copies_intros assms)

lemma copies_K8sPodReplicasAction [copies_intros]:
  "copies K8sPodReplicasAction_DeepCopyInto K8sPodReplicasAction_type"
  unfolding K8sPodReplicasAction_DeepCopyInto_def K8sPodReplicasAction_type_def
  by (rule copies_copy_struct) (simp_all add: copies_intros)

lemma copies_K8sPodReplicasAction_DeepCopy [copies_intros]:
  "copies K8sPodReplicasAction_DeepCopy (TPtr K8sPodReplicasAction_type)"
  unfolding K8sPodReplicasAction_DeepCopy_def by (rule copies_DeepCopy) (simp add: copies_intros)

lemma copies_K8sPodReplicasSpec [copies_intros]:
  assumes "api_lib_ok E"
  shows "copies (K8sPodReplicasSpec_DeepCopyInto E) (K8sPodReplicasSpec_type E)"
  unfolding K8sPodReplicasSpec_DeepCopyInto_def K8sPodReplicasSpec_type_def
  by (rule copies_copy_struct) (simp_all add: copies_intros api_lib_okD [OF assms] assms)

lemma copies_K8sPodReplicasSpec_DeepCopy [copies_intros]:
  assumes "api_lib_ok E"
  shows "copies (K8sPodReplicasSpec_DeepCopy E) (TPtr (K8sPodReplicasSpec_type E))"
  unfolding K8sPodReplicasSpec_DeepCopy_def by (rule copies_DeepCopy) (simp add: copies_intros assms)

lemma copies_K8sPodReplicas [copies_intros]:
  assumes "api_lib_ok E"
  shows "copies (K8sPodReplicas_DeepCopyInto E) (K8sPodReplicas_type E)"
  unfolding K8sPodReplicas_DeepCopyInto_def K8sPodReplicas_type_def
  by (rule copies_copy_struct) (simp_all add: copies_intros api_lib_okD [OF assms] assms)

lemma copies_K8sPodReplicas_DeepCopy [copies_intros]:
  assumes "api_lib_ok E"
  shows "copies (K8sPodReplicas_DeepCopy E) (TPtr (K8sPodReplicas_type E))"
  unfolding K8sPodReplicas_DeepCopy_def by (rule copies_DeepCopy) (simp add: copies_intros assms)

lemma copies_K8sPodReplicasList [copies_intros]:
  assumes "api_lib_ok E"
  shows "copies (K8sPodReplicasList_DeepCopyInto E) (K8sPodReplicasList_type E)"
  unfolding K8sPodReplicasList_DeepCopyInto_def K8sPodReplicasList_type_def
  by (rule copies_copy_struct) (simp_all add: copies_intros api_lib_okD [OF assms] assms)

lemma copies_K8sPodReplicasList_DeepCopy [copies_intros]:
  assumes "api_lib_ok E"
  shows "copies (K8sPodReplicasList_DeepCopy E) (TPtr (K8sPodReplicasList_type E))"
  unfolding K8sPodReplicasList_DeepCopy_def by (rule copies_DeepCopy) (simp add: copies_intros assms)

lemma copies_K8sRunJobAction [copies_intros]:
  assumes "api_lib_ok E"
  shows "copies (K8sRunJobAction_DeepCopyInto E) (K8sRunJobAction_type E)"
  unfolding K8sRunJobAction_DeepCopyInto_def K8sRunJobAction_type_def
  by (rule copies_copy_struct) (simp_all add: copies_intros api_lib_okD [OF assms] assms)

lemma copies_K8sRunJobAction_DeepCopy [copies_intros]:
  assumes "api_lib_ok E"
  shows "copies (K8sRunJobAction_DeepCopy E) (TPtr (K8sRunJobAction_type E))"
  unfolding K8sRunJobAction_DeepCopy_def by (rule copies_DeepCopy) (simp add: copies_intros assms)

lemma copies_K8sRunJobSpec [copies_intros]:
  assumes "api_lib_ok E"
  shows "copies (K8sRunJobSpec_DeepCopyInto E) (K8sRunJobSpec_type E)"
  unfolding K8sRunJobSpec_DeepCopyInto_def K8sRunJobSpec_type_def
  by (rule copies_copy_struct) (simp_all add: copies_intros api_lib_okD [OF assms] assms)

lemma copies_K8sRunJobSpec_DeepCopy [copies_intros]:
  assumes "api_lib_ok E"
  shows "copies (K8sRunJobSpec_DeepCopy E) (TPtr (K8sRunJobSpec_type E))"
  unfolding K8sRunJobSpec_DeepCopy_def by (rule copies_DeepCopy) (simp add: copies_intros assms)

lemma copies_K8sRunJob [copies_intros]:
  assumes "api_lib_ok E"
  shows "copies (K8sRunJob_DeepCopyInto E) (K8sRunJob_type E)"
  unfolding K8sRunJob_DeepCopyInto_def K8sRunJob_type_def
  by (rule copies_copy_struct) (simp_all add: copies_intros api_lib_okD [OF assms] assms)

lemma copies_K8sRunJob_DeepCopy [copies_intros]:
  assumes "api_lib_ok E"
  shows "copies (K8sRunJob_DeepCopy E) (TPtr (K8sRunJob_type E))"
  unfolding K8sRunJob_DeepCopy_def by (rule copies_DeepCopy) (simp add: copies_intros assms)

lemma copies_K8sRunJobList [copies_intros]:
  assumes "api_lib_ok E"
  shows "copies (K8sRunJobList_DeepCopyInto E) (K8sRunJobList_type E)"
  unfolding K8sRunJobList_DeepCopyInto_def K8sRunJobList_type_def
  by (rule copies_copy_struct) (simp_all add: copies_intros api_lib_okD [OF assms] assms)

lemma copies_K8sRunJobList_DeepCopy [copies_intros]:
  assumes "api_lib_ok E"
  shows "copies (K8sRunJobList_DeepCopy E) (TPtr (K8sRunJobList_type E))"
  unfolding K8sRunJobList_DeepCopy_def by (rule copies_DeepCopy) (simp add: copies_intros assms)

lemma copies_NotificationPolicyApiSpec [copies_intros]:
  "copies NotificationPolicyApiSpec_DeepCopyInto NotificationPolicyApiSpec_type"
  unfolding NotificationPolicyApiSpec_DeepCopyInto_def by (rule copies_assign) (simp add: NotificationPolicyApiSpec_type_def)

lemma copies_NotificationPolicyApiSpec_DeepCopy [copies_intros]:
  "copies NotificationPolicyApiSpec_DeepCopy (TPtr NotificationPolicyApiSpec_type)"
  unfolding NotificationPolicyApiSpec_DeepCopy_def by (rule copies_DeepCopy) (simp add: copies_intros)

lemma copies_NotificationPolicyMSTeamsSpec [copies_intros]:
  "copies NotificationPolicyMSTeamsSpec_DeepCopyInto NotificationPolicyMSTeamsSpec_type"
  unfolding NotificationPolicyMSTeamsSpec_DeepCopyInto_def by (rule copies_assign) (simp add: NotificationPolicyMSTeamsSpec_type_def)

lemma copies_NotificationPolicyMSTeamsSpec_DeepCopy [copies_intros]:
  "copies NotificationPolicyMSTeamsSpec_DeepCopy (TPtr NotificationPolicyMSTeamsSpec_type)"
  unfolding NotificationPolicyMSTeamsSpec_DeepCopy_def by (rule copies_DeepCopy) (simp add: copies_intros)

lemma copies_NotificationPolicySlackSpec [copies_intros]:
  "copies NotificationPolicySlackSpec_DeepCopyInto NotificationPolicySlackSpec_type"
  unfolding NotificationPolicySlackSpec_DeepCopyInto_def by (rule copies_assign) (simp add: NotificationPolicySlackSpec_type_def)

lemma copies_NotificationPolicySlackSpec_DeepCopy [copies_intros]:
  "copies NotificationPolicySlackSpec_DeepCopy (TPtr NotificationPolicySlackSpec_type)"
  unfolding NotificationPolicySlackSpec_DeepCopy_def by (rule copies_DeepCopy) (simp add: copies_intros)

lemma copies_NotificationPolicySpec [copies_intros]:
  "copies NotificationPolicySpec_DeepCopyInto NotificationPolicySpec_type"
  unfolding NotificationPolicySpec_DeepCopyInto_def NotificationPolicySpec_type_def
  by (rule copies_copy_struct) (simp_all add: copies_intros)

lemma copies_NotificationPolicySpec_DeepCopy [copies_intros]:
  "copies NotificationPolicySpec_DeepCopy (TPtr NotificationPolicySpec_type)"
  unfolding NotificationPolicySpec_DeepCopy_def by (rule copies_DeepCopy) (simp add: copies_intros)

lemma copies_NotificationPolicy [copies_intros]:
  assumes "api_lib_ok E"
  shows "copies (NotificationPolicy_DeepCopyInto E) (NotificationPolicy_type E)"
  unfolding NotificationPolicy_DeepCopyInto_def NotificationPolicy_type_def
  by (rule copies_copy_struct) (simp_all add: copies_intros api_lib_okD [OF assms] assms)

lemma copies_NotificationPolicy_DeepCopy [copies_intros]:
  assumes "api_lib_ok E"
  shows "copies (NotificationPolicy_DeepCopy E) (TPtr (NotificationPolicy_type E))"
  unfolding NotificationPolicy_DeepCopy_def by (rule copies_DeepCopy) (simp add: copies_intros assms)

lemma copies_NotificationPolicyList [copies_intros]:
  assumes "api_lib_ok E"
  shows "copies (NotificationPolicyList_DeepCopyInto E) (NotificationPolicyList_type E)"
  unfolding NotificationPolicyList_DeepCopyInto_def NotificationPolicyList_type_def
  by (rule copies_copy_struct) (simp_all add: copies_intros api_lib_okD [OF assms] assms)

lemma copies_NotificationPolicyList_DeepCopy [copies_intros]:
  assumes "api_lib_ok E"
  shows "copies (NotificationPolicyList_DeepCopy E) (TPtr (NotificationPolicyList_type E))"
  unfolding NotificationPolicyList_DeepCopy_def by (rule copies_DeepCopy) (simp add: copies_intros assms)

lemma copies_ScheduleAction [copies_intros]:
  "copies ScheduleAction_DeepCopyInto ScheduleAction_type"
  unfolding ScheduleAction_DeepCopyInto_def ScheduleAction_type_def
  by (rule copies_copy_struct) (simp_all add: copies_intros)

lemma copies_ScheduleAction_DeepCopy [copies_intros]:
  "copies ScheduleAction_DeepCopy (TPtr ScheduleAction_type)"
  unfolding ScheduleAction_DeepCopy_def by (rule copies_DeepCopy) (simp add: copies_intros)

lemma copies_TimePeriod [copies_intros]:
  assumes "api_lib_ok E"
  shows "copies (TimePeriod_DeepCopyInto E) (TimePeriod_type E)"
  unfolding TimePeriod_DeepCopyInto_def TimePeriod_type_def
  by (rule copies_copy_struct) (simp_all add: copies_intros api_lib_okD [OF assms] assms)

lemma copies_TimePeriod_DeepCopy [copies_intros]:
  assumes "api_lib_ok E"
  shows "copies (TimePeriod_DeepCopy E) (TPtr (TimePeriod_type E))"
  unfolding TimePeriod_DeepCopy_def by (rule copies_DeepCopy) (simp add: copies_intros assms)

lemma copies_ScheduleSpec [copies_intros]:
  assumes "api_lib_ok E"
  shows "copies (ScheduleSpec_DeepCopyInto E) (ScheduleSpec_type E)"
  unfolding ScheduleSpec_DeepCopyInto_def ScheduleSpec_type_def
  by (rule copies_copy_struct) (simp_all add: copies_intros api_lib_okD [OF assms] assms)

lemma copies_ScheduleSpec_DeepCopy [copies_intros]:
  assumes "api_lib_ok E"
  shows "copies (ScheduleSpec_DeepCopy E) (TPtr (ScheduleSpec_type E))"
  unfolding ScheduleSpec_DeepCopy_def by (rule copies_DeepCopy) (simp add: copies_intros assms)

lemma copies_Schedule [copies_intros]:
  assumes "api_lib_ok E"
  shows "copies (Schedule_DeepCopyInto E) (Schedule_type E)"
  unfolding Schedule_DeepCopyInto_def Schedule_type_def
  by (rule copies_copy_struct) (simp_all add: copies_intros api_lib_okD [OF assms] assms)

lemma copies_Schedule_DeepCopy [copies_intros]:
  assumes "api_lib_ok E"
  shows "copies (Schedule_DeepCopy E) (TPtr (Schedule_type E))"
  unfolding Schedule_DeepCopy_def by (rule copies_DeepCopy) (simp add: copies_intros assms)

lemma copies_ScheduleList [copies_intros]:
  assumes "api_lib_ok E"
  shows "copies (ScheduleList_DeepCopyInto E) (ScheduleList_type E)"
  unfolding ScheduleList_DeepCopyInto_def ScheduleList_type_def
  by (rule copies_copy_struct) (simp_all add: copies_intros api_lib_okD [OF assms] assms)

lemma copies_ScheduleList_DeepCopy [copies_intros]:
  assumes "api_lib_ok E"
  shows "copies (ScheduleList_DeepCopy E) (TPtr (ScheduleList_type E))"
  unfolding ScheduleList_DeepCopy_def by (rule copies_DeepCopy) (simp add: copies_intros assms)

section \<open>The objects of the API\<close>

definition api_objects :: "api_lib \<Rightarrow> (string \<times> gtype \<times> (heap \<Rightarrow> gval \<Rightarrow> gval option \<times> heap)) list" where
  "api_objects E =
     [(''ActionExecution'', ActionExecution_type E, ActionExecution_DeepCopyObject E),
      (''ActionExecutionList'', ActionExecutionList_type E, ActionExecutionList_DeepCopyObject E),
      (''AwsDocumentDBCluster'', AwsDocumentDBCluster_type E, AwsDocumentDBCluster_DeepCopyObject E),
      (''AwsDocumentDBClusterList'', AwsDocumentDBClusterList_type E, AwsDocumentDBClusterList_DeepCopyObject E),
      (''AwsEc2Instance'', AwsEc2Instance_type E, AwsEc2Instance_DeepCopyObject E),
      (''AwsEc2InstanceList'', AwsEc2InstanceList_type E, AwsEc2InstanceList_DeepCopyObject E),
      (''AwsRdsAuroraCluster'', AwsRdsAuroraCluster_type E, AwsRdsAuroraCluster_DeepCopyObject E),
      (''AwsRdsAuroraClusterList'', AwsRdsAuroraClusterList_type E, AwsRdsAuroraClusterList_DeepCopyObject E),
      (''AwsTransferFamily'', AwsTransferFamily_type E, AwsTransferFamily_DeepCopyObject E),
      (''AwsTransferFamilyList'', AwsTransferFamilyList_type E, AwsTransferFamilyList_DeepCopyObject E),
      (''K8sHpa'', K8sHpa_type E, K8sHpa_DeepCopyObject E),
      (''K8sHpaList'', K8sHpaList_type E, K8sHpaList_DeepCopyObject E),
      (''K8sPodReplicas'', K8sPodReplicas_type E, K8sPodReplicas_DeepCopyObject E),
      (''K8sPodReplicasList'', K8sPodReplicasList_type E, K8sPodReplicasList_DeepCopyObject E),
      (''K8sRunJob'', K8sRunJob_type E, K8sRunJob_DeepCopyObject E),
      (''K8sRunJobList'', K8sRunJobList_type E, K8sRunJobList_DeepCopyObject E),
      (''NotificationPolicy'', NotificationPolicy_type E, NotificationPolicy_DeepCopyObject E),
      (''NotificationPolicyList'', NotificationPolicyList_type E, NotificationPolicyList_DeepCopyObject E),
      (''Schedule'', Schedule_type E, Schedule_DeepCopyObject E),
      (''ScheduleList'', ScheduleList_type E, ScheduleList_DeepCopyObject E)]"

text \<open>Stores through a reference to a cell.\<close>

definition stores :: "(nat \<times> cell) list \<Rightarrow> heap \<Rightarrow> heap" where
  "stores ws h = fold (\<lambda>(a, c) h. h[a := c]) ws h"

lemma view_stores:
  "view h ty v = Some (t, as) \<Longrightarrow> \<forall>w \<in> set ws. fst w \<notin> set as \<Longrightarrow> view (stores ws h) ty v = Some (t, as)"
  unfolding stores_def
proof (induction ws arbitrary: h)
  case (Cons w ws)
  then show ?case by (cases w) (simp add: view_update)
qed simp

lemma api_objects_copies:
  assumes "api_lib_ok E" and "(n, ty, copy) \<in> set (api_objects E)"
  obtains into where "copies into ty" and "copy = DeepCopyObject_by (DeepCopy_by into)"
proof -
  have "\<exists>into. copies into ty \<and> copy = DeepCopyObject_by (DeepCopy_by into)"
    using assms(2) unfolding api_objects_def
    by (simp, elim disjE conjE) (simp_all only: ActionExecution_DeepCopyObject_def ActionExecution_DeepCopy_def
      ActionExecutionList_DeepCopyObject_def ActionExecutionList_DeepCopy_def
      AwsDocumentDBCluster_DeepCopyObject_def AwsDocumentDBCluster_DeepCopy_def
      AwsDocumentDBClusterList_DeepCopyObject_def AwsDocumentDBClusterList_DeepCopy_def
      AwsEc2Instance_DeepCopyObject_def AwsEc2Instance_DeepCopy_def
      AwsEc2InstanceList_DeepCopyObject_def AwsEc2InstanceList_DeepCopy_def
      AwsRdsAuroraCluster_DeepCopyObject_def AwsRdsAuroraCluster_DeepCopy_def
      AwsRdsAuroraClusterList_DeepCopyObject_def AwsRdsAuroraClusterList_DeepCopy_def
      AwsTransferFamily_DeepCopyObject_def AwsTransferFamily_DeepCopy_def
      AwsTransferFamilyList_DeepCopyObject_def AwsTransferFamilyList_DeepCopy_def
      K8sHpa_DeepCopyObject_def K8sHpa_DeepCopy_def
      K8sHpaList_DeepCopyObject_def K8sHpaList_DeepCopy_def
      K8sPodReplicas_DeepCopyObject_def K8sPodReplicas_DeepCopy_def
      K8sPodReplicasList_DeepCopyObject_def K8sPodReplicasList_DeepCopy_def
      K8sRunJob_DeepCopyObject_def K8sRunJob_DeepCopy_def
      K8sRunJobList_DeepCopyObject_def K8sRunJobList_DeepCopy_def
      NotificationPolicy_DeepCopyObject_def NotificationPolicy_DeepCopy_def
      NotificationPolicyList_DeepCopyObject_def NotificationPolicyList_DeepCopy_def
      Schedule_DeepCopyObject_def Schedule_DeepCopy_def
      ScheduleList_DeepCopyObject_def ScheduleList_DeepCopy_def, (metis copies_intros assms(1))+)
  then show thesis using that by blast
qed

section \<open>Properties\<close>

text \<open>
  Claim C14. The deep copy of an object of any kind and of any list of the API, taken of whatever is
  in memory, stands for the same object, and neither of the two can be changed through the other: the
  original is as before after any stores to addresses of the copy, and the copy after any stores to
  memory that existed when it was taken. A nil pointer is copied to nil.
\<close>

theorem deep_copy_separate:
  assumes "api_lib_ok E" and "(n, ty, copy) \<in> set (api_objects E)"
    and "view h (TPtr ty) (GRef a) = Some (t, as)"
  shows "copy h GNil = (None, h) \<and> (\<exists>b new bs. copy h (GRef a) = (Some (GRef b), h @ new) \<and>
    view (h @ new) (TPtr ty) (GRef b) = Some (t, bs) \<and>
    (\<forall>ws. fst ` set ws \<subseteq> set bs \<longrightarrow> view (stores ws (h @ new)) (TPtr ty) (GRef a) = Some (t, as)) \<and>
    (\<forall>ws. fst ` set ws \<subseteq> {..<length h} \<longrightarrow> view (stores ws (h @ new)) (TPtr ty) (GRef b) = Some (t, bs)))"
proof -
  from api_objects_copies [OF assms(1,2)] obtain into where into: "copies into ty"
    and copy: "copy = DeepCopyObject_by (DeepCopy_by into)" .
  from DeepCopyObject_fresh [OF into assms(3)] obtain b new bs where
    c: "copy h (GRef a) = (Some (GRef b), h @ new)" and v: "view (h @ new) (TPtr ty) (GRef b) = Some (t, bs)"
    and fresh: "\<forall>b \<in> set bs. length h \<le> b" by (auto simp: copy fresh_copy_def)
  have old: "view (h @ new) (TPtr ty) (GRef a) = Some (t, as)" and alloc: "\<forall>x \<in> set as. x < length h"
    using view_append [OF assms(3)] view_allocated(1) [OF assms(3)] by blast+
  have "view (stores ws (h @ new)) (TPtr ty) (GRef a) = Some (t, as)" if "fst ` set ws \<subseteq> set bs" for ws
    using view_stores [OF old, of ws] that fresh alloc by fastforce
  moreover have "view (stores ws (h @ new)) (TPtr ty) (GRef b) = Some (t, bs)" if "fst ` set ws \<subseteq> {..<length h}" for ws
    using view_stores [OF v, of ws] that fresh by fastforce
  ultimately show ?thesis
    using c v copy DeepCopyObject_nil by blast
qed

text \<open>A library whose metadata holds a map, and a schedule in memory with two references.\<close>

definition demo_api_lib :: api_lib where
  "demo_api_lib =
     \<lparr>al_type = (\<lambda>n. if n = ''ObjectMeta'' then TStruct [(''Name'', TString), (''Labels'', TMap TString)] else TStruct []),
      al_DeepCopyInto = (\<lambda>n. if n = ''ObjectMeta'' then copy_struct [(''Labels'', new_map assign)] else assign)\<rparr>"

lemma demo_api_lib_ok: "api_lib_ok demo_api_lib"
  unfolding api_lib_ok_def demo_api_lib_def
  by (auto intro!: copies_copy_struct simp: copies_intros)

definition demo_memory :: heap where
  "demo_memory =
     [CMap [(''team'', GString ''a'')],
      CMap [(''stop'', GStruct ((\<lambda>_. GNil)(''Cron'' := GString ''0 20 * * *'')))],
      CVal (GBool True),
      CVal (GStruct ((\<lambda>_. GNil)
        (''TypeMeta'' := GStruct (\<lambda>_. GNil),
         ''ObjectMeta'' := GStruct ((\<lambda>_. GNil)(''Name'' := GString ''office'', ''Labels'' := GMap 0)),
         ''Spec'' := GStruct ((\<lambda>_. GNil)(''Enabled'' := GRef 2, ''Actions'' := GMap 1)),
         ''StatusType'' := GStruct ((\<lambda>_. GNil)(''Status'' := GStruct (\<lambda>_. GNil))))))]"

lemma demo_memory_view:
  "\<exists>t. view demo_memory (TPtr (Schedule_type demo_api_lib)) (GRef 3) = Some (t, [3, 0, 2, 1])"
  by (simp add: demo_memory_def demo_api_lib_def Schedule_type_def ScheduleSpec_type_def ScheduleAction_type_def StatusType_type_def
      Status_type_def cell_at_def)

theorem deep_copy_separate_witness:
  "\<exists>t b new. Schedule_DeepCopyObject demo_api_lib demo_memory (GRef 3) = (Some (GRef b), demo_memory @ new) \<and>
     view (demo_memory @ new) (TPtr (Schedule_type demo_api_lib)) (GRef 3) = Some (t, [3, 0, 2, 1]) \<and>
     view ((demo_memory @ new)[2 := CVal (GBool False)]) (TPtr (Schedule_type demo_api_lib)) (GRef b) =
       view (demo_memory @ new) (TPtr (Schedule_type demo_api_lib)) (GRef b)"
proof -
  from demo_memory_view obtain t where v: "view demo_memory (TPtr (Schedule_type demo_api_lib)) (GRef 3) = Some (t, [3, 0, 2, 1])" ..
  have "(''Schedule'', Schedule_type demo_api_lib, Schedule_DeepCopyObject demo_api_lib) \<in> set (api_objects demo_api_lib)"
    by (simp add: api_objects_def)
  from deep_copy_separate [OF demo_api_lib_ok this v] obtain b new bs where
    c: "Schedule_DeepCopyObject demo_api_lib demo_memory (GRef 3) = (Some (GRef b), demo_memory @ new)"
    and w: "view (demo_memory @ new) (TPtr (Schedule_type demo_api_lib)) (GRef b) = Some (t, bs)"
    and old: "\<forall>ws. fst ` set ws \<subseteq> {..<length demo_memory} \<longrightarrow>
      view (stores ws (demo_memory @ new)) (TPtr (Schedule_type demo_api_lib)) (GRef b) = Some (t, bs)" by blast
  from old [rule_format, of "[(2, CVal (GBool False))]"] w
  have "view ((demo_memory @ new)[2 := CVal (GBool False)]) (TPtr (Schedule_type demo_api_lib)) (GRef b) =
      view (demo_memory @ new) (TPtr (Schedule_type demo_api_lib)) (GRef b)"
    by (simp add: stores_def demo_memory_def)
  with c view_append [OF v, of new] show ?thesis by blast
qed

end
