(* ===== verification/Startup.thy ===== *)
theory Startup
  imports Operator
begin

text \<open>
  The start of the operator, \<^verbatim>\<open>cmd/main.go\<close>: the time limit of action executions from the
  environment, and \<^verbatim>\<open>main\<close> as the sequence of set-up steps it attempts. Flags arrive parsed.
  A step is a call of a library that may fail, which ends the process with code 1; which steps fail
  is a parameter. The reconcilers get their configuration here.
\<close>

section \<open>Settings\<close>

definition getActionExecutionTimeout :: "environment \<Rightarrow> int" where
  "getActionExecutionTimeout env =
     (let defaultTimeout = 30 * 60 * 1000000000 in
      case mget env ''ACTION_EXECUTION_TIMEOUT'' of
        None \<Rightarrow> defaultTimeout
      | Some val \<Rightarrow>
          if val = '''' then defaultTimeout
          else (case ParseDuration val of None \<Rightarrow> defaultTimeout | Some d \<Rightarrow> d))"

record main_flags =
  fl_metricsAddr :: string
  fl_probeAddr :: string
  fl_enableLeaderElection :: bool
  fl_secureMetrics :: bool
  fl_enableHTTP2 :: bool
  fl_featureGates :: string
  fl_webhookCertPath :: string
  fl_webhookCertName :: string
  fl_webhookCertKey :: string
  fl_metricsCertPath :: string
  fl_metricsCertName :: string
  fl_metricsCertKey :: string

section \<open>Steps\<close>

text \<open>\<open>FileIn p n\<close> is \<^verbatim>\<open>filepath.Join(p, n)\<close>; a TLS option is the change it makes to a
  configuration.\<close>

datatype file_path = FileIn string string

datatype tls_option = DisableHTTP2 | GetCertificate file_path file_path

record manager_options =
  mo_BindAddress :: string
  mo_SecureServing :: bool
  mo_MetricsTLSOpts :: "tls_option list"
  mo_FilterProvider :: bool
  mo_WebhookTLSOpts :: "tls_option list"
  mo_HealthProbeBindAddress :: string
  mo_LeaderElection :: bool
  mo_LeaderElectionID :: string
  mo_DefaultNamespaces :: "(string, unit) gomap option"

text \<open>The fields of a reconciler; a field the kind does not have or \<^verbatim>\<open>main\<close> leaves out is absent.\<close>

record reconciler_config =
  cf_Controller :: string
  cf_Cron :: bool
  cf_NotificationService :: bool
  cf_Recorder :: string
  cf_OperatorNamespace :: "string option"
  cf_FeatureRegistry :: "feature_registry option"
  cf_ActionTimeout :: "int option"

datatype startup_step =
    NewCertWatcher file_path file_path
  | NewManager manager_options
  | AddCron
  | AddNotificationService
  | SetupWithManager reconciler_config
  | AddMetricsCertWatcher
  | AddWebhookCertWatcher
  | AddHealthzCheck
  | AddReadyzCheck
  | StartManager

definition webhook_files :: "main_flags \<Rightarrow> (file_path \<times> file_path) option" where
  "webhook_files fl =
     (if 0 < length (fl_webhookCertPath fl)
      then Some (FileIn (fl_webhookCertPath fl) (fl_webhookCertName fl), FileIn (fl_webhookCertPath fl) (fl_webhookCertKey fl))
      else None)"

definition metrics_files :: "main_flags \<Rightarrow> (file_path \<times> file_path) option" where
  "metrics_files fl =
     (if 0 < length (fl_metricsCertPath fl)
      then Some (FileIn (fl_metricsCertPath fl) (fl_metricsCertName fl), FileIn (fl_metricsCertPath fl) (fl_metricsCertKey fl))
      else None)"

definition tls_opts :: "main_flags \<Rightarrow> tls_option list" where
  "tls_opts fl = (if \<not> fl_enableHTTP2 fl then [DisableHTTP2] else [])"

definition add_certificate :: "tls_option list \<Rightarrow> (file_path \<times> file_path) option \<Rightarrow> tls_option list" where
  "add_certificate opts files = (case files of None \<Rightarrow> opts | Some (cert, key) \<Rightarrow> opts @ [GetCertificate cert key])"

definition watch_step :: "(file_path \<times> file_path) option \<Rightarrow> startup_step list" where
  "watch_step files = (case files of None \<Rightarrow> [] | Some (cert, key) \<Rightarrow> [NewCertWatcher cert key])"

definition mgr_options :: "main_flags \<Rightarrow> environment \<Rightarrow> manager_options" where
  "mgr_options fl env =
     \<lparr>mo_BindAddress = fl_metricsAddr fl, mo_SecureServing = fl_secureMetrics fl,
      mo_MetricsTLSOpts = add_certificate (tls_opts fl) (metrics_files fl), mo_FilterProvider = fl_secureMetrics fl,
      mo_WebhookTLSOpts = add_certificate (tls_opts fl) (webhook_files fl), mo_HealthProbeBindAddress = fl_probeAddr fl,
      mo_LeaderElection = fl_enableLeaderElection fl, mo_LeaderElectionID = ''70e6cc78.timeterra.d3vlo0p.dev'',
      mo_DefaultNamespaces = DefaultNamespaces env\<rparr>"

text \<open>A missing namespace of the operator is only logged and leaves the empty string.\<close>

definition operatorNamespace_of :: "environment \<Rightarrow> string" where
  "operatorNamespace_of env = (case getOperatorNamespace env of Inl err \<Rightarrow> '''' | Inr ns \<Rightarrow> ns)"

definition reconcilers :: "environment \<Rightarrow> Feature list \<Rightarrow> reconciler_config list" where
  "reconcilers env fs =
     (let ns = Some (operatorNamespace_of env); reg = Some (NewRegistry fs) in
      [\<lparr>cf_Controller = ''Schedule'', cf_Cron = True, cf_NotificationService = False, cf_Recorder = ''schedule-controller'',
        cf_OperatorNamespace = None, cf_FeatureRegistry = None, cf_ActionTimeout = None\<rparr>,
       \<lparr>cf_Controller = ''K8sHpa'', cf_Cron = True, cf_NotificationService = True, cf_Recorder = ''k8shpa-controller'',
        cf_OperatorNamespace = None, cf_FeatureRegistry = None, cf_ActionTimeout = None\<rparr>,
       \<lparr>cf_Controller = ''K8sPodReplicas'', cf_Cron = True, cf_NotificationService = True, cf_Recorder = ''k8spodreplicas-controller'',
        cf_OperatorNamespace = None, cf_FeatureRegistry = None, cf_ActionTimeout = None\<rparr>,
       \<lparr>cf_Controller = ''AwsRdsAuroraCluster'', cf_Cron = True, cf_NotificationService = True, cf_Recorder = ''awsrdsauroracluster-controller'',
        cf_OperatorNamespace = ns, cf_FeatureRegistry = reg, cf_ActionTimeout = None\<rparr>,
       \<lparr>cf_Controller = ''AwsDocumentDBCluster'', cf_Cron = True, cf_NotificationService = True, cf_Recorder = ''awsdocumentdbcluster-controller'',
        cf_OperatorNamespace = ns, cf_FeatureRegistry = reg, cf_ActionTimeout = None\<rparr>,
       \<lparr>cf_Controller = ''AwsTransferFamily'', cf_Cron = True, cf_NotificationService = True, cf_Recorder = ''awstransferfamily-controller'',
        cf_OperatorNamespace = ns, cf_FeatureRegistry = None, cf_ActionTimeout = None\<rparr>,
       \<lparr>cf_Controller = ''AwsEc2Instance'', cf_Cron = True, cf_NotificationService = True, cf_Recorder = ''awsec2instance-controller'',
        cf_OperatorNamespace = ns, cf_FeatureRegistry = None, cf_ActionTimeout = None\<rparr>,
       \<lparr>cf_Controller = ''K8sRunJob'', cf_Cron = True, cf_NotificationService = True, cf_Recorder = ''k8srunjob-controller'',
        cf_OperatorNamespace = ns, cf_FeatureRegistry = None, cf_ActionTimeout = None\<rparr>,
       \<lparr>cf_Controller = ''NotificationPolicy'', cf_Cron = False, cf_NotificationService = True, cf_Recorder = ''notificationpolicy-controller'',
        cf_OperatorNamespace = None, cf_FeatureRegistry = None, cf_ActionTimeout = None\<rparr>,
       \<lparr>cf_Controller = ''ActionExecution'', cf_Cron = False, cf_NotificationService = True, cf_Recorder = ''actionexecution-controller'',
        cf_OperatorNamespace = ns, cf_FeatureRegistry = None, cf_ActionTimeout = Some (getActionExecutionTimeout env)\<rparr>])"

definition final_steps :: "main_flags \<Rightarrow> startup_step list" where
  "final_steps fl =
     (if metrics_files fl \<noteq> None then [AddMetricsCertWatcher] else []) @
     (if webhook_files fl \<noteq> None then [AddWebhookCertWatcher] else []) @ [AddHealthzCheck, AddReadyzCheck, StartManager]"

definition main_steps :: "main_flags \<Rightarrow> environment \<Rightarrow> Feature list \<Rightarrow> startup_step list" where
  "main_steps fl env fs =
     watch_step (webhook_files fl) @ watch_step (metrics_files fl) @ [NewManager (mgr_options fl env), AddCron, AddNotificationService] @
     map SetupWithManager (reconcilers env fs) @ final_steps fl"

declare final_steps_def [simp]

text \<open>The attempts made, in order, and whether the process ended with \<^verbatim>\<open>os.Exit(1)\<close>.\<close>

fun run_steps :: "(startup_step list \<Rightarrow> startup_step \<Rightarrow> bool) \<Rightarrow> startup_step list \<Rightarrow> startup_step list \<Rightarrow> bool \<times> startup_step list" where
  "run_steps succeeds tried [] = (False, tried)"
| "run_steps succeeds tried (x # xs) =
     (if succeeds tried x then run_steps succeeds (tried @ [x]) xs else (True, tried @ [x]))"

definition main :: "(startup_step list \<Rightarrow> startup_step \<Rightarrow> bool) \<Rightarrow> main_flags \<Rightarrow> environment \<Rightarrow> bool \<times> startup_step list" where
  "main succeeds fl env =
     (case feature_gates (fl_featureGates fl) env of
        Inl name \<Rightarrow> (True, [])
      | Inr enabledFeatures \<Rightarrow> run_steps succeeds [] (main_steps fl env enabledFeatures))"

section \<open>Properties\<close>

lemma run_steps_prefix: "run_steps succeeds tried xs = (failed, done') \<Longrightarrow> \<exists>n. done' = tried @ take n xs"
proof (induction succeeds tried xs rule: run_steps.induct)
  case (2 succeeds tried x xs)
  show ?case
  proof (cases "succeeds tried x")
    case True
    with 2 obtain n where "done' = (tried @ [x]) @ take n xs" by auto
    then show ?thesis by (intro exI [of _ "Suc n"]) simp
  next
    case False
    with 2(2) show ?thesis by (intro exI [of _ 1]) simp
  qed
qed simp

lemma run_steps_all: "(\<And>done' x. succeeds done' x) \<Longrightarrow> run_steps succeeds tried xs = (False, tried @ xs)"
  by (induction xs arbitrary: tried) simp_all

text \<open>The manager is started last, so a run that gets there has tried every step.\<close>

lemma started_all:
  assumes "main succeeds fl env = (failed, tried)" and "StartManager \<in> set tried"
  obtains fs where "feature_gates (fl_featureGates fl) env = Inr fs" and "tried = main_steps fl env fs"
proof -
  obtain fs where fs: "feature_gates (fl_featureGates fl) env = Inr fs"
    and run: "run_steps succeeds [] (main_steps fl env fs) = (failed, tried)"
    using assms by (auto simp: main_def split: sum.splits)
  obtain xs where xs: "main_steps fl env fs = xs @ [StartManager]" and last: "StartManager \<notin> set xs"
    by (simp add: main_steps_def watch_step_def split: option.splits) (auto split: option.splits)
  obtain n where "tried = take n (xs @ [StartManager])"
    using run_steps_prefix [OF run] by (auto simp: xs)
  with assms(2) last have "tried = xs @ [StartManager]"
    by (cases "n \<le> length xs") (auto dest: in_set_takeD)
  with fs xs show thesis by (intro that [of fs]) simp_all
qed

lemma controllers:
  "cf_Controller ` set (reconcilers env fs) = {''Schedule'', ''K8sHpa'', ''K8sPodReplicas'', ''AwsRdsAuroraCluster'',
     ''AwsDocumentDBCluster'', ''AwsTransferFamily'', ''AwsEc2Instance'', ''K8sRunJob'', ''NotificationPolicy'', ''ActionExecution''}"
  by (simp add: reconcilers_def Let_def)

lemma inj_on_reconcilers: "inj_on cf_Controller (set (reconcilers env fs))"
  by (simp add: reconcilers_def Let_def)


definition demo_flags :: main_flags where
  "demo_flags = \<lparr>fl_metricsAddr = ''0'', fl_probeAddr = '':8081'', fl_enableLeaderElection = False, fl_secureMetrics = True,
     fl_enableHTTP2 = False, fl_featureGates = ''AuroraVerticalScaling'', fl_webhookCertPath = '''', fl_webhookCertName = ''tls.crt'',
     fl_webhookCertKey = ''tls.key'', fl_metricsCertPath = '''', fl_metricsCertName = ''tls.crt'', fl_metricsCertKey = ''tls.key''\<rparr>"




end
