(* ===== verification/Registration.thy ===== *)
theory Registration
  imports Event_Routing Deep_Copy Startup
begin

text \<open>
  What runs before \<^verbatim>\<open>main\<close>: the \<^verbatim>\<open>init\<close> functions of the package \<^verbatim>\<open>v1alpha1\<close>,
  which put the types of the API into its scheme builder, and \<^verbatim>\<open>init\<close> of \<^verbatim>\<open>cmd/main.go\<close>,
  which adds the builder's types to the scheme and registers the collectors of
  \<^verbatim>\<open>monitoring/metrics.go\<close>. The scheme and the registry of collectors are libraries: the model
  is the sequence of calls with their arguments. Go runs the files of a package in the order of their
  names.
\<close>

section \<open>The types of the API\<close>

definition GroupVersion :: "string \<times> string" where
  "GroupVersion = (''timeterra.d3vlo0p.dev'', ''v1alpha1'')"

text \<open>The builder is the list of the names of the types it was given.\<close>

definition ActionExecution_init :: "string list \<Rightarrow> string list" where
  "ActionExecution_init builder = builder @ [''ActionExecution'', ''ActionExecutionList'']"

definition AwsDocumentDBCluster_init :: "string list \<Rightarrow> string list" where
  "AwsDocumentDBCluster_init builder = builder @ [''AwsDocumentDBCluster'', ''AwsDocumentDBClusterList'']"

definition AwsEc2Instance_init :: "string list \<Rightarrow> string list" where
  "AwsEc2Instance_init builder = builder @ [''AwsEc2Instance'', ''AwsEc2InstanceList'']"

definition AwsRdsAuroraCluster_init :: "string list \<Rightarrow> string list" where
  "AwsRdsAuroraCluster_init builder = builder @ [''AwsRdsAuroraCluster'', ''AwsRdsAuroraClusterList'']"

definition AwsTransferFamily_init :: "string list \<Rightarrow> string list" where
  "AwsTransferFamily_init builder = builder @ [''AwsTransferFamily'', ''AwsTransferFamilyList'']"

definition K8sHpa_init :: "string list \<Rightarrow> string list" where
  "K8sHpa_init builder = builder @ [''K8sHpa'', ''K8sHpaList'']"

definition K8sPodReplicas_init :: "string list \<Rightarrow> string list" where
  "K8sPodReplicas_init builder = builder @ [''K8sPodReplicas'', ''K8sPodReplicasList'']"

definition K8sRunJob_init :: "string list \<Rightarrow> string list" where
  "K8sRunJob_init builder = builder @ [''K8sRunJob'', ''K8sRunJobList'']"

definition NotificationPolicy_init :: "string list \<Rightarrow> string list" where
  "NotificationPolicy_init builder = builder @ [''NotificationPolicy'', ''NotificationPolicyList'']"

definition Schedule_init :: "string list \<Rightarrow> string list" where
  "Schedule_init builder = builder @ [''Schedule'', ''ScheduleList'']"

definition SchemeBuilder :: "string list" where
  "SchemeBuilder = fold (\<lambda>f. f)
     [ActionExecution_init, AwsDocumentDBCluster_init, AwsEc2Instance_init,
      AwsRdsAuroraCluster_init, AwsTransferFamily_init,
      K8sHpa_init, K8sPodReplicas_init, K8sRunJob_init, NotificationPolicy_init, Schedule_init] []"

lemmas init_defs = SchemeBuilder_def ActionExecution_init_def AwsDocumentDBCluster_init_def AwsEc2Instance_init_def AwsRdsAuroraCluster_init_def AwsTransferFamily_init_def
  K8sHpa_init_def K8sPodReplicas_init_def K8sRunJob_init_def NotificationPolicy_init_def Schedule_init_def

section \<open>The collectors\<close>

datatype collector_kind = HistogramVec "string list" | GaugeVec

text \<open>Name, kind (a histogram with its buckets, as they are written) and label names.\<close>

record collector =
  co_Name :: string
  co_Kind :: collector_kind
  co_Labels :: "string list"

definition latency_buckets :: "string list" where
  "latency_buckets =
     [''0.01'', ''0.025'', ''0.05'', ''0.1'', ''0.2'', ''0.3'', ''0.5'', ''1'', ''2'', ''3'', ''5'', ''10'', ''20'', ''30'', ''60'']"

definition TimeterraActionLatency :: collector where
  "TimeterraActionLatency =
     \<lparr>co_Name = ''timeterra_action_latency_seconds'', co_Kind = HistogramVec latency_buckets,
      co_Labels = [''schedule'', ''action'', ''resource'', ''status'']\<rparr>"

definition TimeterraScheduledCronJobs :: collector where
  "TimeterraScheduledCronJobs =
     \<lparr>co_Name = ''timeterra_scheduled_cronjobs'', co_Kind = GaugeVec, co_Labels = [''schedule'', ''action'']\<rparr>"

definition TimeTerraNotificationLatency :: collector where
  "TimeTerraNotificationLatency =
     \<lparr>co_Name = ''timeterra_notification_latency_seconds'', co_Kind = HistogramVec latency_buckets,
      co_Labels = [''type'', ''schedule'', ''action'', ''resource'', ''status'']\<rparr>"

definition TimeTerraNotificationPolicies :: collector where
  "TimeTerraNotificationPolicies =
     \<lparr>co_Name = ''timeterra_notification_policies'', co_Kind = GaugeVec, co_Labels = [''type'', ''schedule'']\<rparr>"

definition RegisterMetrics :: "collector list" where
  "RegisterMetrics =
     [TimeterraActionLatency, TimeterraScheduledCronJobs, TimeTerraNotificationLatency, TimeTerraNotificationPolicies]"

lemmas collector_defs = RegisterMetrics_def TimeterraActionLatency_def TimeterraScheduledCronJobs_def
  TimeTerraNotificationLatency_def TimeTerraNotificationPolicies_def

text \<open>No two collectors share a name, and no collector has a label twice, so the registration cannot fail.\<close>

lemma collectors_distinct:
  "distinct (map co_Name RegisterMetrics)" "\<forall>col \<in> set RegisterMetrics. distinct (co_Labels col)"
  by (simp_all add: collector_defs)

section \<open>The init function of the command\<close>

datatype init_call =
    AddClientGoTypes
  | AddTypes "string \<times> string" "string list"
  | MustRegister collector

definition main_init :: "init_call list" where
  "main_init = AddClientGoTypes # AddTypes GroupVersion SchemeBuilder # map MustRegister RegisterMetrics"

section \<open>Properties\<close>

definition kinds :: "string list" where
  "kinds = [''ActionExecution'', ''AwsDocumentDBCluster'', ''AwsEc2Instance'', ''AwsRdsAuroraCluster'', ''AwsTransferFamily'',
      ''K8sHpa'', ''K8sPodReplicas'', ''K8sRunJob'', ''NotificationPolicy'', ''Schedule'']"

lemma SchemeBuilder_eq: "SchemeBuilder = concat (map (\<lambda>k. [k, k @ ''List'']) kinds)"
  by (simp add: init_defs kinds_def)

lemma kinds_watched: "set kinds = cs_For ` set operator_setups"
  by (simp add: kinds_def operator_setups_eq insert_commute)

lemma set_SchemeBuilder: "set SchemeBuilder = (\<Union>s \<in> set operator_setups. {cs_For s, cs_For s @ ''List''})"
  unfolding SchemeBuilder_eq by (simp add: kinds_watched)

lemma kind_no_list: "s \<in> set operator_setups \<Longrightarrow> cs_For s \<noteq> k @ ''List''"
proof
  assume "s \<in> set operator_setups" and "cs_For s = k @ ''List''"
  then have "last (cs_For s) = CHR ''t''" and "last (cs_For s) \<noteq> CHR ''t''" by (simp, auto simp: operator_setups_eq)
  then show False by simp
qed

text \<open>
  The parts agree on the kinds: \<open>init\<close> registers each type once, and exactly the types
  that can be deep copied; every kind a controller is set up for is registered together with its list,
  every kind that is registered has exactly one controller, and \<open>main\<close> sets the controllers up in the
  order of these set-ups, under the kinds they watch.
\<close>

theorem kinds_agree:
  "(\<exists>types. AddTypes GroupVersion types \<in> set main_init \<and> distinct types \<and> map fst (api_objects E) = types \<and>
     (\<forall>s \<in> set operator_setups. cs_For s \<in> set types \<and> cs_For s @ ''List'' \<in> set types) \<and>
     (\<forall>k \<in> set types. \<exists>!s. s \<in> set operator_setups \<and> (k = cs_For s \<or> k = cs_For s @ ''List''))) \<and>
   map cf_Controller (reconcilers env fs) = map cs_For operator_setups"
proof -
  have ex1: "\<exists>!s. s \<in> set operator_setups \<and> (k = cs_For s \<or> k = cs_For s @ ''List'')" if "k \<in> set SchemeBuilder" for k
    using that kind_no_list kind_no_list [symmetric] setup_for_eq unfolding set_SchemeBuilder by (auto 4 4)
  have "map fst (api_objects E) = SchemeBuilder" by (simp add: api_objects_def init_defs)
  moreover have "distinct SchemeBuilder" by (simp add: init_defs)
  moreover have "\<forall>s \<in> set operator_setups. cs_For s \<in> set SchemeBuilder \<and> cs_For s @ ''List'' \<in> set SchemeBuilder"
    by (auto simp: set_SchemeBuilder)
  moreover have "map cf_Controller (reconcilers env fs) = map cs_For operator_setups"
    by (simp add: reconcilers_def Let_def operator_setups_eq)
  ultimately show ?thesis using ex1 by (auto simp: main_init_def)
qed

end
