(* ===== verification/Command_Line.thy ===== *)
theory Command_Line
  imports Startup
begin

text \<open>
  The command line of the operator: the flags \<^verbatim>\<open>cmd/main.go\<close> binds with their defaults,
  \<^verbatim>\<open>flag.Parse\<close> of the standard library, which reads them, and the process from its arguments
  on. The flags that libraries bind (the logger's and the client's) are a parameter: whether a name is
  bound, whether it is a boolean flag, and the error its \<^verbatim>\<open>Set\<close> gives; they set nothing that
  \<^verbatim>\<open>main\<close> reads. The lemmas show that a printed setting is read back, and that a setting keeps
  its default unless an argument names it.
\<close>

section \<open>The flags\<close>

datatype flag_var =
    StringVar "string \<Rightarrow> main_flags \<Rightarrow> main_flags"
  | BoolVar "bool \<Rightarrow> main_flags \<Rightarrow> main_flags"

definition flag_vars :: "(string \<times> flag_var) list" where
  "flag_vars =
     [(''metrics-bind-address'', StringVar (\<lambda>v fl. fl\<lparr>fl_metricsAddr := v\<rparr>)),
      (''health-probe-bind-address'', StringVar (\<lambda>v fl. fl\<lparr>fl_probeAddr := v\<rparr>)),
      (''leader-elect'', BoolVar (\<lambda>b fl. fl\<lparr>fl_enableLeaderElection := b\<rparr>)),
      (''metrics-secure'', BoolVar (\<lambda>b fl. fl\<lparr>fl_secureMetrics := b\<rparr>)),
      (''enable-http2'', BoolVar (\<lambda>b fl. fl\<lparr>fl_enableHTTP2 := b\<rparr>)),
      (''webhook-cert-path'', StringVar (\<lambda>v fl. fl\<lparr>fl_webhookCertPath := v\<rparr>)),
      (''webhook-cert-name'', StringVar (\<lambda>v fl. fl\<lparr>fl_webhookCertName := v\<rparr>)),
      (''webhook-cert-key'', StringVar (\<lambda>v fl. fl\<lparr>fl_webhookCertKey := v\<rparr>)),
      (''metrics-cert-path'', StringVar (\<lambda>v fl. fl\<lparr>fl_metricsCertPath := v\<rparr>)),
      (''metrics-cert-name'', StringVar (\<lambda>v fl. fl\<lparr>fl_metricsCertName := v\<rparr>)),
      (''metrics-cert-key'', StringVar (\<lambda>v fl. fl\<lparr>fl_metricsCertKey := v\<rparr>)),
      (''feature-gates'', StringVar (\<lambda>v fl. fl\<lparr>fl_featureGates := v\<rparr>))]"

definition default_flags :: main_flags where
  "default_flags =
     \<lparr>fl_metricsAddr = ''0'', fl_probeAddr = '':8081'', fl_enableLeaderElection = False, fl_secureMetrics = True,
      fl_enableHTTP2 = False, fl_featureGates = '''', fl_webhookCertPath = '''', fl_webhookCertName = ''tls.crt'',
      fl_webhookCertKey = ''tls.key'', fl_metricsCertPath = '''', fl_metricsCertName = ''tls.crt'', fl_metricsCertKey = ''tls.key''\<rparr>"

section \<open>Package flag\<close>

type_synonym other_flags = "string \<Rightarrow> (bool \<times> (string \<Rightarrow> string option)) option"

datatype flag_error = ErrHelp | FlagFailed string

definition ParseBool :: "string \<Rightarrow> bool option" where
  "ParseBool v =
     (if v \<in> set [''1'', ''t'', ''T'', ''true'', ''TRUE'', ''True''] then Some True
      else if v \<in> set [''0'', ''f'', ''F'', ''false'', ''FALSE'', ''False''] then Some False
      else None)"

text \<open>Whether a name is bound and is a boolean flag, and \<^verbatim>\<open>Value.Set\<close>.\<close>

definition formal :: "other_flags \<Rightarrow> string \<Rightarrow> bool option" where
  "formal other name =
     (case map_of flag_vars name of
        Some (StringVar f) \<Rightarrow> Some False
      | Some (BoolVar f) \<Rightarrow> Some True
      | None \<Rightarrow> map_option fst (other name))"

definition set_flag :: "other_flags \<Rightarrow> string \<Rightarrow> string \<Rightarrow> main_flags \<Rightarrow> string + main_flags" where
  "set_flag other name v fl =
     (case map_of flag_vars name of
        Some (StringVar f) \<Rightarrow> Inr (f v fl)
      | Some (BoolVar f) \<Rightarrow> (case ParseBool v of None \<Rightarrow> Inl ''parse error'' | Some b \<Rightarrow> Inr (f b fl))
      | None \<Rightarrow> (case other name of
            None \<Rightarrow> Inr fl
          | Some (b, err) \<Rightarrow> (case err v of None \<Rightarrow> Inr fl | Some e \<Rightarrow> Inl e)))"

text \<open>
  One flag off the arguments: whether to go on, the settings and the arguments left. \<open>--\<close> and the
  first argument that is no flag end the flags.
\<close>

definition parseOne :: "other_flags \<Rightarrow> main_flags \<Rightarrow> string list \<Rightarrow> flag_error + bool \<times> main_flags \<times> string list" where
  "parseOne other fl args =
     (case args of
        [] \<Rightarrow> Inr (False, fl, [])
      | s # rest \<Rightarrow>
          if length s < 2 \<or> hd s \<noteq> CHR ''-'' then Inr (False, fl, args)
          else if s = ''--'' then Inr (False, fl, rest)
          else (let name = (if s ! 1 = CHR ''-'' then drop 2 s else drop 1 s) in
            if name = [] \<or> hd name = CHR ''-'' \<or> hd name = CHR ''='' then Inl (FlagFailed (''bad flag syntax: '' @ s))
            else (let hasValue = (CHR ''='' \<in> set name);
                      key = takeWhile (\<lambda>c. c \<noteq> CHR ''='') name;
                      value = tl (dropWhile (\<lambda>c. c \<noteq> CHR ''='') name) in
              (case formal other key of
                 None \<Rightarrow> Inl (if key = ''help'' \<or> key = ''h'' then ErrHelp else FlagFailed (''flag provided but not defined: -'' @ key))
               | Some True \<Rightarrow>
                   (case set_flag other key (if hasValue then value else ''true'') fl of
                      Inl e \<Rightarrow> Inl (FlagFailed (if hasValue then ''invalid boolean value '' @ quoted value @ '' for -'' @ key @ '': '' @ e
                                          else ''invalid boolean flag '' @ key @ '': '' @ e))
                    | Inr fl' \<Rightarrow> Inr (True, fl', rest))
               | Some False \<Rightarrow>
                   (case (if hasValue then value # rest else rest) of
                      [] \<Rightarrow> Inl (FlagFailed (''flag needs an argument: -'' @ key))
                    | v # rest' \<Rightarrow>
                        (case set_flag other key v fl of
                           Inl e \<Rightarrow> Inl (FlagFailed (''invalid value '' @ quoted v @ '' for flag -'' @ key @ '': '' @ e))
                         | Inr fl' \<Rightarrow> Inr (True, fl', rest')))))))"

lemma parseOne_shorter: "parseOne other fl args = Inr (True, fl', rest) \<Longrightarrow> length rest < length args"
  by (auto simp: parseOne_def Let_def split: list.splits if_splits option.splits bool.splits sum.splits)

function Parse :: "other_flags \<Rightarrow> main_flags \<Rightarrow> string list \<Rightarrow> flag_error + main_flags \<times> string list" where
  "Parse other fl args =
     (case parseOne other fl args of
        Inl err \<Rightarrow> Inl err
      | Inr (go_on, fl', rest) \<Rightarrow> if go_on then Parse other fl' rest else Inr (fl', rest))"
  by pat_completeness auto

termination
  by (relation "measure (\<lambda>(other, fl, args). length args)") (auto dest: parseOne_shorter)

declare Parse.simps [simp del]

text \<open>
  The process: the exit code and the set-up steps it tried. A wrong command line ends it with 2, a
  request for help with 0, a failed step with 1.
\<close>

definition operator_process ::
  "(startup_step list \<Rightarrow> startup_step \<Rightarrow> bool) \<Rightarrow> other_flags \<Rightarrow> string list \<Rightarrow> environment \<Rightarrow> nat \<times> startup_step list" where
  "operator_process succeeds other args env =
     (case Parse other default_flags args of
        Inl ErrHelp \<Rightarrow> (0, [])
      | Inl (FlagFailed e) \<Rightarrow> (2, [])
      | Inr (fl, rest) \<Rightarrow> (case main succeeds fl env of (failed, tried) \<Rightarrow> (if failed then 1 else 0, tried)))"

section \<open>Reading back a printed setting\<close>

definition flag_arg :: "bool \<Rightarrow> string \<Rightarrow> string \<Rightarrow> string list" where
  "flag_arg joined name v = (if joined then [''--'' @ name @ ''='' @ v] else [''--'' @ name, v])"

definition bool_arg :: "string \<Rightarrow> bool \<Rightarrow> string list" where
  "bool_arg name b = [''--'' @ name @ ''='' @ (if b then ''true'' else ''false'')]"

definition print_flags :: "bool \<Rightarrow> main_flags \<Rightarrow> string list" where
  "print_flags joined fl =
     flag_arg joined ''metrics-bind-address'' (fl_metricsAddr fl) @ flag_arg joined ''health-probe-bind-address'' (fl_probeAddr fl) @
     bool_arg ''leader-elect'' (fl_enableLeaderElection fl) @ bool_arg ''metrics-secure'' (fl_secureMetrics fl) @
     bool_arg ''enable-http2'' (fl_enableHTTP2 fl) @
     flag_arg joined ''webhook-cert-path'' (fl_webhookCertPath fl) @ flag_arg joined ''webhook-cert-name'' (fl_webhookCertName fl) @
     flag_arg joined ''webhook-cert-key'' (fl_webhookCertKey fl) @ flag_arg joined ''metrics-cert-path'' (fl_metricsCertPath fl) @
     flag_arg joined ''metrics-cert-name'' (fl_metricsCertName fl) @ flag_arg joined ''metrics-cert-key'' (fl_metricsCertKey fl) @
     flag_arg joined ''feature-gates'' (fl_featureGates fl)"

definition flag_name :: "string \<Rightarrow> bool" where
  "flag_name name \<longleftrightarrow> name \<noteq> [] \<and> hd name \<noteq> CHR ''-'' \<and> CHR ''='' \<notin> set name"

lemma flag_nameD:
  assumes "flag_name name"
  shows "name \<noteq> []" "hd name \<noteq> CHR ''-''" "hd name \<noteq> CHR ''=''" "CHR ''='' \<notin> set name"
  using assms by (cases name; auto simp: flag_name_def)+

lemma span_name:
  assumes "flag_name name"
  shows "takeWhile (\<lambda>c. c \<noteq> CHR ''='') name = name" "dropWhile (\<lambda>c. c \<noteq> CHR ''='') name = []"
    "takeWhile (\<lambda>c. c \<noteq> CHR ''='') (name @ CHR ''='' # v) = name"
    "dropWhile (\<lambda>c. c \<noteq> CHR ''='') (name @ CHR ''='' # v) = CHR ''='' # v"
proof -
  have all: "\<forall>c \<in> set name. c \<noteq> CHR ''=''" using flag_nameD(4) [OF assms] by auto
  then show "takeWhile (\<lambda>c. c \<noteq> CHR ''='') name = name" "dropWhile (\<lambda>c. c \<noteq> CHR ''='') name = []" by simp_all
  from all show "takeWhile (\<lambda>c. c \<noteq> CHR ''='') (name @ CHR ''='' # v) = name"
    "dropWhile (\<lambda>c. c \<noteq> CHR ''='') (name @ CHR ''='' # v) = CHR ''='' # v"
    by (simp_all add: takeWhile_append2 dropWhile_append2)
qed

lemma Parse_flag_arg:
  assumes "flag_name name" and "map_of flag_vars name = Some (StringVar f)"
  shows "Parse other fl (flag_arg joined name v @ rest) = Parse other (f v fl) rest"
  using assms flag_nameD [OF assms(1)]
  by (subst Parse.simps) (simp add: parseOne_def flag_arg_def formal_def set_flag_def span_name)

lemma Parse_bool_arg:
  assumes "flag_name name" and "map_of flag_vars name = Some (BoolVar f)"
  shows "Parse other fl (bool_arg name b @ rest) = Parse other (f b fl) rest"
  using assms flag_nameD [OF assms(1)]
  by (subst Parse.simps) (simp add: parseOne_def bool_arg_def formal_def set_flag_def span_name ParseBool_def)

section \<open>Settings nobody named\<close>

definition names_flag :: "string \<Rightarrow> string \<Rightarrow> bool" where
  "names_flag name a \<longleftrightarrow> a \<in> set [''-'' @ name, ''--'' @ name] \<or>
     HasPrefix a (''-'' @ name @ ''='') \<or> HasPrefix a (''--'' @ name @ ''='')"

lemma names_flagI:
  "names_flag key (''-'' @ key)" "names_flag key (''--'' @ key)"
  "names_flag key (''-'' @ key @ ''='' @ v)" "names_flag key (''--'' @ key @ ''='' @ v)"
  by (simp_all add: names_flag_def HasPrefix_iff)

lemma flag_key_names:
  assumes "2 \<le> length s" and "hd s = CHR ''-''" and "name = (if s ! 1 = CHR ''-'' then drop 2 s else drop 1 s)"
  shows "names_flag (takeWhile (\<lambda>c. c \<noteq> CHR ''='') name) s"
proof -
  let ?key = "takeWhile (\<lambda>c. c \<noteq> CHR ''='') name" and ?eq = "dropWhile (\<lambda>c. c \<noteq> CHR ''='') name"
  obtain c t where s: "s = CHR ''-'' # c # t" using assms(1,2) by (cases s; cases "tl s") auto
  with assms(3) have dashes: "s = ''-'' @ name \<or> s = ''--'' @ name" by (simp split: if_splits)
  have "?eq \<noteq> [] \<Longrightarrow> ?eq = ''='' @ tl ?eq"
    using hd_dropWhile [of "\<lambda>c. c \<noteq> CHR ''=''" name] by (cases ?eq) simp_all
  with takeWhile_dropWhile_id [of "\<lambda>c. c \<noteq> CHR ''=''" name]
  have "name = ?key \<or> name = ?key @ ''='' @ tl ?eq" by (metis append.right_neutral)
  with dashes names_flagI [of ?key] show ?thesis by metis
qed

lemma parseOne_named:
  assumes "parseOne other fl args = Inr (go_on, fl', rest)"
  shows "set rest \<subseteq> set args" and "fl' \<noteq> fl \<Longrightarrow> \<exists>key v. (\<exists>a \<in> set args. names_flag key a) \<and> set_flag other key v fl = Inr fl'"
proof -
  show "set rest \<subseteq> set args"
    using assms by (auto simp: parseOne_def Let_def split: list.splits if_splits option.splits bool.splits sum.splits)
  assume "fl' \<noteq> fl"
  with assms obtain s t where args: "args = s # t" and s: "2 \<le> length s" "hd s = CHR ''-''"
    by (cases args) (auto simp: parseOne_def split: if_splits)
  define name where "name = (if s ! 1 = CHR ''-'' then drop 2 s else drop 1 s)"
  let ?key = "takeWhile (\<lambda>c. c \<noteq> CHR ''='') name"
  have "\<exists>v. set_flag other ?key v fl = Inr fl'"
    using assms s \<open>fl' \<noteq> fl\<close>
    by (auto simp: parseOne_def args Let_def name_def split: list.splits if_splits option.splits bool.splits sum.splits)
  with flag_key_names [OF s name_def] show "\<exists>key v. (\<exists>a \<in> set args. names_flag key a) \<and> set_flag other key v fl = Inr fl'"
    by (auto simp: args)
qed

text \<open>A field of the settings that only the flag \<open>name\<close> writes.\<close>

definition written_by :: "string \<Rightarrow> (main_flags \<Rightarrow> 'a) \<Rightarrow> bool" where
  "written_by name field \<longleftrightarrow> (\<forall>(n, var) \<in> set flag_vars. n \<noteq> name \<longrightarrow>
     (case var of StringVar f \<Rightarrow> \<forall>v fl. field (f v fl) = field fl | BoolVar f \<Rightarrow> \<forall>b fl. field (f b fl) = field fl))"

lemma set_flag_keeps:
  assumes "written_by name field" and "key \<noteq> name" and "set_flag other key v fl = Inr fl'"
  shows "field fl' = field fl"
  using assms by (auto simp: written_by_def set_flag_def dest!: map_of_SomeD split: option.splits flag_var.splits; fastforce)

lemma Parse_keeps:
  assumes "written_by name field" and "\<forall>a \<in> set args. \<not> names_flag name a" and "Parse other fl args = Inr (fl', rest)"
  shows "field fl' = field fl"
  using assms(2,3)
proof (induction other fl args rule: Parse.induct)
  case (1 other fl args)
  obtain go_on fl1 rest1 where one: "parseOne other fl args = Inr (go_on, fl1, rest1)"
    using 1(3) by (cases "parseOne other fl args") (auto simp: Parse.simps [of other fl args])
  have "field fl1 = field fl"
    using parseOne_named(2) [OF one] set_flag_keeps [OF assms(1)] 1(2) by metis
  moreover have "field fl' = field fl1"
  proof (cases go_on)
    case True
    have "\<forall>a \<in> set rest1. \<not> names_flag name a" using parseOne_named(1) [OF one] 1(2) by blast
    with 1(1) [OF one refl refl True] 1(3) True show ?thesis by (simp add: Parse.simps [of other fl args] one)
  next
    case False
    with 1(3) show ?thesis by (simp add: Parse.simps [of other fl args] one)
  qed
  ultimately show ?case by simp
qed

section \<open>Properties\<close>


text \<open>
  Claim C25. What nobody asked for stays off: when the process gets to start the manager, then unless
  an argument names the flag \<^verbatim>\<open>enable-http2\<close> both servers have HTTP/2 disabled, unless one names
  \<^verbatim>\<open>metrics-secure\<close> the metrics are served securely and to authorised clients only, and unless one
  names \<^verbatim>\<open>metrics-bind-address\<close> they are not served at all.
\<close>

theorem unnamed_stays_safe:
  assumes "operator_process succeeds other args env = (code, tried)" and "StartManager \<in> set tried"
  shows "\<exists>mo. NewManager mo \<in> set tried \<and>
    ((\<forall>a \<in> set args. \<not> names_flag ''enable-http2'' a) \<longrightarrow> DisableHTTP2 \<in> set (mo_MetricsTLSOpts mo) \<and> DisableHTTP2 \<in> set (mo_WebhookTLSOpts mo)) \<and>
    ((\<forall>a \<in> set args. \<not> names_flag ''metrics-secure'' a) \<longrightarrow> mo_SecureServing mo \<and> mo_FilterProvider mo) \<and>
    ((\<forall>a \<in> set args. \<not> names_flag ''metrics-bind-address'' a) \<longrightarrow> mo_BindAddress mo = ''0'')"
proof -
  obtain fl rest failed where p: "Parse other default_flags args = Inr (fl, rest)" and run: "main succeeds fl env = (failed, tried)"
    using assms by (auto simp: operator_process_def split: sum.splits flag_error.splits prod.splits)
  obtain fs where tried: "tried = main_steps fl env fs" by (rule started_all [OF run assms(2)])
  have http2: "written_by ''enable-http2'' fl_enableHTTP2" and secure: "written_by ''metrics-secure'' fl_secureMetrics"
    and bind: "written_by ''metrics-bind-address'' fl_metricsAddr"
    by (simp_all add: written_by_def flag_vars_def)
  have "NewManager (mgr_options fl env) \<in> set tried" by (simp add: tried main_steps_def)
  with Parse_keeps [OF http2 _ p] Parse_keeps [OF secure _ p] Parse_keeps [OF bind _ p] show ?thesis
    by (intro exI [of _ "mgr_options fl env"])
      (auto simp: mgr_options_def tls_opts_def add_certificate_def default_flags_def split: option.splits)
qed

text \<open>An explicitly empty \<^verbatim>\<open>--feature-gates=\<close> does not switch off what the environment enables.\<close>

lemma empty_flag_falls_back:
  "Parse other default_flags [''--feature-gates=''] = Inr (fl, rest) \<Longrightarrow>
     feature_gates (fl_featureGates fl) env = feature_gates '''' env"
proof -
  assume p: "Parse other default_flags [''--feature-gates=''] = Inr (fl, rest)"
  have "map_of flag_vars ''feature-gates'' = Some (StringVar (\<lambda>v fl. fl\<lparr>fl_featureGates := v\<rparr>))" by (simp add: flag_vars_def)
  from Parse_flag_arg [OF _ this, of other default_flags True "''''" "[]"]
  have "Parse other default_flags [''--feature-gates=''] = Inr (default_flags, [])"
    by (simp add: flag_name_def flag_arg_def Parse.simps [of _ _ "[]"] parseOne_def default_flags_def)
  with p show ?thesis by (simp add: default_flags_def)
qed

theorem unnamed_stays_safe_witness:
  "\<exists>mo. NewManager mo \<in> set (snd (operator_process (\<lambda>_ _. True) (\<lambda>_. None) [''--leader-elect'', ''--metrics-bind-address'', '':8443''] [])) \<and>
     DisableHTTP2 \<in> set (mo_MetricsTLSOpts mo) \<and> mo_SecureServing mo"
proof -
  let ?args = "[''--leader-elect'', ''--metrics-bind-address'', '':8443'']"
  let ?fl = "default_flags\<lparr>fl_enableLeaderElection := True, fl_metricsAddr := '':8443''\<rparr>"
  have "Parse (\<lambda>_. None) default_flags ?args = Inr (?fl, [])"
    by (simp add: Parse.simps parseOne_def formal_def set_flag_def flag_vars_def ParseBool_def default_flags_def)
  moreover have "feature_gates (fl_featureGates ?fl) [] = Inr []"
    by (simp add: default_flags_def feature_gates_def Getenv_def EqualFold_def TrimSpace_def is_space_def lower_char_def Let_def)
  ultimately have run: "operator_process (\<lambda>_ _. True) (\<lambda>_. None) ?args [] = (0, main_steps ?fl [] [])"
    by (simp add: operator_process_def main_def run_steps_all)
  have "StartManager \<in> set (main_steps ?fl [] [])" by (simp add: main_steps_def)
  from unnamed_stays_safe [OF run this] show ?thesis
    unfolding run by (auto simp: names_flag_def HasPrefix_def)
qed

end
