(* ===== verification/Notification_Workers.thy ===== *)
theory Notification_Workers
  imports Notification_Service
begin

text \<open>
  The goroutines of the notification service: \<^verbatim>\<open>Start\<close> launches the workers, waits for the
  end of its context, closes the channel and waits for the workers; each worker receives a body,
  copies the recipients of its schedule under the read lock and notifies them one by one. A step here
  is what one goroutine does between two points where another one can run, and steps of all of them
  interleave freely. The answers of the recipients and the iteration orders may differ at every step.
  The last two fields of the state are history for the specification: the bodies \<^verbatim>\<open>Send\<close> put into
  the channel, and for each body copied for delivery the recipients it was meant for.
\<close>

section \<open>The goroutines\<close>

text \<open>A worker waits at the channel, holds a body, has some recipients left to notify, or has ended.\<close>

datatype 'r worker =
    Receiving
  | Holding notification_body
  | Notifying notification_body "(string, 'r) gomap" "string list"
  | Ended

datatype start_phase = NotStarted | Serving | Draining | Returned

fun phase_rank :: "start_phase \<Rightarrow> nat" where
  "phase_rank NotStarted = 0"
| "phase_rank Serving = 1"
| "phase_rank Draining = 2"
| "phase_rank Returned = 3"

lemma phase_rank_inject: "phase_rank p = phase_rank q \<longleftrightarrow> p = q"
  by (cases p; cases q) simp_all

text \<open>The phases in their order.\<close>

instantiation start_phase :: linorder
begin

definition less_eq_start_phase :: "start_phase \<Rightarrow> start_phase \<Rightarrow> bool" where
  "p \<le> q \<longleftrightarrow> phase_rank p \<le> phase_rank q"

definition less_start_phase :: "start_phase \<Rightarrow> start_phase \<Rightarrow> bool" where
  "p < q \<longleftrightarrow> phase_rank p < phase_rank q"

instance
  by standard (auto simp: less_eq_start_phase_def less_start_phase_def phase_rank_inject)

end

record 'r ns_system =
  sy_svc :: "'r notification_service"
  sy_workers :: "'r worker list"
  sy_wg :: nat
  sy_phase :: start_phase
  sy_out :: "delivery list"
  sy_accepted :: "notification_body list"
  sy_assigned :: "(notification_body \<times> string list) list"

definition sys_start :: "'r notification_service \<Rightarrow> 'r ns_system" where
  "sys_start svc = \<lparr>sy_svc = svc, sy_workers = [], sy_wg = 0, sy_phase = NotStarted, sy_out = [], sy_accepted = [], sy_assigned = []\<rparr>"

text \<open>The steps of the workers and the return of \<^verbatim>\<open>Start\<close> after \<^verbatim>\<open>wg.Wait()\<close>.\<close>

inductive worker_step :: "'r recipient_ops \<Rightarrow> 'r ns_system \<Rightarrow> 'r ns_system \<Rightarrow> bool" for ops where
  receive: "i < length (sy_workers c) \<Longrightarrow> sy_workers c ! i = Receiving \<Longrightarrow> ns_ch (sy_svc c) = body # rest \<Longrightarrow>
    worker_step ops c (c\<lparr>sy_svc := (sy_svc c)\<lparr>ns_ch := rest\<rparr>, sy_workers := (sy_workers c)[i := Holding body]\<rparr>)"
| done_wg: "i < length (sy_workers c) \<Longrightarrow> sy_workers c ! i = Receiving \<Longrightarrow> ns_ch (sy_svc c) = [] \<Longrightarrow> ns_closed (sy_svc c) \<Longrightarrow>
    worker_step ops c (c\<lparr>sy_workers := (sy_workers c)[i := Ended], sy_wg := sy_wg c - 1\<rparr>)"
| copy: "i < length (sy_workers c) \<Longrightarrow> sy_workers c ! i = Holding body \<Longrightarrow> m = recipientsCopy ord (sy_svc c) body \<Longrightarrow>
    ids = visit ord [''notify''] (mkeys m) \<Longrightarrow>
    worker_step ops c (c\<lparr>sy_workers := (sy_workers c)[i := Notifying body m ids], sy_assigned := sy_assigned c @ [(body, ids)]\<rparr>)"
| notify: "i < length (sy_workers c) \<Longrightarrow> sy_workers c ! i = Notifying body m (rid # ids) \<Longrightarrow>
    worker_step ops c (c\<lparr>sy_workers := (sy_workers c)[i := Notifying body m ids],
      sy_out := notify_loop ops body m [rid] (sy_out c)\<rparr>)"
| again: "i < length (sy_workers c) \<Longrightarrow> sy_workers c ! i = Notifying body m [] \<Longrightarrow>
    worker_step ops c (c\<lparr>sy_workers := (sy_workers c)[i := Receiving]\<rparr>)"
| return: "sy_phase c = Draining \<Longrightarrow> sy_wg c = 0 \<Longrightarrow> worker_step ops c (c\<lparr>sy_phase := Returned\<rparr>)"

text \<open>The steps of the rest of the operator; \<open>threads\<close> is the field of the service, which is 1.\<close>

inductive client_step :: "'r recipient_ops \<Rightarrow> nat \<Rightarrow> 'r ns_system \<Rightarrow> 'r ns_system \<Rightarrow> bool" for ops threads where
  start: "sy_phase c = NotStarted \<Longrightarrow>
    client_step ops threads c (c\<lparr>sy_phase := Serving, sy_workers := replicate threads Receiving, sy_wg := threads\<rparr>)"
| shutdown: "sy_phase c = Serving \<Longrightarrow> client_step ops threads c (c\<lparr>sy_svc := close_service (sy_svc c), sy_phase := Draining\<rparr>)"
| send: "client_step ops threads c (c\<lparr>sy_svc := Send (sy_svc c) body,
    sy_accepted := sy_accepted c @ (if ns_closed (sy_svc c) \<or> capacity \<le> length (ns_ch (sy_svc c)) then [] else [body])\<rparr>)"
| add: "client_step ops threads c (c\<lparr>sy_svc := AddRecipientToSchedule ops (sy_svc c) x rid r\<rparr>)"
| remove: "client_step ops threads c (c\<lparr>sy_svc := RemoveRecipient ops ord (sy_svc c) rid\<rparr>)"

inductive_cases worker_stepE: "worker_step ops c d"
inductive_cases client_stepE: "client_step ops threads c d"

definition sys_step :: "'r recipient_ops \<Rightarrow> nat \<Rightarrow> 'r ns_system \<Rightarrow> 'r ns_system \<Rightarrow> bool" where
  "sys_step ops threads c d \<longleftrightarrow> worker_step ops c d \<or> client_step ops threads c d"

text \<open>The service only ever moves on: no step goes back to an earlier phase.\<close>

lemma sys_step_phase: "sys_step ops threads c d \<Longrightarrow> sy_phase c \<le> sy_phase d"
  by (auto simp: sys_step_def less_eq_start_phase_def elim!: worker_stepE client_stepE)

lemma sys_steps_phase: "(sys_step ops threads)\<^sup>*\<^sup>* c d \<Longrightarrow> sy_phase c \<le> sy_phase d"
  by (induction rule: rtranclp_induct) (use sys_step_phase order_trans in blast)+

section \<open>The invariant\<close>

fun held :: "'r worker \<Rightarrow> notification_body list" where
  "held (Holding body) = [body]"
| "held _ = []"

fun pending :: "'r worker \<Rightarrow> (notification_body \<times> string) list" where
  "pending (Notifying body m ids) = map (Pair body) ids"
| "pending _ = []"

fun copied_ok :: "'r worker \<Rightarrow> bool" where
  "copied_ok (Notifying body m ids) \<longleftrightarrow> set ids \<subseteq> set (mkeys m)"
| "copied_ok _ \<longleftrightarrow> True"

definition meant :: "(notification_body \<times> string list) list \<Rightarrow> (notification_body \<times> string) list" where
  "meant assigned = concat (map (\<lambda>(body, ids). map (Pair body) ids) assigned)"

abbreviation delivered :: "delivery list \<Rightarrow> (notification_body \<times> string) multiset" where
  "delivered out \<equiv> mset (map (\<lambda>d. (dl_Body d, dl_Id d)) out)"

text \<open>
  Every accepted body is in the channel, held by a worker, or assigned to its recipients; every
  assigned pair of body and recipient is delivered or still to be notified, once each.
\<close>

definition sys_inv :: "nat \<Rightarrow> 'r ns_system \<Rightarrow> bool" where
  "sys_inv threads c \<longleftrightarrow>
     recipients_ok (sy_svc c) \<and> length (ns_ch (sy_svc c)) \<le> capacity \<and>
     (ns_closed (sy_svc c) \<longleftrightarrow> sy_phase c \<in> {Draining, Returned}) \<and>
     (if sy_phase c = NotStarted then sy_workers c = [] else length (sy_workers c) = threads) \<and>
     sy_wg c = length (filter (\<lambda>w. w \<noteq> Ended) (sy_workers c)) \<and>
     (sy_phase c = Returned \<longrightarrow> sy_wg c = 0) \<and>
     (Ended \<in> set (sy_workers c) \<longrightarrow> ns_ch (sy_svc c) = [] \<and> ns_closed (sy_svc c)) \<and>
     list_all copied_ok (sy_workers c) \<and>
     mset (sy_accepted c) = mset (ns_ch (sy_svc c)) + mset (concat (map held (sy_workers c))) + mset (map fst (sy_assigned c)) \<and>
     mset (meant (sy_assigned c)) = delivered (sy_out c) + mset (concat (map pending (sy_workers c)))"

text \<open>What a change of one worker does to a list collected over all of them.\<close>

lemma mset_concat_update:
  assumes "i < length ws"
  shows "mset (concat (map f (ws[i := w]))) + mset (f (ws ! i)) = mset (concat (map f ws)) + mset (f w)"
  using assms
proof (induction ws arbitrary: i)
  case (Cons x ws)
  then show ?case by (cases i) (auto simp: ac_simps)
qed simp

lemma filter_update_length:
  assumes "i < length ws"
  shows "length (filter P (ws[i := w])) + (if P (ws ! i) then 1 else 0) = length (filter P ws) + (if P w then 1 else 0)"
  using assms
proof (induction ws arbitrary: i)
  case (Cons x ws)
  then show ?case by (cases i) auto
qed simp

lemma set_update_memD: "x \<in> set (ws[i := w]) \<Longrightarrow> x \<noteq> w \<Longrightarrow> x \<in> set ws"
  using set_update_subset_insert [of ws i w] by blast

lemma list_all_update: "list_all P ws \<Longrightarrow> P w \<Longrightarrow> list_all P (ws[i := w])"
  using set_update_subset_insert [of ws i w] by (auto simp: list_all_iff)

lemma meant_append [simp]: "meant (xs @ ys) = meant xs @ meant ys"
  by (simp add: meant_def)

lemma meant_one [simp]: "meant [(body, ids)] = map (Pair body) ids"
  by (simp add: meant_def)

lemma notify_one:
  assumes "rid \<in> set (mkeys m)"
  shows "delivered (notify_loop ops body m [rid] out) = add_mset (body, rid) (delivered out)"
proof -
  from assms obtain r where "mget m rid = Some r" unfolding mem_mkeys_iff by auto
  then show ?thesis by simp
qed

lemma sys_inv_start:
  "recipients_ok svc \<Longrightarrow> ns_ch svc = [] \<Longrightarrow> \<not> ns_closed svc \<Longrightarrow> sys_inv threads (sys_start svc)"
  by (simp add: sys_inv_def sys_start_def meant_def)

text \<open>The effect of replacing one worker on the parts of the invariant.\<close>

lemma worker_parts:
  assumes "i < length ws" and "ws ! i = w0"
  shows "mset (concat (map held (ws[i := w]))) + mset (held w0) = mset (concat (map held ws)) + mset (held w)"
    and "mset (concat (map pending (ws[i := w]))) + mset (pending w0) = mset (concat (map pending ws)) + mset (pending w)"
    and "length (filter (\<lambda>w. w \<noteq> Ended) (ws[i := w])) + (if w0 \<noteq> Ended then 1 else 0) =
      length (filter (\<lambda>w. w \<noteq> Ended) ws) + (if w \<noteq> Ended then 1 else 0)"
    and "list_all copied_ok ws \<Longrightarrow> copied_ok w \<Longrightarrow> list_all copied_ok (ws[i := w])"
    and "w \<noteq> Ended \<Longrightarrow> Ended \<in> set (ws[i := w]) \<Longrightarrow> Ended \<in> set ws"
  using mset_concat_update [OF assms(1), of held w] mset_concat_update [OF assms(1), of pending w]
    filter_update_length [OF assms(1), of "\<lambda>w. w \<noteq> Ended" w] assms(2) list_all_update set_update_memD
  by fastforce+

lemma started:
  assumes "sys_inv threads c" and "i < length (sy_workers c)"
  shows "sy_phase c \<noteq> NotStarted"
  using assms by (auto simp: sys_inv_def split: if_splits)

lemma recipients_ok_ch [simp]: "recipients_ok (s\<lparr>ns_ch := ch\<rparr>) = recipients_ok s"
  by (simp add: recipients_ok_def)

lemma worker_step_inv:
  assumes inv: "sys_inv threads c" and step: "worker_step ops c d"
  shows "sys_inv threads d"
  using step
proof (cases rule: worker_step.cases)
  case (receive i body rest)
  note p = worker_parts [OF receive(2,3), of "Holding body"]
  have "Ended \<notin> set (sy_workers c)" using inv receive(4) by (auto simp: sys_inv_def)
  with inv p started [OF inv receive(2)] receive(4) show ?thesis
    by (auto simp: sys_inv_def receive(1))
next
  case (done_wg i)
  note p = worker_parts [OF done_wg(2,3), of Ended]
  from inv p started [OF inv done_wg(2)] done_wg(4,5) show ?thesis
    by (auto simp: sys_inv_def done_wg(1))
next
  case (copy i body m ord ids)
  note p = worker_parts [OF copy(2,3), of "Notifying body m ids"]
  have "copied_ok (Notifying body m ids)" by (simp add: copy(5))
  with inv p started [OF inv copy(2)] show ?thesis
    by (auto simp: sys_inv_def copy(1) simp del: copied_ok.simps)
next
  case (notify i body m rid ids)
  note p = worker_parts [OF notify(2,3), of "Notifying body m ids"]
  have "copied_ok (sy_workers c ! i)"
    using inv notify(2) by (simp add: sys_inv_def list_all_length)
  then have "rid \<in> set (mkeys m)" and "copied_ok (Notifying body m ids)" by (auto simp: notify(3))
  with inv p started [OF inv notify(2)] notify_one [of rid m ops body "sy_out c"] show ?thesis
    by (auto simp: sys_inv_def notify(1))
next
  case (again i body m)
  note p = worker_parts [OF again(2,3), of Receiving]
  from inv p started [OF inv again(2)] show ?thesis
    by (auto simp: sys_inv_def again(1))
next
  case return
  with inv show ?thesis by (auto simp: sys_inv_def)
qed

lemma client_step_inv:
  assumes inv: "sys_inv threads c" and step: "client_step ops threads c d"
  shows "sys_inv threads d"
  using step
proof (cases rule: client_step.cases)
  case start
  with inv show ?thesis by (auto simp: sys_inv_def list_all_length)
next
  case shutdown
  with inv show ?thesis by (auto simp: sys_inv_def close_service_def recipients_ok_def)
next
  case (send body)
  with inv show ?thesis
    by (auto simp: sys_inv_def Send_def recipients_ok_def)
next
  case (add x rid r)
  have "recipients_ok (AddRecipientToSchedule ops (sy_svc c) x rid r)"
    using inv by (simp add: sys_inv_def AddRecipientToSchedule_ok)
  with inv show ?thesis by (auto simp: sys_inv_def add)
next
  case (remove ord rid)
  have "recipients_ok (RemoveRecipient ops ord (sy_svc c) rid)"
    using inv by (simp add: sys_inv_def RemoveRecipient_ok)
  with inv show ?thesis by (auto simp: sys_inv_def remove)
qed

lemma sys_step_inv: "sys_inv threads c \<Longrightarrow> sys_step ops threads c d \<Longrightarrow> sys_inv threads d"
  unfolding sys_step_def using worker_step_inv client_step_inv by blast

interpretation workers: step_invariant
  "\<lambda>c. \<exists>svc. recipients_ok svc \<and> ns_ch svc = [] \<and> \<not> ns_closed svc \<and> c = sys_start svc" "sys_step ops threads" "sys_inv threads"
  for ops :: "'r recipient_ops" and threads :: nat
  by unfold_locales (auto intro: sys_inv_start sys_step_inv)

section \<open>The end of the service\<close>

lemma returned_all_done:
  assumes inv: "sys_inv threads c" and "sy_phase c = Returned" and "1 \<le> threads"
  shows "ns_ch (sy_svc c) = []" and "mset (sy_accepted c) = mset (map fst (sy_assigned c))"
    and "delivered (sy_out c) = mset (meant (sy_assigned c))" and "\<forall>w \<in> set (sy_workers c). w = Ended"
proof -
  have len: "length (sy_workers c) = threads" and wg: "filter (\<lambda>w. w \<noteq> Ended) (sy_workers c) = []"
    using inv assms(2) by (auto simp: sys_inv_def)
  from wg show ended: "\<forall>w \<in> set (sy_workers c). w = Ended" by (simp add: filter_empty_conv)
  from len assms(3) have "hd (sy_workers c) \<in> set (sy_workers c)" by (cases "sy_workers c") auto
  with ended have "Ended \<in> set (sy_workers c)" by auto
  with inv show ch: "ns_ch (sy_svc c) = []" by (simp add: sys_inv_def)
  from ended have "concat (map held (sy_workers c)) = []" and "concat (map pending (sy_workers c)) = []" by auto
  with inv ch show "mset (sy_accepted c) = mset (map fst (sy_assigned c))" and
    "delivered (sy_out c) = mset (meant (sy_assigned c))" by (simp_all add: sys_inv_def)
qed

text \<open>Steps during which a recipient stays registered for a schedule.\<close>

definition keeping_step :: "'r recipient_ops \<Rightarrow> nat \<Rightarrow> string \<Rightarrow> string \<Rightarrow> 'r ns_system \<Rightarrow> 'r ns_system \<Rightarrow> bool" where
  "keeping_step ops threads x rid c d \<longleftrightarrow> sys_step ops threads c d \<and> recipient_of (sy_svc d) x rid \<noteq> None"

definition kept :: "nat \<Rightarrow> string \<Rightarrow> string \<Rightarrow> 'r ns_system \<Rightarrow> bool" where
  "kept threads x rid c \<longleftrightarrow> sys_inv threads c \<and> recipient_of (sy_svc c) x rid \<noteq> None \<and>
     (\<forall>(body, ids) \<in> set (sy_assigned c). distinct ids \<and> (nb_Schedule body = x \<longrightarrow> rid \<in> set ids))"

lemma keeping_step_kept:
  assumes "kept threads x rid c" and "keeping_step ops threads x rid c d"
  shows "kept threads x rid d"
proof -
  have inv: "sys_inv threads d"
    using assms sys_step_inv by (auto simp: kept_def keeping_step_def)
  have "\<forall>(body, ids) \<in> set (sy_assigned d). distinct ids \<and> (nb_Schedule body = x \<longrightarrow> rid \<in> set ids)"
    using assms(2) [unfolded keeping_step_def sys_step_def]
  proof (elim conjE disjE)
    assume "worker_step ops c d"
    then show ?thesis
    proof (cases rule: worker_step.cases)
      case (copy i body m ord ids)
      have "distinct ids" by (simp add: copy(4,5) recipientsCopy_ok)
      moreover have "rid \<in> set ids" if "nb_Schedule body = x"
        using assms(1) that unfolding copy(4,5) set_visit mem_mkeys_iff by (simp add: kept_def mget_recipientsCopy)
      ultimately show ?thesis using assms(1) by (auto simp: kept_def copy(1))
    qed (use assms(1) in \<open>auto simp: kept_def\<close>)
  next
    assume "client_step ops threads c d"
    then show ?thesis
      by (cases rule: client_step.cases) (use assms(1) in \<open>auto simp: kept_def\<close>)
  qed
  with inv assms(2) show ?thesis by (simp add: kept_def keeping_step_def)
qed

lemma kept_start:
  "recipients_ok svc \<Longrightarrow> ns_ch svc = [] \<Longrightarrow> \<not> ns_closed svc \<Longrightarrow> recipient_of svc x rid \<noteq> None \<Longrightarrow> kept threads x rid (sys_start svc)"
  unfolding kept_def by (simp add: sys_inv_start) (simp add: sys_start_def)

interpretation keeping: step_invariant
  "\<lambda>c. \<exists>svc. recipients_ok svc \<and> ns_ch svc = [] \<and> \<not> ns_closed svc \<and> recipient_of svc x rid \<noteq> None \<and> c = sys_start svc"
  "keeping_step ops threads x rid" "kept threads x rid"
  for ops :: "'r recipient_ops" and threads x rid
  by (unfold_locales, blast intro: kept_start, erule (1) keeping_step_kept)

lemma count_meant:
  assumes "\<forall>(b, ids) \<in> set assigned. distinct ids \<and> (nb_Schedule b = x \<longrightarrow> rid \<in> set ids)" and "nb_Schedule body = x"
  shows "count (mset (meant assigned)) (body, rid) = count (mset (map fst assigned)) body"
  using assms(1)
proof (induction assigned)
  case (Cons a assigned)
  obtain b ids where a: "a = (b, ids)" by (cases a)
  have "count (mset (map (Pair b) ids)) (body, rid) = (if b = body then 1 else 0)"
  proof (cases "b = body")
    case True
    then have "count (mset (map (Pair b) ids)) (body, rid) = count (mset ids) rid"
      by (induction ids) auto
    with True Cons.prems assms(2) show ?thesis by (simp add: a distinct_count_atmost_1)
  next
    case False
    then have "(body, rid) \<notin> set (map (Pair b) ids)" by auto
    with False show ?thesis by (metis count_mset_0_iff)
  qed
  with Cons a show ?case by (simp add: meant_def)
qed (simp add: meant_def)

subsection \<open>Termination\<close>

fun load :: "'r worker \<Rightarrow> nat" where
  "load (Notifying body m ids) = Suc (length ids)"
| "load _ = 0"

definition rank :: "'r ns_system rel" where
  "rank = measures [\<lambda>c. 2 * length (ns_ch (sy_svc c)) + length (concat (map held (sy_workers c))),
     \<lambda>c. sum_list (map load (sy_workers c)), sy_wg, \<lambda>c. if sy_phase c = Returned then 0 else 1]"

lemma wf_rank: "wf rank"
  by (simp add: rank_def)

lemma sum_list_update_load:
  assumes "i < length ws" and "ws ! i = w0"
  shows "sum_list (map f (ws[i := w])) + f w0 = sum_list (map f ws) + (f w :: nat)"
  using assms
proof (induction ws arbitrary: i)
  case (Cons x ws)
  then show ?case by (cases i) auto
qed simp

lemma length_held_update:
  assumes "i < length ws" and "ws ! i = w0"
  shows "length (concat (map held (ws[i := w]))) + length (held w0) = length (concat (map held ws)) + length (held w)"
  using arg_cong [OF worker_parts(1) [OF assms, of w], of size] by simp

lemma worker_step_rank:
  assumes inv: "sys_inv threads c" and step: "worker_step ops c d"
  shows "(d, c) \<in> rank"
  using step
proof (cases rule: worker_step.cases)
  case (receive i body rest)
  with length_held_update [OF receive(2,3), of "Holding body"] show ?thesis by (simp add: rank_def)
next
  case (done_wg i)
  have "sy_workers c ! i \<in> set (filter (\<lambda>w. w \<noteq> Ended) (sy_workers c))"
    using nth_mem [OF done_wg(2)] done_wg(3) by simp
  then have "0 < length (filter (\<lambda>w. w \<noteq> Ended) (sy_workers c))" by (rule length_pos_if_in_set)
  with inv have "0 < sy_wg c" by (simp add: sys_inv_def)
  with length_held_update [OF done_wg(2,3), of Ended] sum_list_update_load [OF done_wg(2,3), of load Ended] done_wg(1)
  show ?thesis by (simp add: rank_def)
next
  case (copy i body m ord ids)
  with length_held_update [OF copy(2,3), of "Notifying body m ids"] show ?thesis by (simp add: rank_def)
next
  case (notify i body m rid ids)
  with length_held_update [OF notify(2,3), of "Notifying body m ids"] sum_list_update_load [OF notify(2,3), of load "Notifying body m ids"]
  show ?thesis by (simp add: rank_def)
next
  case (again i body m)
  with length_held_update [OF again(2,3), of Receiving] sum_list_update_load [OF again(2,3), of load Receiving]
  show ?thesis by (simp add: rank_def)
next
  case return
  then show ?thesis by (simp add: rank_def)
qed

lemma worker_step_progress:
  assumes inv: "sys_inv threads c" and "sy_phase c = Draining"
  shows "\<exists>d. worker_step ops c d"
proof (cases "sy_wg c = 0")
  case True
  with assms(2) show ?thesis by (blast intro: worker_step.return)
next
  case False
  with inv have "filter (\<lambda>w. w \<noteq> Ended) (sy_workers c) \<noteq> []" by (auto simp: sys_inv_def)
  then obtain i where i: "i < length (sy_workers c)" "sy_workers c ! i \<noteq> Ended"
    by (auto simp: filter_empty_conv in_set_conv_nth)
  have closed: "ns_closed (sy_svc c)" using inv assms(2) by (simp add: sys_inv_def)
  show ?thesis
  proof (cases "sy_workers c ! i")
    case Receiving
    with i closed show ?thesis
      by (cases "ns_ch (sy_svc c)") (blast intro: worker_step.receive worker_step.done_wg)+
  next
    case (Notifying body m ids)
    with i show ?thesis by (cases ids) (blast intro: worker_step.notify worker_step.again)+
  qed (use i in \<open>blast intro: worker_step.copy\<close>)+
qed

lemma worker_step_frame:
  assumes "worker_step ops c d"
  shows "sy_accepted d = sy_accepted c" and "ns_recipients (sy_svc d) = ns_recipients (sy_svc c)"
    and "sy_phase c = Draining \<Longrightarrow> sy_phase d = Draining \<or> sy_phase d = Returned"
  using assms by (cases rule: worker_step.cases; simp)+

text \<open>So the workers alone bring a draining service to its end.\<close>

lemma drain_completes:
  assumes "sys_inv threads c" and "sy_phase c = Draining" and "recipient_of (sy_svc c) x rid \<noteq> None"
  shows "\<exists>d. (keeping_step ops threads x rid)\<^sup>*\<^sup>* c d \<and> sy_phase d = Returned \<and> sy_accepted d = sy_accepted c"
  using assms
proof (induction c rule: wf_induct_rule [OF wf_rank, case_names less])
  case (less c)
  note 2 = less
  from worker_step_progress [OF 2(2,3)] obtain e where e: "worker_step ops c e" by blast
  note fr = worker_step_frame [OF e]
  have rec: "recipient_of (sy_svc e) x rid \<noteq> None"
    using 2(4) fr(2) by (simp add: recipient_of_def)
  with e have k: "keeping_step ops threads x rid c e" by (simp add: keeping_step_def sys_step_def)
  from fr(3) [OF 2(3)] show ?case
  proof
    assume "sy_phase e = Draining"
    from 2(1) [OF worker_step_rank [OF 2(2) e] worker_step_inv [OF 2(2) e] this rec] obtain d where
      "(keeping_step ops threads x rid)\<^sup>*\<^sup>* e d" "sy_phase d = Returned" "sy_accepted d = sy_accepted e" by blast
    with k fr(1) show ?thesis by (metis converse_rtranclp_into_rtranclp)
  next
    assume "sy_phase e = Returned"
    with k fr(1) show ?thesis by blast
  qed
qed

text \<open>While the service drains, the rest of the operator cannot give the workers more to do.\<close>

lemma client_step_draining:
  assumes "sys_inv threads c" and "sy_phase c = Draining" and "client_step ops threads c d"
  shows "sy_phase d = Draining \<and> ((e, d) \<in> rank \<longleftrightarrow> (e, c) \<in> rank)"
  using assms(3,1,2) by (cases rule: client_step.cases) (auto simp: rank_def Send_def sys_inv_def)

section \<open>Properties\<close>

text \<open>A service with one policy, a notice sent before the start, and then the shutdown.\<close>

definition demo_svc :: "nat notification_service" where
  "demo_svc = AddRecipientToSchedule demo_ops NewNotificationService ''s'' ''p'' 7"

lemma demo_svc_ok: "recipients_ok demo_svc" "ns_ch demo_svc = []" "\<not> ns_closed demo_svc" "recipient_of demo_svc ''s'' ''p'' = Some 7"
proof -
  have "recipients_ok (NewNotificationService :: nat notification_service)"
    using NewNotificationService_inv [of demo_ops] by (simp add: ns_inv_def)
  then show "recipients_ok demo_svc" unfolding demo_svc_def by (rule AddRecipientToSchedule_ok)
qed (simp_all add: demo_svc_def, simp_all add: NewNotificationService_def)

lemma demo_shutdown:
  obtains c where "(keeping_step demo_ops 1 ''s'' ''p'')\<^sup>*\<^sup>* (sys_start demo_svc) c" and "sy_phase c = Draining"
    and "sy_accepted c = [demo_body]"
proof -
  let ?c1 = "(sys_start demo_svc)\<lparr>sy_svc := Send demo_svc demo_body, sy_accepted := [demo_body]\<rparr>"
  let ?c2 = "?c1\<lparr>sy_phase := Serving, sy_workers := replicate 1 Receiving, sy_wg := 1\<rparr>"
  let ?c3 = "?c2\<lparr>sy_svc := close_service (Send demo_svc demo_body), sy_phase := Draining\<rparr>"
  have "client_step demo_ops 1 (sys_start demo_svc) ?c1"
    using client_step.send [of demo_ops 1 "sys_start demo_svc" demo_body] demo_svc_ok by (simp add: sys_start_def capacity_def)
  moreover have "client_step demo_ops 1 ?c1 ?c2"
    using client_step.start [of ?c1 demo_ops 1] by (simp add: sys_start_def)
  moreover have "client_step demo_ops 1 ?c2 ?c3"
    using client_step.shutdown [of ?c2 demo_ops 1] by simp
  ultimately have "keeping_step demo_ops 1 ''s'' ''p'' (sys_start demo_svc) ?c1" "keeping_step demo_ops 1 ''s'' ''p'' ?c1 ?c2"
    "keeping_step demo_ops 1 ''s'' ''p'' ?c2 ?c3"
    using demo_svc_ok(4) by (simp_all add: keeping_step_def sys_step_def recipient_of_def close_service_def)
  then have "(keeping_step demo_ops 1 ''s'' ''p'')\<^sup>*\<^sup>* (sys_start demo_svc) ?c3"
    by (meson rtranclp.rtrancl_into_rtrancl rtranclp.rtrancl_refl)
  then show thesis by (rule that) simp_all
qed

text \<open>
  Claim C9. The shutdown loses no accepted notice: when \<^verbatim>\<open>Start\<close> has returned, however the
  workers, the senders and the policy reconciler interleaved and however many workers there are, the
  channel is empty, all workers have ended, and a recipient that stayed registered for a schedule
  has been notified of every body \<^verbatim>\<open>Send\<close> accepted for that schedule, once for each time it was sent.
\<close>

theorem shutdown_delivers_all:
  assumes "recipients_ok svc" and "ns_ch svc = []" and "\<not> ns_closed svc" and "1 \<le> threads"
    and "recipient_of svc x rid \<noteq> None" and "(keeping_step ops threads x rid)\<^sup>*\<^sup>* (sys_start svc) c"
    and "sy_phase c = Returned" and "nb_Schedule body = x"
  shows "ns_ch (sy_svc c) = [] \<and> (\<forall>w \<in> set (sy_workers c). w = Ended) \<and>
    count (mset (map (\<lambda>d. (dl_Body d, dl_Id d)) (sy_out c))) (body, rid) = count (mset (sy_accepted c)) body"
proof -
  have k: "kept threads x rid c"
    by (rule keeping.reachable_inv [OF _ assms(6)]) (use assms(1-3,5) in blast)
  then have inv: "sys_inv threads c" by (simp add: kept_def)
  note r = returned_all_done [OF inv assms(7,4)]
  from k have "\<forall>(b, ids) \<in> set (sy_assigned c). distinct ids \<and> (nb_Schedule b = x \<longrightarrow> rid \<in> set ids)"
    by (simp add: kept_def)
  from count_meant [OF this assms(8)] r show ?thesis by simp
qed

theorem shutdown_delivers_all_witness:
  "\<exists>c. (keeping_step demo_ops 1 ''s'' ''p'')\<^sup>*\<^sup>* (sys_start demo_svc) c \<and> sy_phase c = Returned \<and>
     count (mset (map (\<lambda>d. (dl_Body d, dl_Id d)) (sy_out c))) (demo_body, ''p'') = 1"
proof -
  note ok = demo_svc_ok(1-3)
  have rec: "recipient_of demo_svc ''s'' ''p'' \<noteq> None" using demo_svc_ok(4) by simp
  obtain b where b: "(keeping_step demo_ops 1 ''s'' ''p'')\<^sup>*\<^sup>* (sys_start demo_svc) b" "sy_phase b = Draining" "sy_accepted b = [demo_body]"
    by (rule demo_shutdown)
  from keeping.reachable_inv [OF _ b(1)] ok rec have "kept 1 ''s'' ''p'' b" by blast
  then have "sys_inv 1 b" and "recipient_of (sy_svc b) ''s'' ''p'' \<noteq> None" by (simp_all add: kept_def)
  from drain_completes [OF this(1) b(2) this(2), of demo_ops] obtain c where
    c: "(keeping_step demo_ops 1 ''s'' ''p'')\<^sup>*\<^sup>* b c" "sy_phase c = Returned" "sy_accepted c = [demo_body]" by (auto simp: b(3))
  from b(1) c(1) have run: "(keeping_step demo_ops 1 ''s'' ''p'')\<^sup>*\<^sup>* (sys_start demo_svc) c" by (rule rtranclp_trans)
  from shutdown_delivers_all [OF ok order_refl rec run c(2), of demo_body] c(3) run c(2) show ?thesis
    by (auto simp: demo_body_def)
qed

text \<open>
  Claim C15. The shutdown ends: while the service drains, some worker can always move or
  \<^verbatim>\<open>Start\<close> can return, and no run has infinitely many such moves, whatever sends and registrations
  come between them. Every answer of a recipient counts as one move.
\<close>

theorem shutdown_terminates:
  assumes "recipients_ok svc" and "ns_ch svc = []" and "\<not> ns_closed svc"
  shows "wf {(d, c). (sys_step ops threads)\<^sup>*\<^sup>* (sys_start svc) c \<and> sy_phase c = Draining \<and>
      (\<exists>b. (client_step ops threads)\<^sup>*\<^sup>* c b \<and> worker_step ops b d)} \<and>
    (\<forall>c. (sys_step ops threads)\<^sup>*\<^sup>* (sys_start svc) c \<and> sy_phase c = Draining \<longrightarrow> (\<exists>d. worker_step ops c d))"
proof
  have reach: "sys_inv threads c" if "(sys_step ops threads)\<^sup>*\<^sup>* (sys_start svc) c" for c
    by (rule workers.reachable_inv [OF _ that]) (use assms in blast)
  then show "\<forall>c. (sys_step ops threads)\<^sup>*\<^sup>* (sys_start svc) c \<and> sy_phase c = Draining \<longrightarrow> (\<exists>d. worker_step ops c d)"
    using worker_step_progress by blast
  have clients: "sys_inv threads b \<and> sy_phase b = Draining \<and> (\<forall>e. (e, b) \<in> rank \<longleftrightarrow> (e, c) \<in> rank)"
    if "(client_step ops threads)\<^sup>*\<^sup>* c b" and "sys_inv threads c" and "sy_phase c = Draining" for b c
    using that
    by (induction rule: rtranclp_induct) (use client_step_draining client_step_inv in blast)+
  show "wf {(d, c). (sys_step ops threads)\<^sup>*\<^sup>* (sys_start svc) c \<and> sy_phase c = Draining \<and>
      (\<exists>b. (client_step ops threads)\<^sup>*\<^sup>* c b \<and> worker_step ops b d)}"
  proof (rule wf_subset)
    show "wf (rank :: 'a ns_system rel)" by (rule wf_rank)
    show "{(d, c). (sys_step ops threads)\<^sup>*\<^sup>* (sys_start svc) c \<and> sy_phase c = Draining \<and>
        (\<exists>b. (client_step ops threads)\<^sup>*\<^sup>* c b \<and> worker_step ops b d)} \<subseteq> rank"
      using reach clients worker_step_rank by blast
  qed
qed

theorem shutdown_terminates_witness:
  "\<exists>c d. (sys_step demo_ops 1)\<^sup>*\<^sup>* (sys_start demo_svc) c \<and> sy_phase c = Draining \<and> worker_step demo_ops c d"
proof -
  obtain b where b: "(keeping_step demo_ops 1 ''s'' ''p'')\<^sup>*\<^sup>* (sys_start demo_svc) b" "sy_phase b = Draining" "sy_accepted b = [demo_body]"
    by (rule demo_shutdown)
  have "keeping_step demo_ops 1 ''s'' ''p'' \<le> sys_step demo_ops 1" by (auto simp: keeping_step_def)
  from rtranclp_mono [OF this] b(1) have "(sys_step demo_ops 1)\<^sup>*\<^sup>* (sys_start demo_svc) b" by blast
  with b(2) shutdown_terminates [OF demo_svc_ok(1-3), of demo_ops 1] show ?thesis by blast
qed

end
