(* ===== verification/Shutdown.thy ===== *)
theory Shutdown
  imports Notification_Workers Cron_Service
begin

text \<open>
  The end of the operator: \<^verbatim>\<open>Start\<close> of the cron service, which at the end of its context stops
  the firing of entries and waits for the jobs still running, one minute at most, beside the
  notification service, which closes at the end of the same context. Jobs are goroutines of the cron
  library; a job that ends may send a notice. Time is counted in nanoseconds from the call of the
  library's \<^verbatim>\<open>Stop\<close>.
\<close>

section \<open>The cron service\<close>

definition shutdown_limit :: nat where
  "shutdown_limit = 60 * 1000000000"

record cron_run =
  cr_phase :: start_phase
  cr_jobs :: "cron_key list"
  cr_waited :: nat

datatype cron_event =
    CronStarts
  | Fires cron_key
  | JobEnds cron_key
  | ContextEnds
  | TimePasses nat
  | CronReturns

inductive cron_step :: "cron_event \<Rightarrow> cron_run \<Rightarrow> cron_run \<Rightarrow> bool" where
  starts: "cr_phase c = NotStarted \<Longrightarrow> cron_step CronStarts c (c\<lparr>cr_phase := Serving\<rparr>)"
| fires: "cr_phase c = Serving \<Longrightarrow> cron_step (Fires k) c (c\<lparr>cr_jobs := cr_jobs c @ [k]\<rparr>)"
| job_ends: "k \<in> set (cr_jobs c) \<Longrightarrow> cron_step (JobEnds k) c (c\<lparr>cr_jobs := remove1 k (cr_jobs c)\<rparr>)"
| context_ends: "cr_phase c = Serving \<Longrightarrow> cron_step ContextEnds c (c\<lparr>cr_phase := Draining, cr_waited := 0\<rparr>)"
| time_passes: "cr_phase c = Draining \<Longrightarrow> cron_step (TimePasses d) c (c\<lparr>cr_waited := cr_waited c + d\<rparr>)"
| returns: "cr_phase c = Draining \<Longrightarrow> cr_jobs c = [] \<or> shutdown_limit \<le> cr_waited c \<Longrightarrow>
    cron_step CronReturns c (c\<lparr>cr_phase := Returned\<rparr>)"

inductive_simps cron_step_simps:
  "cron_step CronStarts c d" "cron_step (Fires k) c d" "cron_step (JobEnds k) c d" "cron_step ContextEnds c d"
  "cron_step (TimePasses n) c d" "cron_step CronReturns c d"

definition cron_begin :: cron_run where
  "cron_begin = \<lparr>cr_phase = NotStarted, cr_jobs = [], cr_waited = 0\<rparr>"

definition cron_next :: "cron_run \<Rightarrow> cron_run \<Rightarrow> bool" where
  "cron_next c d \<longleftrightarrow> (\<exists>ev. cron_step ev c d)"

definition cron_run_ok :: "cron_run \<Rightarrow> bool" where
  "cron_run_ok c \<longleftrightarrow> (cr_phase c = NotStarted \<longrightarrow> cr_jobs c = []) \<and>
     (cr_phase c = Returned \<longrightarrow> cr_jobs c = [] \<or> shutdown_limit \<le> cr_waited c)"

interpretation cron_runs: step_invariant "\<lambda>c. c = cron_begin" cron_next cron_run_ok
  by unfold_locales (auto simp: cron_run_ok_def cron_begin_def cron_next_def elim!: cron_step.cases)

lemma cron_step_phase: "cron_step ev c d \<Longrightarrow> cr_phase c \<le> cr_phase d"
  by (auto simp: less_eq_start_phase_def elim!: cron_step.cases)

text \<open>Once the context has ended, jobs can only become fewer.\<close>

lemma cron_step_stopped:
  "cron_step ev c d \<Longrightarrow> cr_phase c \<in> {Draining, Returned} \<Longrightarrow>
     cr_phase d \<in> {Draining, Returned} \<and> mset (cr_jobs d) \<subseteq># mset (cr_jobs c)"
  by (auto elim!: cron_step.cases simp: mset_remove1)

lemma cron_stopped:
  assumes "cron_next\<^sup>*\<^sup>* c d" and "cr_phase c \<in> {Draining, Returned}"
  shows "cr_phase d \<in> {Draining, Returned} \<and> mset (cr_jobs d) \<subseteq># mset (cr_jobs c)"
  using assms(1)
proof (induction rule: rtranclp_induct)
  case base
  with assms(2) show ?case by simp
next
  case (step d e)
  then show ?case unfolding cron_next_def using cron_step_stopped subset_mset.order_trans by blast
qed

section \<open>Both services\<close>

text \<open>
  The manager gives both services one context; each sees its end at a time of its own. A job that ends
  calls \<^verbatim>\<open>Send\<close> with its notice, if it has one.
\<close>

record 'r stopping =
  so_done :: bool
  so_cron :: cron_run
  so_ns :: "'r ns_system"

definition job_sends :: "notification_body option \<Rightarrow> 'r ns_system \<Rightarrow> 'r ns_system" where
  "job_sends notice c =
     (case notice of
        None \<Rightarrow> c
      | Some body \<Rightarrow> c\<lparr>sy_svc := Send (sy_svc c) body,
          sy_accepted := sy_accepted c @ (if ns_closed (sy_svc c) \<or> capacity \<le> length (ns_ch (sy_svc c)) then [] else [body])\<rparr>)"

inductive stop_step :: "'r recipient_ops \<Rightarrow> nat \<Rightarrow> 'r stopping \<Rightarrow> 'r stopping \<Rightarrow> bool" for ops threads where
  ends: "stop_step ops threads c (c\<lparr>so_done := True\<rparr>)"
| cron: "cron_step ev (so_cron c) cron' \<Longrightarrow> (ev = ContextEnds \<longrightarrow> so_done c) \<Longrightarrow> (\<forall>k. ev \<noteq> JobEnds k) \<Longrightarrow>
    stop_step ops threads c (c\<lparr>so_cron := cron'\<rparr>)"
| job: "cron_step (JobEnds k) (so_cron c) cron' \<Longrightarrow>
    stop_step ops threads c (c\<lparr>so_cron := cron', so_ns := job_sends notice (so_ns c)\<rparr>)"
| service: "sys_step ops threads (so_ns c) ns' \<Longrightarrow> (sy_phase (so_ns c) = Serving \<and> sy_phase ns' = Draining \<longrightarrow> so_done c) \<Longrightarrow>
    stop_step ops threads c (c\<lparr>so_ns := ns'\<rparr>)"

definition stop_begin :: "'r notification_service \<Rightarrow> 'r stopping" where
  "stop_begin svc = \<lparr>so_done = False, so_cron = cron_begin, so_ns = sys_start svc\<rparr>"

lemma job_sends_step: "job_sends notice c = c \<or> client_step ops threads c (job_sends notice c)"
proof (cases notice)
  case (Some body)
  show ?thesis using client_step.send [of ops threads c body] by (simp add: job_sends_def Some)
qed (simp add: job_sends_def)

lemma sys_step_closed:
  assumes "sys_step ops threads c d" and "sys_inv threads c" and "ns_closed (sy_svc c)"
  shows "ns_closed (sy_svc d)"
proof -
  from assms(2,3) have "sy_phase c \<in> {Draining, Returned}" by (simp add: sys_inv_def)
  moreover have "sys_inv threads d" by (rule sys_step_inv [OF assms(2,1)])
  moreover have "sy_phase d \<in> {Draining, Returned}"
    using calculation(1) assms(1) by (auto simp: sys_step_def elim!: worker_stepE client_stepE)
  ultimately show ?thesis by (simp add: sys_inv_def)
qed

text \<open>A notice sent after the service has closed is neither queued nor delivered.\<close>

lemma closed_drops: "ns_closed (sy_svc c) \<Longrightarrow> job_sends notice c = c"
  by (simp add: job_sends_def Send_def split: option.split)

lemma stop_step_ns:
  assumes "stop_step ops threads c d"
  shows "so_ns d = so_ns c \<or> sys_step ops threads (so_ns c) (so_ns d)"
  using assms
proof (cases rule: stop_step.cases)
  case (job k cron' notice)
  then show ?thesis using job_sends_step [of notice "so_ns c" ops threads] by (auto simp: sys_step_def)
qed auto

lemma stop_step_cron: "stop_step ops threads c d \<Longrightarrow> so_cron d = so_cron c \<or> cron_next (so_cron c) (so_cron d)"
  by (erule stop_step.cases) (auto simp: cron_next_def)

definition stop_ok :: "nat \<Rightarrow> 'r stopping \<Rightarrow> bool" where
  "stop_ok threads c \<longleftrightarrow> cron_run_ok (so_cron c) \<and> sys_inv threads (so_ns c) \<and>
     (cr_phase (so_cron c) \<in> {Draining, Returned} \<or> sy_phase (so_ns c) \<in> {Draining, Returned} \<longrightarrow> so_done c)"

lemma stop_step_done:
  assumes "stop_step ops threads c d" and "stop_ok threads c"
  shows "cr_phase (so_cron d) \<in> {Draining, Returned} \<or> sy_phase (so_ns d) \<in> {Draining, Returned} \<longrightarrow> so_done d"
  using assms(1)
proof (cases rule: stop_step.cases)
  case (cron ev cron')
  with assms(2) show ?thesis by (auto simp: stop_ok_def elim!: cron_step.cases)
next
  case (job k cron' notice)
  have "sy_phase (job_sends notice (so_ns c)) = sy_phase (so_ns c)" by (simp add: job_sends_def split: option.split)
  with job assms(2) show ?thesis by (auto simp: stop_ok_def cron_step_simps)
next
  case (service ns')
  have "sy_phase (so_ns c) \<in> {Draining, Returned} \<or> sy_phase (so_ns c) = Serving \<and> sy_phase ns' = Draining"
    if "sy_phase ns' \<in> {Draining, Returned}"
    using service(2) that by (auto simp: sys_step_def elim!: worker_stepE client_stepE)
  with service assms(2) show ?thesis by (auto simp: stop_ok_def)
qed (use assms(2) in \<open>auto simp: stop_ok_def\<close>)

lemma stop_step_ok:
  assumes "stop_ok threads c" and "stop_step ops threads c d"
  shows "stop_ok threads d"
  using stop_step_done [OF assms(2,1)] stop_step_ns [OF assms(2)] stop_step_cron [OF assms(2)] assms(1)
    sys_step_inv cron_runs.step_inv by (fastforce simp: stop_ok_def)

lemma stop_ok_begin: "recipients_ok svc \<Longrightarrow> ns_ch svc = [] \<Longrightarrow> \<not> ns_closed svc \<Longrightarrow> stop_ok threads (stop_begin svc)"
  using cron_runs.initial_inv [OF refl] sys_inv_start [of svc threads]
  by (simp add: stop_ok_def stop_begin_def) (simp add: sys_start_def cron_begin_def)

interpretation stops: step_invariant
  "\<lambda>c. \<exists>svc. recipients_ok svc \<and> ns_ch svc = [] \<and> \<not> ns_closed svc \<and> c = stop_begin svc" "stop_step ops threads" "stop_ok threads"
  for ops :: "'r recipient_ops" and threads :: nat
  by unfold_locales (use stop_ok_begin in blast, rule stop_step_ok)

lemma stop_steps_cron: "(stop_step ops threads)\<^sup>*\<^sup>* c d \<Longrightarrow> cron_next\<^sup>*\<^sup>* (so_cron c) (so_cron d)"
proof (induction rule: rtranclp_induct)
  case (step d e)
  from stop_step_cron [OF step(2)] step.IH show ?case by (metis rtranclp.rtrancl_into_rtrancl)
qed simp

lemma stop_step_closed:
  assumes "stop_step ops threads c d" and "stop_ok threads c" and "ns_closed (sy_svc (so_ns c))"
  shows "ns_closed (sy_svc (so_ns d))"
  using stop_step_ns [OF assms(1)] sys_step_closed [OF _ _ assms(3)] assms(2,3) by (auto simp: stop_ok_def)

section \<open>Properties\<close>


text \<open>A job that ends in time for the cron service is too late for its notice, once the other service has closed.\<close>

lemma late_notice_lost:
  assumes "recipients_ok svc" and "ns_ch svc = []" and "\<not> ns_closed svc"
    and "(stop_step ops threads)\<^sup>*\<^sup>* (stop_begin svc) c" and "ns_closed (sy_svc (so_ns c))"
    and "cron_step (JobEnds k) (so_cron c) cron'"
  shows "stop_step ops threads c (c\<lparr>so_cron := cron', so_ns := job_sends (Some body) (so_ns c)\<rparr>) \<and>
    job_sends (Some body) (so_ns c) = so_ns c"
  using stop_step.job [OF assms(6)] closed_drops [OF assms(5)] by blast

text \<open>A job runs when the context ends; the notification service closes first.\<close>

definition demo_stopping :: "nat stopping" where
  "demo_stopping =
     \<lparr>so_done = True, so_cron = \<lparr>cr_phase = Draining, cr_jobs = [(''office'', ''stop'', ''K:web'')], cr_waited = 0\<rparr>, so_ns = sys_start demo_svc\<rparr>"

lemma demo_stopping_reachable: "(stop_step demo_ops 1)\<^sup>*\<^sup>* (stop_begin demo_svc) demo_stopping"
proof -
  let ?k = "(''office'', ''stop'', ''K:web'')"
  let ?c0 = "stop_begin demo_svc"
  let ?c1 = "?c0\<lparr>so_cron := cron_begin\<lparr>cr_phase := Serving\<rparr>\<rparr>"
  let ?c2 = "?c1\<lparr>so_cron := (so_cron ?c1)\<lparr>cr_jobs := [?k]\<rparr>\<rparr>"
  let ?c3 = "?c2\<lparr>so_done := True\<rparr>"
  have "stop_step demo_ops 1 ?c0 ?c1"
    by (rule stop_step.cron [where ev = CronStarts]) (simp_all add: cron_step_simps stop_begin_def cron_begin_def)
  moreover have "stop_step demo_ops 1 ?c1 ?c2"
    using stop_step.cron [of "Fires ?k" ?c1 "so_cron ?c2"] by (simp add: cron_step_simps cron_begin_def)
  moreover have "stop_step demo_ops 1 ?c2 ?c3" by (rule stop_step.ends)
  moreover have "stop_step demo_ops 1 ?c3 demo_stopping"
    using stop_step.cron [of ContextEnds ?c3 "so_cron demo_stopping"]
    by (simp add: cron_step_simps cron_begin_def stop_begin_def demo_stopping_def)
  ultimately show ?thesis
    by (meson rtranclp.rtrancl_into_rtrancl rtranclp.rtrancl_refl)
qed


end
