(* ===== verification/Build_Pipeline.thy ===== *)
theory Build_Pipeline
  imports Go_Text
begin

text \<open>
  The pipelines under \<^verbatim>\<open>dagger/\<close> that package the chart and publish the image, and the helpers of
  the end-to-end tests, \<^verbatim>\<open>test/utils/utils.go\<close>. A container of the dagger library is the chain of
  calls that describes it, and running one is a parameter; so are the operating system and the commands
  the helpers run. Directories are names.
\<close>

section \<open>Containers\<close>

datatype secret = Secret string

datatype container_call =
    From string
  | WithMountedDirectory string string
  | WithWorkdir string
  | WithExec "string list"
  | WithSecretVariable string secret
  | WithFile string pipeline_file
  | WithRegistryAuth string string secret
and pipeline_file = GivenFile string | FileOf "container_call list" string

text \<open>The words of the commands a container runs, which appear in logs and process lists.\<close>

fun exec_words :: "container_call list \<Rightarrow> string list" where
  "exec_words [] = []"
| "exec_words (WithExec args # calls) = args @ exec_words calls"
| "exec_words (_ # calls) = exec_words calls"

lemma exec_words_append [simp]: "exec_words (xs @ ys) = exec_words xs @ exec_words ys"
  by (induction xs rule: exec_words.induct) simp_all

section \<open>The chart (dagger/helm)\<close>

record helm =
  hm_Ctn :: "container_call list option"
  hm_Tgz :: "pipeline_file option"
  hm_User :: "string option"
  hm_Password :: "secret option"

definition Helm_Package :: "helm \<Rightarrow> string \<Rightarrow> string option \<Rightarrow> string option \<Rightarrow> helm" where
  "Helm_Package m chart appVersion version =
     (let args = [''helm'', ''package'', ''.''];
          args = (case appVersion of None \<Rightarrow> args | Some v \<Rightarrow> args @ [''--app-version'', v]);
          args = (case version of None \<Rightarrow> args | Some v \<Rightarrow> args @ [''--version'', v]);
          ctn = [From ''alpine/helm'', WithMountedDirectory ''/chart'' chart, WithWorkdir ''/chart'', WithExec args,
                 WithExec [''sh'', ''-c'', ''mv timeterra-*.tgz timeterra.tgz'']]
      in m\<lparr>hm_Ctn := Some ctn, hm_Tgz := Some (FileOf ctn ''./timeterra.tgz'')\<rparr>)"

definition Helm_File :: "helm \<Rightarrow> pipeline_file option \<Rightarrow> helm" where
  "Helm_File m path = m\<lparr>hm_Tgz := path\<rparr>"

definition Helm_Credentials :: "helm \<Rightarrow> string option \<Rightarrow> secret option \<Rightarrow> helm" where
  "Helm_Credentials m user password = m\<lparr>hm_User := user, hm_Password := password\<rparr>"

definition push_container :: "helm \<Rightarrow> pipeline_file \<Rightarrow> string \<Rightarrow> string \<Rightarrow> string \<Rightarrow> container_call list" where
  "push_container m tgz scheme registry repository =
     [From ''alpine/helm''] @
     (case (hm_User m, hm_Password m) of
        (Some user, Some password) \<Rightarrow>
          [WithSecretVariable ''REGISTRY_PASSWORD'' password,
           WithExec [''sh'', ''-c'', ''echo $REGISTRY_PASSWORD | helm registry login '' @ registry @ '' -u '' @ user @ '' --password-stdin'']]
      | _ \<Rightarrow> []) @
     [WithWorkdir ''/tmp'', WithFile ''./chart.tgz'' tgz,
      WithExec [''sh'', ''-c'', ''helm push chart.tgz '' @ scheme @ ''://'' @ registry @ ''/'' @ repository]]"

definition Helm_Push :: "(container_call list \<Rightarrow> go_error + string) \<Rightarrow> helm \<Rightarrow> string \<Rightarrow> string \<Rightarrow> string \<Rightarrow> go_error + string" where
  "Helm_Push Stdout m scheme registry repository =
     (case hm_Tgz m of
        None \<Rightarrow> Inl (Err ''missing file to push'')
      | Some tgz \<Rightarrow> Stdout (push_container m tgz scheme registry repository))"

text \<open>The password of the registry reaches the commands through the environment only.\<close>

lemma push_hides_password:
  "hm_Password m \<noteq> None \<Longrightarrow>
     exec_words (push_container m tgz scheme registry repository) =
     exec_words (push_container (m\<lparr>hm_Password := Some other\<rparr>) tgz scheme registry repository)"
  by (auto simp: push_container_def split: option.split)

text \<open>A chart packaged before is the one that is pushed.\<close>

lemma package_then_push:
  "hm_Tgz (Helm_Package m chart appVersion version) = Some tgz \<Longrightarrow>
     (\<exists>ctn. tgz = FileOf ctn ''./timeterra.tgz'' \<and> WithMountedDirectory ''/chart'' chart \<in> set ctn) \<and>
     Helm_Push Stdout (Helm_Package m chart appVersion version) scheme registry repository =
       Stdout (push_container (Helm_Package m chart appVersion version) tgz scheme registry repository)"
  unfolding Helm_Push_def by (auto simp: Helm_Package_def Let_def)

section \<open>The image (dagger/operator)\<close>

record docker_build =
  db_Source :: string
  db_Platform :: string
  db_Dockerfile :: string
  db_BuildArgs :: "(string \<times> string) list"

record operator_image =
  oi_PlatformVariants :: "docker_build list"
  oi_User :: "string option"
  oi_Password :: "secret option"

text \<open>An index out of range is a panic, here \<^const>\<open>None\<close>.\<close>

fun build_variants :: "string \<Rightarrow> string list \<Rightarrow> docker_build list \<Rightarrow> docker_build list option" where
  "build_variants src [] variants = Some variants"
| "build_variants src (platform # platforms) variants =
     (let p = strings_Split platform (CHR ''/'') in
      if length p < 2 then None
      else build_variants src platforms (variants @
        [\<lparr>db_Source = src, db_Platform = platform, db_Dockerfile = ''Dockerfile.dagger'',
          db_BuildArgs = [(''TARGETOS'', p ! 0), (''TARGETARCH'', p ! 1)]\<rparr>]))"

definition Operator_Build :: "operator_image \<Rightarrow> string list \<Rightarrow> string \<Rightarrow> operator_image option" where
  "Operator_Build m platforms src = map_option (\<lambda>variants. m\<lparr>oi_PlatformVariants := variants\<rparr>) (build_variants src platforms [])"

definition Operator_Credentials :: "operator_image \<Rightarrow> string option \<Rightarrow> secret option \<Rightarrow> operator_image" where
  "Operator_Credentials m user password = m\<lparr>oi_User := user, oi_Password := password\<rparr>"

definition Operator_Publish ::
  "(container_call list \<Rightarrow> string \<Rightarrow> docker_build list \<Rightarrow> go_error + string) \<Rightarrow> operator_image \<Rightarrow> string \<Rightarrow> string \<Rightarrow> go_error + string" where
  "Operator_Publish publish m registry img =
     (if oi_PlatformVariants m = [] then Inl (Err ''missing containers to publish'')
      else (let ctn = (case (oi_User m, oi_Password m) of
                         (Some user, Some password) \<Rightarrow> [WithRegistryAuth registry user password]
                       | _ \<Rightarrow> [])
            in publish ctn (registry @ ''/'' @ img) (oi_PlatformVariants m)))"

lemma split_two: "length (strings_Split s c) < 2 \<longleftrightarrow> c \<notin> set s"
proof (induction s)
  case (Cons x s)
  then show ?case by (cases "strings_Split s c") auto
qed simp

lemma build_variants_None: "build_variants src platforms variants = None \<longleftrightarrow> (\<exists>p \<in> set platforms. CHR ''/'' \<notin> set p)"
  by (induction src platforms variants rule: build_variants.induct) (auto simp: Let_def split_two [symmetric])

lemma build_variants_platforms:
  "build_variants src platforms variants = Some vs \<Longrightarrow> map db_Platform vs = map db_Platform variants @ platforms"
  by (induction src platforms variants rule: build_variants.induct) (auto simp: Let_def split: if_splits)

text \<open>
  The build panics exactly when some platform has no slash; otherwise it describes one image for each
  platform, in order.
\<close>

lemma Operator_Build_exact:
  "Operator_Build m platforms src = None \<longleftrightarrow> (\<exists>p \<in> set platforms. CHR ''/'' \<notin> set p)"
  "Operator_Build m platforms src = Some m' \<Longrightarrow> map db_Platform (oi_PlatformVariants m') = platforms"
  using build_variants_platforms [of src platforms "[]"] by (auto simp: Operator_Build_def build_variants_None)

section \<open>Helpers of the end-to-end tests (test/utils)\<close>

text \<open>\<^verbatim>\<open>strings.Replace(s, old, "", -1)\<close> for a pattern that is not empty.\<close>

fun strings_Remove :: "string \<Rightarrow> string \<Rightarrow> string" where
  "strings_Remove old [] = []"
| "strings_Remove old (c # s) =
     (if HasPrefix (c # s) old then strings_Remove old (drop (length old - 1) s) else c # strings_Remove old s)"

definition GetNonEmptyLines :: "string \<Rightarrow> string list" where
  "GetNonEmptyLines output = filter (\<lambda>element. element \<noteq> '''') (strings_Split output (CHR 0x0A))"

text \<open>
  The system the helpers run on: the working directory, an environment and the commands, whose answers
  may depend on those run before. A command is its directory and its words; each gets the variable
  \<^verbatim>\<open>GO111MODULE=on\<close> added.
\<close>

type_synonym command_log = "(string \<times> string list) list"

record test_system =
  ts_Getwd :: "command_log \<Rightarrow> string \<times> go_error option"
  ts_LookupEnv :: "string \<Rightarrow> string option"
  ts_CombinedOutput :: "command_log \<Rightarrow> string \<times> string list \<Rightarrow> string \<times> string option"

definition GetProjectDir :: "test_system \<Rightarrow> command_log \<Rightarrow> string \<times> go_error option" where
  "GetProjectDir sys log =
     (case ts_Getwd sys log of
        (wd, Some err) \<Rightarrow> (wd, Some err)
      | (wd, None) \<Rightarrow> (strings_Remove ''/test/e2e'' wd, None))"

definition Run_command :: "test_system \<Rightarrow> string list \<Rightarrow> command_log \<Rightarrow> (string \<times> go_error option) \<times> command_log" where
  "Run_command sys args log =
     (let dir = fst (GetProjectDir sys log); cmdline = strings_Join args '' '';
          (output, err) = ts_CombinedOutput sys log (dir, args)
      in ((output, map_option (\<lambda>e. Err (cmdline @ '' failed with error: ('' @ e @ '') '' @ output)) err), log @ [(dir, args)]))"

definition prometheus_url :: string where
  "prometheus_url = ''https://github.com/prometheus-operator/prometheus-operator/releases/download/v0.68.0/bundle.yaml''"

definition certmanager_url :: string where
  "certmanager_url = ''https://github.com/jetstack/cert-manager/releases/download/v1.5.3/cert-manager.yaml''"

definition InstallPrometheusOperator :: "test_system \<Rightarrow> command_log \<Rightarrow> go_error option \<times> command_log" where
  "InstallPrometheusOperator sys log =
     (case Run_command sys [''kubectl'', ''create'', ''-f'', prometheus_url] log of ((output, err), log') \<Rightarrow> (err, log'))"

text \<open>An error of a removal is only printed.\<close>

definition UninstallPrometheusOperator :: "test_system \<Rightarrow> command_log \<Rightarrow> command_log" where
  "UninstallPrometheusOperator sys log = snd (Run_command sys [''kubectl'', ''delete'', ''-f'', prometheus_url] log)"

definition UninstallCertManager :: "test_system \<Rightarrow> command_log \<Rightarrow> command_log" where
  "UninstallCertManager sys log = snd (Run_command sys [''kubectl'', ''delete'', ''-f'', certmanager_url] log)"

definition InstallCertManager :: "test_system \<Rightarrow> command_log \<Rightarrow> go_error option \<times> command_log" where
  "InstallCertManager sys log =
     (case Run_command sys [''kubectl'', ''apply'', ''-f'', certmanager_url] log of
        ((output, Some err), log') \<Rightarrow> (Some err, log')
      | ((output, None), log') \<Rightarrow>
          (case Run_command sys [''kubectl'', ''wait'', ''deployment.apps/cert-manager-webhook'', ''--for'', ''condition=Available'',
                   ''--namespace'', ''cert-manager'', ''--timeout'', ''5m''] log' of
             ((output', err), log'') \<Rightarrow> (err, log'')))"

definition LoadImageToKindClusterWithName :: "test_system \<Rightarrow> string \<Rightarrow> command_log \<Rightarrow> go_error option \<times> command_log" where
  "LoadImageToKindClusterWithName sys name log =
     (let cluster = (case ts_LookupEnv sys ''KIND_CLUSTER'' of None \<Rightarrow> ''kind'' | Some v \<Rightarrow> v) in
      case Run_command sys [''kind'', ''load'', ''docker-image'', name, ''--name'', cluster] log of ((output, err), log') \<Rightarrow> (err, log'))"

text \<open>The lines are the pieces between newlines, without the empty ones: nothing else is lost.\<close>

lemma concat_split: "concat (strings_Split s c) = filter (\<lambda>x. x \<noteq> c) s"
proof (induction s)
  case (Cons x s)
  then show ?case by (cases "strings_Split s c") auto
qed simp

lemma split_no_separator: "\<forall>x \<in> set (strings_Split s c). c \<notin> set x"
proof (induction s)
  case (Cons x s)
  then show ?case by (cases "strings_Split s c") auto
qed simp

lemma GetNonEmptyLines_exact:
  "concat (GetNonEmptyLines output) = filter (\<lambda>c. c \<noteq> CHR 0x0A) output"
  "\<forall>line \<in> set (GetNonEmptyLines output). line \<noteq> [] \<and> CHR 0x0A \<notin> set line"
proof -
  have "concat (filter (\<lambda>x. x \<noteq> []) xs) = concat xs" for xs :: "string list" by (induction xs) auto
  then show "concat (GetNonEmptyLines output) = filter (\<lambda>c. c \<noteq> CHR 0x0A) output"
    by (simp add: GetNonEmptyLines_def concat_split)
  show "\<forall>line \<in> set (GetNonEmptyLines output). line \<noteq> [] \<and> CHR 0x0A \<notin> set line"
    using split_no_separator [of "output" "CHR 0x0A"] by (auto simp: GetNonEmptyLines_def)
qed

text \<open>The manager of certificates is waited for exactly when it could be applied.\<close>

lemma InstallCertManager_waits:
  "length (snd (InstallCertManager sys log)) = length log +
     (if snd (fst (Run_command sys [''kubectl'', ''apply'', ''-f'', certmanager_url] log)) = None then 2 else 1)"
  by (auto simp: InstallCertManager_def Run_command_def Let_def split: prod.splits option.splits)

end
