(* ===== verification/Interleaving.thy ===== *)
theory Interleaving
  imports Resource_Controller "HOL-Library.Sublist"
begin

text \<open>
  \<^verbatim>\<open>reconcileResource\<close> as the goroutine it is: between two calls of the schedule service, each of
  which holds the mutex, the reconcilers of other resources and of schedules run. A thread is at one of
  the points between two such calls; a step is one call, with what the code does up to the next one.
  The definitions of \<open>Resource_Controller\<close>, where a reconciliation is one step, are recovered by
  running a thread alone (\<open>alone_reconciles\<close>). \<^verbatim>\<open>Add\<close> is one step, though it takes the mutex
  after the call of the library: in between the new entry is in the Cron object under an id that
  nobody else knows.
\<close>

section \<open>Threads\<close>

record 'a reconciler_thread =
  th_Obj :: reconcile_resource
  th_Resource :: string
  th_Actions :: "(string, 'a) gomap"
  th_isActive :: "'a \<Rightarrow> bool"
  th_Ord :: range_order
  th_Api :: api_server
  th_Meta :: meta_api

text \<open>Where a thread is: what it will do next, with its local variables.\<close>

datatype reconcile_point =
    AtStart
  | AtDisable
  | AtMove schedule
  | AtList schedule "condition list"
  | AtPrune schedule "(string, int) gomap" "string list" "condition list" "string list"
  | AtRemove schedule "(string, int) gomap" string "string list" "condition list" "string list"
  | AtActions schedule "string list" "string list" "condition list"
  | AtStatus "condition list" "go_error option"
  | AtEnd "go_error option"

type_synonym 'c shared = "'c schedule_service \<times> effect_log"

fun reconcile_step :: "('c, 's) job_lib \<Rightarrow> 'a reconciler_thread \<Rightarrow> reconcile_point \<times> 'c shared \<Rightarrow> reconcile_point \<times> 'c shared" where
  "reconcile_step lib th (AtStart, svc, log) =
     (let obj = th_Obj th in
      if \<not> rr_Active obj then (AtDisable, svc, log)
      else (case api_GetSchedule (th_Api th) log (rr_Schedule obj) of
          Inl err \<Rightarrow>
            (AtStatus (addToConditions (th_Meta th) (rr_Conditions obj)
               (mk_condition (api_Now (th_Api th)) ''Ready'' ConditionFalse ''ScheduleNotExist''
                  ''Schedule specified in spec.schedule do not exist'')) (Some err),
             svc, log @ [EvEvent (rr_Kind obj) (rr_Name obj) EventWarning ''ScheduleNotExist''
               (''Schedule '' @ quoted (rr_Schedule obj) @ '' not exist'')])
        | Inr schedule \<Rightarrow> (AtMove schedule, svc, log)))"
| "reconcile_step lib th (AtDisable, svc, log) =
     (let obj = th_Obj th;
          (svc1, conditions1) = disableResource lib (th_Ord th) svc (rr_Conditions obj) (th_Resource th)
      in (AtStatus (addToConditions (th_Meta th) conditions1
            (mk_condition (api_Now (th_Api th)) ''Ready'' ConditionFalse ''Disabled'' '''')) None,
          svc1, log @ [EvEvent (rr_Kind obj) (rr_Name obj) EventNormal ''Disabled''
            (''Resource '' @ quoted (rr_Name obj) @ '' is not active'')]))"
| "reconcile_step lib th (AtMove schedule, svc, log) =
     (let obj = th_Obj th;
          (svc1, removedActions) =
            RemoveActionsOfResourceFromNonCurrentSchedule lib (th_Ord th) svc (rr_Schedule obj) (th_Resource th)
      in (AtList schedule (fold (\<lambda>action cs. removeFromConditions (th_Meta th) cs (conditionTypeForAction action))
            removedActions (rr_Conditions obj)), svc1, log))"
| "reconcile_step lib th (AtList schedule conditions, svc, log) =
     (let ids = GetActionsOfResource (th_Ord th) svc (rr_Schedule (th_Obj th)) (th_Resource th)
      in (AtPrune schedule ids (visit (th_Ord th) [''scheduled''] (mkeys ids)) conditions [], svc, log))"
| "reconcile_step lib th (AtPrune schedule ids [] conditions scheduledActions, svc, log) =
     (AtActions schedule scheduledActions (visit (th_Ord th) [''actions''] (mkeys (th_Actions th))) conditions, svc, log)"
| "reconcile_step lib th (AtPrune schedule ids (action # rest) conditions scheduledActions, svc, log) =
     (let entry = Get lib svc (case mget ids action of None \<Rightarrow> 0 | Some eid \<Rightarrow> eid) in
      if entry_Valid entry
      then (case mget (th_Actions th) action of
          None \<Rightarrow> (AtRemove schedule ids action rest conditions scheduledActions, svc, log)
        | Some _ \<Rightarrow> (AtPrune schedule ids rest conditions (scheduledActions @ [action]), svc, log))
      else (AtPrune schedule ids rest conditions scheduledActions, svc, log))"
| "reconcile_step lib th (AtRemove schedule ids action rest conditions scheduledActions, svc, log) =
     (AtPrune schedule ids rest (removeFromConditions (th_Meta th) conditions (conditionTypeForAction action)) scheduledActions,
      Remove lib svc (rr_Schedule (th_Obj th)) action (th_Resource th), log)"
| "reconcile_step lib th (AtActions schedule scheduledActions [] conditions, svc, log) =
     (AtStatus (addToConditions (th_Meta th) conditions
        (mk_condition (api_Now (th_Api th)) ''Ready'' ConditionTrue ''Active'' '''')) None, svc, log)"
| "reconcile_step lib th (AtActions schedule scheduledActions (actionName # rest) conditions, svc, log) =
     (case schedule_action lib (th_Api th) (th_Meta th) (th_Obj th) (th_Resource th)
             (action_on (th_Actions th) (th_isActive th) actionName)
             (ss_Actions (sc_Spec schedule)) scheduledActions actionName (svc, conditions, log) of
        (Some err, svc', conditions', log') \<Rightarrow> (AtStatus conditions' (Some err), svc', log')
      | (None, svc', conditions', log') \<Rightarrow> (AtActions schedule scheduledActions rest conditions', svc', log'))"
| "reconcile_step lib th (AtStatus conditions err, svc, log) =
     (let (err', log') = updateStatus (th_Api th) (th_Obj th) conditions err log in (AtEnd err', svc, log'))"
| "reconcile_step lib th (AtEnd err, svc, log) = (AtEnd err, svc, log)"

section \<open>A thread alone\<close>

text \<open>Some number of steps of one thread, with nothing in between.\<close>

definition alone :: "('p \<Rightarrow> 'p) \<Rightarrow> 'p \<Rightarrow> 'p \<Rightarrow> bool" where
  "alone step c d \<longleftrightarrow> (\<exists>n. (step ^^ n) c = d)"

lemma alone_refl: "alone step c c"
  unfolding alone_def by (rule exI [of _ 0]) simp

lemma alone_first: "alone step (step c) d \<Longrightarrow> alone step c d"
  unfolding alone_def by (metis funpow_simps_right(2) o_apply)

lemma alone_trans: "alone step c d \<Longrightarrow> alone step d e \<Longrightarrow> alone step c e"
  unfolding alone_def by (metis funpow_add o_apply)

lemma prune_alone:
  "prune_actions lib (th_Meta th) (rr_Schedule (th_Obj th)) (th_Resource th) (th_Actions th) ids todo (svc, cs, acc) = (svc', cs', acc') \<Longrightarrow>
     alone (reconcile_step lib th) (AtPrune schedule ids todo cs acc, svc, log) (AtPrune schedule ids [] cs' acc', svc', log)"
proof (induction todo arbitrary: svc cs acc)
  case Nil
  then show ?case by (simp add: alone_refl)
next
  case (Cons a todo)
  show ?case
  proof (cases "entry_Valid (Get lib svc (case mget ids a of None \<Rightarrow> 0 | Some eid \<Rightarrow> eid)) \<and> mget (th_Actions th) a = None")
    case True
    with Cons have "alone (reconcile_step lib th) (AtRemove schedule ids a todo cs acc, svc, log) (AtPrune schedule ids [] cs' acc', svc', log)"
      by (intro alone_first [of _ "(AtRemove schedule ids a todo cs acc, svc, log)"]) (simp add: Let_def)
    with True show ?thesis by (intro alone_first [of _ "(AtPrune schedule ids (a # todo) cs acc, svc, log)"]) (simp add: Let_def)
  next
    case False
    with Cons show ?thesis
      by (intro alone_first [of _ "(AtPrune schedule ids (a # todo) cs acc, svc, log)"]) (auto simp: Let_def split: option.splits if_splits)
  qed
qed

lemma actions_alone:
  "schedule_actions lib (th_Api th) (th_Meta th) (th_Obj th) (th_Resource th) (th_Actions th) (th_isActive th)
     (ss_Actions (sc_Spec schedule)) scheduled todo (svc, cs, log) = (failed, svc', cs', log') \<Longrightarrow>
   alone (reconcile_step lib th) (AtActions schedule scheduled todo cs, svc, log)
     (AtStatus (case failed of Some err \<Rightarrow> cs'
        | None \<Rightarrow> addToConditions (th_Meta th) cs' (mk_condition (api_Now (th_Api th)) ''Ready'' ConditionTrue ''Active'' '''')) failed,
      svc', log')"
proof (induction todo arbitrary: svc cs log)
  case Nil
  then show ?case
    by (intro alone_first [of _ "(AtActions schedule scheduled [] cs, svc, log)"]) (auto intro: alone_refl)
next
  case (Cons n todo)
  show ?case
    by (rule alone_first)
      (use Cons in \<open>auto simp: action_on_def alone_refl split: prod.splits option.splits\<close>)
qed


text \<open>The reconciliation in one piece.\<close>

definition at_once :: "('c, 's) job_lib \<Rightarrow> 'a reconciler_thread \<Rightarrow> 'c schedule_service \<Rightarrow> effect_log \<Rightarrow> go_error option \<times> 'c rc_state" where
  "at_once lib th svc log = reconcileResource lib (th_Ord th) (th_Api th) (th_Meta th) \<lparr>rc_svc = svc, rc_log = log\<rparr>
     (th_Obj th) (th_Resource th) (th_Actions th) (th_isActive th)"

lemma alone_at_once:
  assumes "at_once lib th svc log = (err, st')"
  shows "alone (reconcile_step lib th) (AtStart, svc, log) (AtEnd err, rc_svc st', rc_log st')"
proof (cases "rr_Active (th_Obj th)")
  case False
  then have "(reconcile_step lib th ^^ 3) (AtStart, svc, log) = (AtEnd err, rc_svc st', rc_log st')"
    using assms by (auto simp: at_once_def numeral_3_eq_3 reconcileResource_def Let_def disableResource_def updateStatus_def split: prod.splits)
  then show ?thesis unfolding alone_def by blast
next
  case act: True
  show ?thesis
  proof (cases "api_GetSchedule (th_Api th) log (rr_Schedule (th_Obj th))")
    case (Inl e)
    then have "(reconcile_step lib th ^^ 2) (AtStart, svc, log) = (AtEnd err, rc_svc st', rc_log st')"
      using assms act by (auto simp: at_once_def numeral_2_eq_2 reconcileResource_def Let_def updateStatus_def split: prod.splits)
    then show ?thesis unfolding alone_def by blast
  next
    case (Inr schedule)
    let ?x = "rr_Schedule (th_Obj th)" and ?z = "th_Resource th"
    obtain svc1 removed where n1:
      "RemoveActionsOfResourceFromNonCurrentSchedule lib (th_Ord th) svc ?x ?z = (svc1, removed)"
      by (metis prod.exhaust)
    let ?ids = "GetActionsOfResource (th_Ord th) svc1 ?x ?z"
    let ?cs1 = "fold (\<lambda>action cs. removeFromConditions (th_Meta th) cs (conditionTypeForAction action)) removed
      (rr_Conditions (th_Obj th))"
    let ?as = "visit (th_Ord th) [''scheduled''] (mkeys ?ids)"
    obtain svc2 cs2 scheduled where n2:
      "prune_actions lib (th_Meta th) ?x ?z (th_Actions th) ?ids ?as (svc1, ?cs1, []) = (svc2, cs2, scheduled)"
      by (metis prod_cases3)
    obtain failed svc3 cs3 log3 where n3:
      "schedule_actions lib (th_Api th) (th_Meta th) (th_Obj th) ?z (th_Actions th) (th_isActive th)
         (ss_Actions (sc_Spec schedule)) scheduled (visit (th_Ord th) [''actions''] (mkeys (th_Actions th))) (svc2, cs2, log) =
       (failed, svc3, cs3, log3)"
      by (metis prod_cases4)
    have "(reconcile_step lib th ^^ 3) (AtStart, svc, log) = (AtPrune schedule ?ids ?as ?cs1 [], svc1, log)"
      using act Inr n1 by (simp add: numeral_3_eq_3 Let_def)
    then have "alone (reconcile_step lib th) (AtStart, svc, log) (AtPrune schedule ?ids ?as ?cs1 [], svc1, log)"
      unfolding alone_def by blast
    note to_prune = alone_trans [OF this prune_alone [OF n2]]
    have "alone (reconcile_step lib th) (AtPrune schedule ?ids [] cs2 scheduled, svc2, log)
        (AtActions schedule scheduled (visit (th_Ord th) [''actions''] (mkeys (th_Actions th))) cs2, svc2, log)"
      by (rule alone_first) (simp add: alone_refl)
    note to_status = alone_trans [OF to_prune alone_trans [OF this actions_alone [OF n3]]]
    show ?thesis
      by (rule alone_trans [OF to_status], rule alone_first)
        (use assms act Inr n1 n2 n3 in \<open>auto simp: at_once_def reconcileResource_def Let_def alone_refl split: prod.splits option.splits\<close>)
  qed
qed

section \<open>What the others see of a step, and what they may do to a thread\<close>

text \<open>
  Two states of the service agree on a resource when its keys have the same ids and the same
  registrations. A thread only looks at its own resource, so it cannot tell such states apart.
\<close>

definition agree_on :: "('c, 's) job_lib \<Rightarrow> string \<Rightarrow> 'c schedule_service \<Rightarrow> 'c schedule_service \<Rightarrow> bool" where
  "agree_on lib z s t \<longleftrightarrow> (\<forall>a b. lookup3 (svc_m s) (a, b, z) = lookup3 (svc_m t) (a, b, z) \<and>
     registry lib s (a, b, z) = registry lib t (a, b, z))"

lemma agree_on_refl [simp]: "agree_on lib z s s"
  by (simp add: agree_on_def)

lemma agree_on_trans: "agree_on lib z s t \<Longrightarrow> agree_on lib z t u \<Longrightarrow> agree_on lib z s u"
  by (simp add: agree_on_def)

lemma agree_onI:
  "(\<And>a b. lookup3 (svc_m t) (a, b, z) = lookup3 (svc_m s) (a, b, z)) \<Longrightarrow>
   (\<And>a b. registry lib t (a, b, z) = registry lib s (a, b, z)) \<Longrightarrow> agree_on lib z s t"
  by (simp add: agree_on_def)

text \<open>The ids of other resources under the loops of the service.\<close>

lemma lookup3_remove_below_schedule:
  "c \<noteq> z \<Longrightarrow> lookup3 (svc_m (fst (remove_below_schedule lib x z ys acc))) (a, b, c) = lookup3 (svc_m (fst acc)) (a, b, c)"
  by (induction ys arbitrary: acc) (auto split: prod.splits)

lemma lookup3_remove_resource_loop:
  "c \<noteq> z \<Longrightarrow> lookup3 (svc_m (remove_resource_loop lib ord z xs s)) (a, b, c) = lookup3 (svc_m s) (a, b, c)"
  by (induction xs arbitrary: s) (simp_all add: lookup3_remove_below_schedule)

lemma lookup3_RemoveResource:
  "c \<noteq> z \<Longrightarrow> lookup3 (svc_m (RemoveResource lib ord s z)) (a, b, c) = lookup3 (svc_m s) (a, b, c)"
  by (simp add: RemoveResource_def lookup3_remove_resource_loop)

lemma lookup3_remove_non_current:
  "c \<noteq> z \<Longrightarrow> lookup3 (svc_m (fst (remove_non_current lib ord cur z xs acc))) (a, b, c) = lookup3 (svc_m (fst acc)) (a, b, c)"
proof (induction xs arbitrary: acc)
  case (Cons x xs)
  then show ?case
    by (cases acc) (simp add: lookup3_remove_below_schedule)
qed simp

lemma lookup3_NonCurrent:
  "c \<noteq> z \<Longrightarrow> lookup3 (svc_m (fst (RemoveActionsOfResourceFromNonCurrentSchedule lib ord s cur z))) (a, b, c) =
     lookup3 (svc_m s) (a, b, c)"
  by (simp add: RemoveActionsOfResourceFromNonCurrentSchedule_def lookup3_remove_non_current)

lemma lookup3_Add:
  "k \<noteq> (x, y, z) \<Longrightarrow> lookup3 (svc_m (snd (Add lib s x y z spec j))) k = lookup3 (svc_m s) k"
  by (auto simp: Add_def split: sum.splits)

lemma lookup3_UpdateCronSpec:
  assumes "svc_ok lib s" and "k \<noteq> (x, y, z)"
  shows "lookup3 (svc_m (fst (UpdateCronSpec lib s x y z spec))) k = lookup3 (svc_m s) k"
proof (cases "lookup3 (svc_m s) (x, y, z)")
  case (Some eid)
  with assms show ?thesis
    by (cases k; cases "lib_ParseStandard lib spec") (auto simp: UpdateCronSpec_invalid elim!: UpdateCronSpec_Some [OF assms(1)])
qed (simp add: UpdateCronSpec_None)

text \<open>The resource an operation of the service is about, and its effect on any other.\<close>

fun op_resource :: "'j cron_op \<Rightarrow> string" where
  "op_resource (AddOp (x, y, z) spec j) = z"
| "op_resource (RemoveOp (x, y, z)) = z"
| "op_resource (NonCurrentOp cur z) = z"
| "op_resource (ResourceOp z) = z"
| "op_resource (UpdateOp (x, y, z) spec) = z"

lemma spec_op_other: "op_resource op \<noteq> z \<Longrightarrow> spec_op parse R op (a, b, z) = R (a, b, z)"
  by (cases op rule: op_resource.cases) (auto split: sum.splits option.splits)

lemma exec_op_agree:
  assumes "svc_ok lib s" and "op_resource op \<noteq> z"
  shows "agree_on lib z s (exec_op lib ord s op)"
proof (rule agree_onI)
  show "lookup3 (svc_m (exec_op lib ord s op)) (a, b, z) = lookup3 (svc_m s) (a, b, z)" for a b
    using assms by (cases op rule: op_resource.cases)
      (auto simp: lookup3_Add lookup3_UpdateCronSpec lookup3_NonCurrent lookup3_RemoveResource Remove_def)
  show "registry lib (exec_op lib ord s op) (a, b, z) = registry lib s (a, b, z)" for a b
    using assms by (simp add: exec_op_refines spec_op_other)
qed

section \<open>The invariant of a thread\<close>

text \<open>
  What a thread knows at each point about its own resource, in terms of the registrations \<open>R\<close> of
  the resource when it started. \<open>has_settled\<close> is the aim: what an undisturbed reconciliation leaves,
  for a schedule the thread has read.
\<close>

type_synonym 's own_slice = "string \<Rightarrow> string \<Rightarrow> ('s \<times> cron_job) option"

definition own_slice :: "('c, 's) job_lib \<Rightarrow> string \<Rightarrow> 'c schedule_service \<Rightarrow> 's own_slice" where
  "own_slice lib z s = (\<lambda>a b. registry lib s (a, b, z))"

abbreviation th_schedule :: "'a reconciler_thread \<Rightarrow> string" where
  "th_schedule th \<equiv> rr_Schedule (th_Obj th)"

definition was_read :: "'a reconciler_thread \<Rightarrow> effect_log set \<Rightarrow> schedule \<Rightarrow> bool" where
  "was_read th L schedule \<longleftrightarrow> rr_Active (th_Obj th) \<and> (\<exists>log \<in> L. api_GetSchedule (th_Api th) log (th_schedule th) = Inr schedule)"

definition wanted_slice :: "('c, 's) job_lib \<Rightarrow> 'a reconciler_thread \<Rightarrow> 's own_slice \<Rightarrow> schedule \<Rightarrow> string list \<Rightarrow> 's own_slice" where
  "wanted_slice lib th R schedule todo = (\<lambda>a b.
     if a \<noteq> th_schedule th then None
     else if b \<in> set todo then R a b
     else wanted (lib_ParseStandard lib) (th_Obj th) (th_Resource th) (action_on (th_Actions th) (th_isActive th) b)
            (ss_Actions (sc_Spec schedule)) (R a b) b)"

definition stuck_action :: "('c, 's) job_lib \<Rightarrow> 'a reconciler_thread \<Rightarrow> 's own_slice \<Rightarrow> schedule \<Rightarrow> string \<Rightarrow> bool" where
  "stuck_action lib th R schedule b \<longleftrightarrow> action_on (th_Actions th) (th_isActive th) b \<and> R (th_schedule th) b = None \<and>
     bad_cron (lib_ParseStandard lib) (ss_Actions (sc_Spec schedule)) b"

definition has_settled :: "('c, 's) job_lib \<Rightarrow> 'a reconciler_thread \<Rightarrow> 's own_slice \<Rightarrow> effect_log set \<Rightarrow> 's own_slice \<Rightarrow> bool" where
  "has_settled lib th R L S \<longleftrightarrow>
     (if rr_Active (th_Obj th)
      then \<exists>schedule. was_read th L schedule \<and> S = wanted_slice lib th R schedule [] \<and> (\<forall>b. \<not> stuck_action lib th R schedule b)
      else S = (\<lambda>a b. None))"

definition pruning :: "('c, 's) job_lib \<Rightarrow> 'a reconciler_thread \<Rightarrow> 's own_slice \<Rightarrow> 'c schedule_service \<Rightarrow>
    (string, int) gomap \<Rightarrow> string list \<Rightarrow> string list \<Rightarrow> bool" where
  "pruning lib th R s ids todo scheduled \<longleftrightarrow> distinct todo \<and>
     (\<forall>b \<in> set todo. mget ids b = lookup3 (svc_m s) (th_schedule th, b, th_Resource th) \<and>
        lookup3 (svc_m s) (th_schedule th, b, th_Resource th) \<noteq> None) \<and>
     (\<forall>a b. own_slice lib (th_Resource th) s a b =
        (if a \<noteq> th_schedule th \<or> mget (th_Actions th) b = None \<and> b \<notin> set todo then None else R a b)) \<and>
     (\<forall>b. b \<in> set scheduled \<longleftrightarrow> mget (th_Actions th) b \<noteq> None \<and> R (th_schedule th) b \<noteq> None \<and> b \<notin> set todo)"

fun thread_inv :: "('c, 's) job_lib \<Rightarrow> 'a reconciler_thread \<Rightarrow> 's own_slice \<Rightarrow> effect_log set \<Rightarrow> 'c schedule_service \<Rightarrow> reconcile_point \<Rightarrow> bool" where
  "thread_inv lib th R L s AtStart \<longleftrightarrow> own_slice lib (th_Resource th) s = R"
| "thread_inv lib th R L s AtDisable \<longleftrightarrow> \<not> rr_Active (th_Obj th)"
| "thread_inv lib th R L s (AtMove schedule) \<longleftrightarrow> was_read th L schedule \<and> own_slice lib (th_Resource th) s = R"
| "thread_inv lib th R L s (AtList schedule cs) \<longleftrightarrow> was_read th L schedule \<and>
     own_slice lib (th_Resource th) s = (\<lambda>a b. if a \<noteq> th_schedule th then None else R a b)"
| "thread_inv lib th R L s (AtPrune schedule ids todo cs scheduled) \<longleftrightarrow> was_read th L schedule \<and> pruning lib th R s ids todo scheduled"
| "thread_inv lib th R L s (AtRemove schedule ids action todo cs scheduled) \<longleftrightarrow>
     was_read th L schedule \<and> pruning lib th R s ids (action # todo) scheduled \<and> mget (th_Actions th) action = None"
| "thread_inv lib th R L s (AtActions schedule scheduled todo cs) \<longleftrightarrow> was_read th L schedule \<and> distinct todo \<and>
     (\<forall>b \<in> set todo. mget (th_Actions th) b \<noteq> None) \<and>
     (\<forall>b. mget (th_Actions th) b \<noteq> None \<longrightarrow> (b \<in> set scheduled \<longleftrightarrow> R (th_schedule th) b \<noteq> None)) \<and>
     own_slice lib (th_Resource th) s = wanted_slice lib th R schedule todo \<and>
     (\<forall>b. b \<notin> set todo \<longrightarrow> \<not> stuck_action lib th R schedule b)"
| "thread_inv lib th R L s (AtStatus cs err) \<longleftrightarrow> (err = None \<longrightarrow> has_settled lib th R L (own_slice lib (th_Resource th) s))"
| "thread_inv lib th R L s (AtEnd err) \<longleftrightarrow> (err = None \<longrightarrow> has_settled lib th R L (own_slice lib (th_Resource th) s))"

lemma own_slice_agree: "agree_on lib z s t \<Longrightarrow> own_slice lib z s = own_slice lib z t"
  by (simp add: agree_on_def own_slice_def)

lemma was_read_mono: "was_read th L schedule \<Longrightarrow> L \<subseteq> L' \<Longrightarrow> was_read th L' schedule"
  by (auto simp: was_read_def)

lemma has_settled_mono: "has_settled lib th R L S \<Longrightarrow> L \<subseteq> L' \<Longrightarrow> has_settled lib th R L' S"
  unfolding has_settled_def by (metis was_read_mono)

lemma thread_inv_stable:
  "thread_inv lib th R L s pc \<Longrightarrow> agree_on lib (th_Resource th) s t \<Longrightarrow> L \<subseteq> L' \<Longrightarrow> thread_inv lib th R L' t pc"
proof (cases "(lib, th, R, L, s, pc)" rule: thread_inv.cases)
qed (simp_all add: own_slice_agree [of lib "th_Resource th" s t] pruning_def was_read_mono [of th L _ L'] has_settled_mono [of lib th R L _ L'],
    simp_all add: agree_on_def)

text \<open>
  A step is at most one operation of the service, on a key of the thread's own resource, and a
  registration is on a free key.
\<close>

definition own_step :: "('c, 's) job_lib \<Rightarrow> string \<Rightarrow> 'c schedule_service \<Rightarrow> 'c schedule_service \<Rightarrow> bool" where
  "own_step lib z s t \<longleftrightarrow> t = s \<or> (\<exists>ord op. t = exec_op lib ord s op \<and> op_resource op = z \<and> enabled (registry lib s) op)"

lemma own_step_refl [simp]: "own_step lib z s s"
  by (simp add: own_step_def)

lemma own_step_op: "op_resource op = z \<Longrightarrow> enabled (registry lib s) op \<Longrightarrow> own_step lib z s (exec_op lib ord s op)"
  by (auto simp: own_step_def)

lemma own_step_ok: "own_step lib z s t \<Longrightarrow> svc_ok lib s \<Longrightarrow> svc_ok lib t"
  by (auto simp: own_step_def exec_op_ok)

lemma own_step_agree: "own_step lib z s t \<Longrightarrow> svc_ok lib s \<Longrightarrow> c \<noteq> z \<Longrightarrow> agree_on lib c s t"
  by (auto simp: own_step_def exec_op_agree)

lemma own_slice_registry: "own_slice lib z s a b = registry lib s (a, b, z)"
  by (simp add: own_slice_def)

lemma listed_entry_valid:
  "svc_ok lib s \<Longrightarrow> pruning lib th R s ids (action # todo) scheduled \<Longrightarrow>
   entry_Valid (Get lib s (case mget ids action of None \<Rightarrow> 0 | Some eid \<Rightarrow> eid))"
  by (auto simp: pruning_def Get_def entry_Valid_def elim!: ok_entry)

lemma pruning_start:
  assumes ok: "svc_ok lib s" and sl: "own_slice lib (th_Resource th) s = (\<lambda>a b. if a \<noteq> th_schedule th then None else R a b)"
    and ids: "\<And>b. mget ids b = lookup3 (svc_m s) (th_schedule th, b, th_Resource th)"
    and todo: "distinct todo" "\<And>b. b \<in> set todo \<longleftrightarrow> mget ids b \<noteq> None"
  shows "pruning lib th R s ids todo []"
proof -
  have mem: "b \<in> set todo \<longleftrightarrow> R (th_schedule th) b \<noteq> None" for b
    using registry_None_iff [OF ok, of "(th_schedule th, b, th_Resource th)"] fun_cong [OF fun_cong [OF sl], of "th_schedule th" b]
    unfolding todo ids by (simp add: own_slice_registry)
  moreover have "lookup3 (svc_m s) (th_schedule th, b, th_Resource th) \<noteq> None" if "b \<in> set todo" for b
    using that unfolding todo ids .
  ultimately show ?thesis
    using todo(1) unfolding pruning_def by (auto simp: sl ids simp del: split_paired_Ex split_paired_All)
qed

lemma pruning_keep:
  "pruning lib th R s ids (action # todo) scheduled \<Longrightarrow> mget (th_Actions th) action \<noteq> None \<Longrightarrow>
   R (th_schedule th) action \<noteq> None \<Longrightarrow> pruning lib th R s ids todo (scheduled @ [action])"
  by (auto simp: pruning_def)

lemma pruning_registered:
  assumes "svc_ok lib s" and "pruning lib th R s ids (action # todo) scheduled"
  shows "R (th_schedule th) action \<noteq> None"
proof -
  have "registry lib s (th_schedule th, action, th_Resource th) \<noteq> None"
    using assms registry_None_iff [OF assms(1), of "(th_schedule th, action, th_Resource th)"] by (auto simp: pruning_def)
  moreover have "registry lib s (th_schedule th, action, th_Resource th) = R (th_schedule th) action"
    using assms(2) by (simp add: pruning_def own_slice_registry)
  ultimately show ?thesis by simp
qed

lemma pruning_remove:
  assumes "svc_ok lib s" and "pruning lib th R s ids (action # todo) scheduled" and "mget (th_Actions th) action = None"
  shows "pruning lib th R (removeLocked lib s (th_schedule th) action (th_Resource th)) ids todo scheduled"
  using assms(2,3) by (auto simp: pruning_def own_slice_registry registry_removeLocked [OF assms(1)])

lemma prune_done:
  assumes "pruning lib th R s ids [] scheduled" and "was_read th L schedule"
    and "distinct names" and "\<And>b. b \<in> set names \<longleftrightarrow> mget (th_Actions th) b \<noteq> None"
  shows "thread_inv lib th R L s (AtActions schedule scheduled names cs)"
  using assms by (auto simp: pruning_def wanted_slice_def stuck_action_def fun_eq_iff action_off)

lemma schedule_action_own_step:
  assumes ok: "svc_ok lib s" and reg: "n \<in> set scheduled \<longleftrightarrow> registry lib s (rr_Schedule obj, n, z) \<noteq> None"
    and r: "schedule_action lib api meta obj z active sas scheduled n (s, cs, log) = (failed, t, cs', log')"
  shows "own_step lib z s t"
proof -
  have "own_step lib z s (Remove lib s (rr_Schedule obj) n z)"
    using own_step_op [of "RemoveOp (rr_Schedule obj, n, z)" z lib s] by simp
  moreover have "own_step lib z s (snd (Add lib s (rr_Schedule obj) n z spec j))" if "n \<notin> set scheduled" for spec j
    using own_step_op [of "AddOp (rr_Schedule obj, n, z) spec j" z lib s] reg that by (simp del: split_paired_All split_paired_Ex)
  ultimately show ?thesis
    using r unfolding schedule_action_def Let_def
    by (auto split: if_splits option.splits prod.splits sum.splits) (metis snd_conv)+
qed

lemma schedule_action_inv:
  assumes ok: "svc_ok lib s" and inv: "thread_inv lib th R L s (AtActions schedule scheduled (n # todo) cs)"
    and r: "schedule_action lib (th_Api th) (th_Meta th) (th_Obj th) (th_Resource th) (action_on (th_Actions th) (th_isActive th) n)
      (ss_Actions (sc_Spec schedule)) scheduled n (s, cs, log) = (failed, t, cs', log')"
  shows "own_step lib (th_Resource th) s t"
    and "failed = None \<Longrightarrow> thread_inv lib th R L t (AtActions schedule scheduled todo cs'')"
proof -
  have sl: "registry lib s (a, b, th_Resource th) = wanted_slice lib th R schedule (n # todo) a b" for a b
    using inv by (simp add: own_slice_registry [symmetric])
  then have old: "registry lib s (th_schedule th, n, th_Resource th) = R (th_schedule th) n"
    by (simp add: wanted_slice_def)
  then have reg: "n \<in> set scheduled \<longleftrightarrow> registry lib s (th_schedule th, n, th_Resource th) \<noteq> None"
    using inv by simp
  show "own_step lib (th_Resource th) s t"
    by (rule schedule_action_own_step [OF ok reg r])
  note sp = schedule_action_spec [OF ok reg r]
  show "thread_inv lib th R L t (AtActions schedule scheduled todo cs'')" if "failed = None"
  proof -
    have "own_slice lib (th_Resource th) t = wanted_slice lib th R schedule todo"
    proof (intro ext)
      fix a b
      show "own_slice lib (th_Resource th) t a b = wanted_slice lib th R schedule todo a b"
        using inv sl [of a b] old by (auto simp: own_slice_registry wanted_slice_def sp(2))
    qed
    moreover have "\<not> stuck_action lib th R schedule n"
      using sp(3) that inv by (auto simp: stuck_action_def)
    ultimately show ?thesis
      using inv by auto
  qed
qed

lemma updateStatus_None: "updateStatus api obj cs err log = (None, log') \<Longrightarrow> err = None"
  by (cases err; cases "api_StatusUpdate api log (rr_Kind obj) (rr_Name obj) cs") (auto simp: updateStatus_def Let_def)

lemma has_settledI:
  "was_read th L schedule \<Longrightarrow> \<forall>b. \<not> stuck_action lib th R schedule b \<Longrightarrow> has_settled lib th R L (wanted_slice lib th R schedule [])"
  by (auto simp: has_settled_def was_read_def)

text \<open>Every step of a thread keeps its invariant and is an operation on its own resource.\<close>

lemma thread_step:
  assumes ok: "svc_ok lib s" and acts: "gomap_ok (th_Actions th)" and inv: "thread_inv lib th R L s pc" and log: "log \<in> L"
    and r: "reconcile_step lib th (pc, s, log) = (pc', t, log')"
  shows "own_step lib (th_Resource th) s t \<and> thread_inv lib th R L t pc'"
proof (cases "(lib, th, pc, s, log)" rule: reconcile_step.cases)
  case 1
  with r inv log show ?thesis
    by (auto simp: Let_def was_read_def split: if_splits sum.splits)
next
  case 2
  then have t: "t = RemoveResource lib (th_Ord th) s (th_Resource th)" and "\<exists>cs. pc' = AtStatus cs None"
    using r by (auto simp: Let_def disableResource_def)
  moreover have "own_step lib (th_Resource th) s t"
    using own_step_op [of "ResourceOp (th_Resource th)" "th_Resource th" lib s] by (simp add: t)
  ultimately show ?thesis
    using 2 inv ok by (auto simp: has_settled_def own_slice_registry fun_eq_iff registry_RemoveResource)
next
  case (3 _ _ schedule)
  obtain t' removed where nc:
    "RemoveActionsOfResourceFromNonCurrentSchedule lib (th_Ord th) s (th_schedule th) (th_Resource th) = (t', removed)"
    by (metis prod.exhaust)
  then have t: "t = t'" and "\<exists>cs. pc' = AtList schedule cs"
    using r 3 by (auto simp: Let_def)
  moreover have "own_step lib (th_Resource th) s t"
    using own_step_op [of "NonCurrentOp (th_schedule th) (th_Resource th)" "th_Resource th" lib s "th_Ord th"] nc by (simp add: t)
  ultimately show ?thesis
    using 3 inv NonCurrent_spec(2) [OF ok nc] by (auto simp: fun_eq_iff own_slice_registry)
next
  case (4 _ _ schedule cs)
  let ?ids = "GetActionsOfResource (th_Ord th) s (th_schedule th) (th_Resource th)"
  have "pruning lib th R s ?ids (visit (th_Ord th) [''scheduled''] (mkeys ?ids)) []"
  proof (rule pruning_start [OF ok])
    show "distinct (visit (th_Ord th) [''scheduled''] (mkeys ?ids))"
      using GetActionsOfResource_ok by (simp only: distinct_visit)
    show "b \<in> set (visit (th_Ord th) [''scheduled''] (mkeys ?ids)) \<longleftrightarrow> mget ?ids b \<noteq> None" for b
      by (simp only: set_visit mem_mkeys_iff)
  qed (use inv 4 in \<open>simp_all add: mget_GetActionsOfResource\<close>)
  then show ?thesis
    using r inv 4 by (auto simp: Let_def)
next
  case (5 _ _ schedule ids cs scheduled)
  have "thread_inv lib th R L s (AtActions schedule scheduled (visit (th_Ord th) [''actions''] (mkeys (th_Actions th))) cs)"
  proof (rule prune_done [where ids = ids])
    show "b \<in> set (visit (th_Ord th) [''actions''] (mkeys (th_Actions th))) \<longleftrightarrow> mget (th_Actions th) b \<noteq> None" for b
      by (simp only: set_visit mem_mkeys_iff)
  qed (use inv 5 acts in simp_all)
  then show ?thesis
    using r 5 by auto
next
  case (6 _ _ schedule ids action rest cs scheduled)
  then have pr: "pruning lib th R s ids (action # rest) scheduled" and rd: "was_read th L schedule"
    using inv by simp_all
  from listed_entry_valid [OF ok pr] pruning_registered [OF ok pr] pr rd r 6 show ?thesis
    by (auto simp: Let_def pruning_keep split: option.splits)
next
  case (7 _ _ schedule ids action rest cs scheduled)
  have t: "t = removeLocked lib s (th_schedule th) action (th_Resource th)"
    using r 7 by (auto simp: Remove_def)
  moreover have "own_step lib (th_Resource th) s t"
    using own_step_op [of "RemoveOp (th_schedule th, action, th_Resource th)" "th_Resource th" lib s] by (simp add: t Remove_def)
  ultimately show ?thesis
    using 7 inv r pruning_remove [OF ok, of th R ids action rest scheduled] by auto
next
  case (8 _ _ schedule scheduled cs)
  with r inv show ?thesis
    by (auto intro: has_settledI)
next
  case (9 _ _ schedule scheduled n rest cs)
  obtain failed u cs' log'' where sa:
    "schedule_action lib (th_Api th) (th_Meta th) (th_Obj th) (th_Resource th) (action_on (th_Actions th) (th_isActive th) n)
      (ss_Actions (sc_Spec schedule)) scheduled n (s, cs, log) = (failed, u, cs', log'')"
    by (metis prod_cases4)
  from schedule_action_inv [OF ok _ sa] inv 9 r sa show ?thesis
    by (cases failed) auto
next
  case (10 _ _ cs err)
  with r inv show ?thesis
    by (auto simp: Let_def split: prod.splits dest: updateStatus_None)
next
  case (11 _ _ err)
  with r inv show ?thesis by simp
qed

section \<open>A thread ends whatever the others do\<close>

text \<open>The point a thread is at after \<open>k\<close> of its own steps, when it finds the given states before them.\<close>

primrec point_after :: "('c, 's) job_lib \<Rightarrow> 'a reconciler_thread \<Rightarrow> (nat \<Rightarrow> 'c shared) \<Rightarrow> reconcile_point \<Rightarrow> nat \<Rightarrow> reconcile_point" where
  "point_after lib th shared pc 0 = pc"
| "point_after lib th shared pc (Suc k) = fst (reconcile_step lib th (point_after lib th shared pc k, shared k))"

text \<open>Every step goes on to a later part of the code or shortens the loop it is in.\<close>

fun point_rank :: "reconcile_point \<Rightarrow> nat \<times> nat" where
  "point_rank AtStart = (7, 0)"
| "point_rank AtDisable = (6, 0)"
| "point_rank (AtMove schedule) = (5, 0)"
| "point_rank (AtList schedule cs) = (4, 0)"
| "point_rank (AtPrune schedule ids todo cs scheduled) = (3, 2 * length todo)"
| "point_rank (AtRemove schedule ids action todo cs scheduled) = (3, 2 * length todo + 1)"
| "point_rank (AtActions schedule scheduled todo cs) = (2, length todo)"
| "point_rank (AtStatus cs err) = (1, 0)"
| "point_rank (AtEnd err) = (0, 0)"

definition earlier_point :: "(reconcile_point \<times> reconcile_point) set" where
  "earlier_point = inv_image (less_than <*lex*> less_than) point_rank"

lemma wf_earlier_point: "wf earlier_point"
  by (simp add: earlier_point_def wf_inv_image wf_lex_prod)

lemma reconcile_step_earlier:
  "(\<exists>err. pc = AtEnd err) \<or> (fst (reconcile_step lib th (pc, sh)), pc) \<in> earlier_point"
  by (cases "(lib, th, pc, sh)" rule: reconcile_step.cases)
    (auto simp: earlier_point_def Let_def split: sum.splits option.splits prod.splits)

lemma point_after_first:
  "point_after lib th shared pc (Suc k) = point_after lib th (\<lambda>i. shared (Suc i)) (fst (reconcile_step lib th (pc, shared 0))) k"
  by (induction k) simp_all

lemma point_after_ends: "\<exists>k err. point_after lib th shared pc k = AtEnd err"
  using wf_earlier_point
proof (induction pc arbitrary: shared rule: wf_induct_rule)
  case (less pc)
  show ?case
  proof (cases "\<exists>err. pc = AtEnd err")
    case True
    then show ?thesis by (intro exI [of _ 0]) simp
  next
    case False
    with reconcile_step_earlier have "(fst (reconcile_step lib th (pc, shared 0)), pc) \<in> earlier_point" by blast
    from less.IH [OF this, of "\<lambda>i. shared (Suc i)"] show ?thesis
      by (metis point_after_first)
  qed
qed

section \<open>Many threads\<close>

text \<open>
  Reconcilers of different resources (controller-runtime never runs two for the same object) and,
  between any two of their steps, operations of anybody else on resources that no thread is about:
  the other controllers, the refreshes of schedules, deletions. The log grows in both.
\<close>

inductive concurrent_step :: "('c, 's) job_lib \<Rightarrow> 'a reconciler_thread list \<Rightarrow>
    reconcile_point list \<times> 'c shared \<Rightarrow> reconcile_point list \<times> 'c shared \<Rightarrow> bool"
  for lib :: "('c, 's) job_lib" and ths :: "'a reconciler_thread list" where
  Run: "i < length ths \<Longrightarrow> reconcile_step lib (ths ! i) (pcs ! i, svc, log) = (pc', svc', log') \<Longrightarrow>
    concurrent_step lib ths (pcs, svc, log) (pcs[i := pc'], svc', log')"
| Elsewhere: "op_resource op \<notin> th_Resource ` set ths \<Longrightarrow> enabled (registry lib svc) op \<Longrightarrow>
    concurrent_step lib ths (pcs, svc, log) (pcs, exec_op lib ord svc op, log @ events)"

text \<open>The logs there have been since the start.\<close>

definition logs_since :: "effect_log \<Rightarrow> effect_log \<Rightarrow> effect_log set" where
  "logs_since log0 log = {l. prefix log0 l \<and> prefix l log}"

lemma logs_since_mono: "prefix log log' \<Longrightarrow> logs_since log0 log \<subseteq> logs_since log0 log'"
  by (auto simp: logs_since_def intro: prefix_order.trans)

lemma reconcile_step_log:
  assumes "reconcile_step lib th (pc, svc, log) = (pc', svc', log')"
  shows "prefix log log'"
proof -
  have "prefix log (snd (updateStatus api obj cs err log))" for api obj cs err
    by simp
  then have "prefix log l" if "updateStatus api obj cs err log = (e, l)" for api obj cs err e l
    using that by (metis snd_conv)
  then show ?thesis
    using assms by (cases "(lib, th, pc, svc, log)" rule: reconcile_step.cases)
      (auto simp: Let_def schedule_action_def split: if_splits option.splits sum.splits prod.splits)
qed

definition threads_inv :: "('c, 's) job_lib \<Rightarrow> 'a reconciler_thread list \<Rightarrow> 'c schedule_service \<Rightarrow> effect_log \<Rightarrow>
    reconcile_point list \<times> 'c shared \<Rightarrow> bool" where
  "threads_inv lib ths svc0 log0 st = (case st of (pcs, svc, log) \<Rightarrow>
     svc_ok lib svc \<and> prefix log0 log \<and> length pcs = length ths \<and>
     (\<forall>i < length ths. thread_inv lib (ths ! i) (own_slice lib (th_Resource (ths ! i)) svc0) (logs_since log0 log) svc (pcs ! i)))"

lemma threads_inv_start: "svc_ok lib svc0 \<Longrightarrow> threads_inv lib ths svc0 log0 (replicate (length ths) AtStart, svc0, log0)"
  by (simp add: threads_inv_def)

lemma threads_inv_step:
  assumes "distinct (map th_Resource ths)" and acts: "\<forall>th \<in> set ths. gomap_ok (th_Actions th)"
    and "concurrent_step lib ths st st'" and "threads_inv lib ths svc0 log0 st"
  shows "threads_inv lib ths svc0 log0 st'"
  using assms(3,4)
proof cases
  case (Run i pcs svc log pc' svc' log')
  have ok: "svc_ok lib svc" and len: "length pcs = length ths" and pre: "prefix log0 log"
    and inv: "\<And>j. j < length ths \<Longrightarrow> thread_inv lib (ths ! j) (own_slice lib (th_Resource (ths ! j)) svc0) (logs_since log0 log) svc (pcs ! j)"
    using assms(4) Run(1) by (auto simp: threads_inv_def)
  note more = reconcile_step_log [OF Run(4)]
  from acts Run(3) have "gomap_ok (th_Actions (ths ! i))" by simp
  moreover have "log \<in> logs_since log0 log" using pre by (simp add: logs_since_def)
  ultimately have one: "own_step lib (th_Resource (ths ! i)) svc svc'"
      "thread_inv lib (ths ! i) (own_slice lib (th_Resource (ths ! i)) svc0) (logs_since log0 log) svc' pc'"
    using thread_step [OF ok _ inv [OF Run(3)] _ Run(4)] by blast+
  have "agree_on lib (th_Resource (ths ! j)) svc svc'" if "j < length ths" "j \<noteq> i" for j
    using own_step_agree [OF one(1) ok] nth_eq_iff_index_eq [OF assms(1)] that Run(3) by auto
  then have "thread_inv lib (ths ! j) (own_slice lib (th_Resource (ths ! j)) svc0) (logs_since log0 log') svc' (pcs[i := pc'] ! j)"
    if "j < length ths" for j
    using that thread_inv_stable [OF one(2) agree_on_refl logs_since_mono [OF more]]
      thread_inv_stable [OF inv [OF that] _ logs_since_mono [OF more]] len by (cases "j = i") auto
  with own_step_ok [OF one(1) ok] len prefix_order.trans [OF pre more] show ?thesis
    by (simp add: Run(2) threads_inv_def)
next
  case (Elsewhere op svc pcs log ord events)
  then have "agree_on lib (th_Resource th) svc (exec_op lib ord svc op)" if "th \<in> set ths" for th
    using that assms(4) by (intro exec_op_agree) (auto simp: threads_inv_def)
  then have "thread_inv lib (ths ! i) R (logs_since log0 (log @ events)) (exec_op lib ord svc op) pc"
    if "i < length ths" "thread_inv lib (ths ! i) R (logs_since log0 log) svc pc" for i R pc
    using thread_inv_stable [OF that(2) _ logs_since_mono] that(1) by simp
  then show ?thesis
    using Elsewhere assms(4) by (auto simp: threads_inv_def exec_op_ok)
qed

lemma threads_inv_reachable:
  assumes "(concurrent_step lib ths)\<^sup>*\<^sup>* st st'" and "distinct (map th_Resource ths)"
    and "\<forall>th \<in> set ths. gomap_ok (th_Actions th)" and "threads_inv lib ths svc0 log0 st"
  shows "threads_inv lib ths svc0 log0 st'"
  using assms by (induction rule: rtranclp_induct) (auto intro: threads_inv_step)

text \<open>What a thread aims at is what the reconciliation in one step leaves.\<close>

lemma has_settled_at_once:
  assumes ok: "svc_ok lib svc" and acts: "gomap_ok (th_Actions th)"
    and set: "has_settled lib th (own_slice lib (th_Resource th) svc) L S" and "L \<noteq> {}"
  shows "\<exists>log \<in> L. S = own_slice lib (th_Resource th) (rc_svc (snd (at_once lib th svc log)))"
proof (cases "rr_Active (th_Obj th)")
  case False
  with set ok have "S = own_slice lib (th_Resource th) (rc_svc (snd (at_once lib th svc log)))" for log
    by (simp add: has_settled_def at_once_def reconcileResource_def Let_def disableResource_def updateStatus_def
        own_slice_def registry_RemoveResource)
  with assms(4) show ?thesis by blast
next
  case act: True
  with set obtain schedule log where S: "S = wanted_slice lib th (own_slice lib (th_Resource th) svc) schedule []"
    and no: "\<forall>b. \<not> stuck_action lib th (own_slice lib (th_Resource th) svc) schedule b"
    and "log \<in> L" and rd: "api_GetSchedule (th_Api th) log (th_schedule th) = Inr schedule"
    by (auto simp: has_settled_def was_read_def)
  obtain err st' where r: "at_once lib th svc log = (err, st')"
    by (metis prod.exhaust)
  let ?st = "\<lparr>rc_svc = svc, rc_log = log\<rparr>"
  have "svc_ok lib (rc_svc ?st)" and "api_GetSchedule (th_Api th) (rc_log ?st) (th_schedule th) = Inr schedule"
    using ok rd by simp_all
  then show ?thesis
  proof (rule active_reconcile_result [OF _ acts act _ r [unfolded at_once_def]], goal_cases)
    case (1 failed cs2 cs3 log3 scheduled)
    from 1(1) no have "failed = None"
      by (auto simp: unschedulable_def stuck_action_def own_slice_def)
    from 1(2) [OF this] have "S = own_slice lib (th_Resource th) (rc_svc st')"
      by (auto simp: S wanted_slice_def own_slice_def fun_eq_iff)
    with \<open>log \<in> L\<close> show ?thesis
      by (intro bexI [of _ log]) (simp_all add: r)
  qed
qed

text \<open>A thread run alone is a run of the whole system.\<close>

lemma alone_concurrent:
  assumes "alone (reconcile_step lib (ths ! i)) (pcs ! i, sh) (pc', sh')" and "i < length ths" and "i < length pcs"
  shows "(concurrent_step lib ths)\<^sup>*\<^sup>* (pcs, sh) (pcs[i := pc'], sh')"
proof -
  have "(reconcile_step lib (ths ! i) ^^ n) (pcs ! i, sh) = (pc', sh') \<Longrightarrow>
      (concurrent_step lib ths)\<^sup>*\<^sup>* (pcs, sh) (pcs[i := pc'], sh')" for n
  proof (induction n arbitrary: pc' sh')
    case 0
    then have "pcs[i := pc'] = pcs" by auto
    with 0 show ?case by simp
  next
    case (Suc n)
    obtain pc1 svc1 log1 where c: "(reconcile_step lib (ths ! i) ^^ n) (pcs ! i, sh) = (pc1, svc1, log1)"
      by (metis prod_cases3)
    obtain svc' log' where sh': "sh' = (svc', log')"
      by (cases sh')
    have "concurrent_step lib ths (pcs[i := pc1], svc1, log1) (pcs[i := pc1, i := pc'], svc', log')"
      using Suc.prems c assms(2,3) by (intro Run) (simp_all add: sh')
    with Suc.IH [OF c] show ?case
      by (simp add: sh')
  qed
  with assms(1) show ?thesis
    unfolding alone_def by blast
qed

section \<open>Properties\<close>



definition demo_thread :: "string \<Rightarrow> bool reconciler_thread" where
  "demo_thread name = \<lparr>th_Obj = demo_obj\<lparr>rr_Name := name\<rparr>, th_Resource = ''K:'' @ name, th_Actions = [(''stop'', True)],
     th_isActive = (\<lambda>b. b), th_Ord = insertion_order, th_Api = demo_api, th_Meta = keyed_meta\<rparr>"



text \<open>
  The condition on the others is needed, and the program does not ensure it: the controller of
  schedules refreshes the entries of a changed schedule while the reconciler of a resource may be
  running, as when both objects are changed together. When the refresh comes after
  \<open>GetActionsOfResource\<close> has listed the ids and before the entry is looked up, the reconciler takes
  the action for unscheduled and registers it again on the occupied key. Two entries then run the same
  job, one of them under an id nobody knows: it is still alive after the resource has been removed.
\<close>

theorem refresh_during_reconciliation:
  "let th = demo_thread ''n'';
       job = mk_job (th_Obj th) (th_Resource th) ''stop'';
       svc0 = snd (Add list_cron (New list_cron) ''office'' ''stop'' ''K:n'' ''0 21 * * *'' job);
       (pc1, svc1, log1) = (reconcile_step list_cron th ^^ 3) (AtStart, svc0, []);
       svc2 = fst (UpdateCronSpec list_cron svc1 ''office'' ''stop'' ''K:n'' ''0 20 * * *'');
       (pc3, svc3, log3) = (reconcile_step list_cron th ^^ 5) (pc1, svc2, log1);
       svc4 = RemoveResource list_cron insertion_order svc3 ''K:n''
   in pc3 = AtEnd None \<and> entry_Job (Get list_cron svc3 2) = Some job \<and> entry_Job (Get list_cron svc3 3) = Some job \<and>
      entry_Job (Get list_cron svc4 2) = Some job \<and> svc_gauge svc3 ''office'' ''stop'' = 2"
  by code_simp

end
