(* ===== verification/Refresh_Interleaving.thy ===== *)
theory Refresh_Interleaving
  imports Interleaving Schedule_Controller
begin

text \<open>
  The refresh of a schedule's cron entries in \<^verbatim>\<open>ScheduleReconciler.reconcile\<close> as the
  goroutine it is: it takes a copy of the registered keys and then updates them one call at a time,
  while the reconcilers of resources register and remove entries in between. Run alone it is
  \<open>refresh_actions\<close> of \<open>Schedule_Controller\<close>. With others running, the only entries of the
  schedule it can leave on another expression are those registered while it was running.
\<close>

section \<open>The thread\<close>

record schedule_refresh =
  rf_Schedule :: string
  rf_Actions :: "(string, schedule_action) gomap"
  rf_Ord :: range_order
  rf_Now :: int
  rf_Meta :: meta_api

text \<open>Before the copy is taken, at the head of the loop over actions, of the loop over resources, and after the loops.\<close>

datatype refresh_point =
    RfList "condition list"
  | RfActions "(string, (string, int) gomap) gomap" "string list" "condition list"
  | RfResources "(string, (string, int) gomap) gomap" string "string list" "string list" "condition list"
  | RfEnd bool "condition list"

fun refresh_step :: "('c, 'j, 's) cron_lib \<Rightarrow> schedule_refresh \<Rightarrow> refresh_point \<times> 'c shared \<Rightarrow> refresh_point \<times> 'c shared" where
  "refresh_step lib rf (RfList cs, svc, log) =
     (let scheduledActions = GetActions (rf_Ord rf) svc (rf_Schedule rf)
      in (RfActions scheduledActions (visit (rf_Ord rf) [''refresh''] (mkeys scheduledActions)) cs, svc, log))"
| "refresh_step lib rf (RfActions scheduledActions [] cs, svc, log) = (RfEnd False cs, svc, log)"
| "refresh_step lib rf (RfActions scheduledActions (action # rest) cs, svc, log) =
     (RfResources scheduledActions action (visit (rf_Ord rf) [''refresh'', action] (mkeys (midx scheduledActions action))) rest cs,
      svc, log)"
| "refresh_step lib rf (RfResources scheduledActions action [] rest cs, svc, log) = (RfActions scheduledActions rest cs, svc, log)"
| "refresh_step lib rf (RfResources scheduledActions action (resource # resources) rest cs, svc, log) =
     (case mget (rf_Actions rf) action of
        None \<Rightarrow>
          (let msg = ''action '' @ quoted action @ '' is used by '' @ quoted resource @
                     '', but was removed from the schedule''
           in (RfEnd True (addToConditions (rf_Meta rf) cs (mk_condition (rf_Now rf) ''Ready'' ConditionFalse ''MissingAction'' msg)),
               svc, log @ [EvEvent schedule_kind (rf_Schedule rf) EventWarning ''MissingAction'' msg]))
      | Some c \<Rightarrow>
          (case UpdateCronSpec lib svc (rf_Schedule rf) action resource (sa_Cron c) of (svc', updated) \<Rightarrow>
             (RfResources scheduledActions action resources rest cs, svc', log @
                [if \<not> updated
                 then EvEvent schedule_kind (rf_Schedule rf) EventWarning ''FailedUpdate''
                        (''failed to update resource '' @ quoted resource @ '' cron spec for action '' @ quoted action)
                 else EvEvent schedule_kind (rf_Schedule rf) EventNormal ''Updated''
                        (''resource '' @ quoted resource @ '' cron spec for action '' @ quoted action @ '' has been updated'')])))"
| "refresh_step lib rf (RfEnd returned cs, svc, log) = (RfEnd returned cs, svc, log)"

section \<open>The thread alone\<close>

lemma refresh_resources_alone:
  "refresh_resources lib (rf_Now rf) (rf_Meta rf) (rf_Schedule rf) (rf_Actions rf) action rs (svc, cs, log) = (returned, svc', cs', log') \<Longrightarrow>
   alone (refresh_step lib rf) (RfResources scheduled action rs rest cs, svc, log)
     (if returned then RfEnd True cs' else RfActions scheduled rest cs', svc', log')"
proof (induction rs arbitrary: svc cs log)
  case Nil
  then show ?case
    by (intro alone_first [of _ "(RfResources scheduled action [] rest cs, svc, log)"]) (auto intro: alone_refl)
next
  case (Cons r rs)
  then show ?case
    by (intro alone_first [of _ "(RfResources scheduled action (r # rs) rest cs, svc, log)"])
      (auto simp: Let_def alone_refl split: option.splits prod.splits)
qed

lemma refresh_actions_alone:
  "refresh_actions lib (rf_Ord rf) (rf_Now rf) (rf_Meta rf) (rf_Schedule rf) (rf_Actions rf) scheduled as (svc, cs, log) =
     (returned, svc', cs', log') \<Longrightarrow>
   alone (refresh_step lib rf) (RfActions scheduled as cs, svc, log) (RfEnd returned cs', svc', log')"
proof (induction as arbitrary: svc cs log)
  case Nil
  then show ?case
    by (intro alone_first [of _ "(RfActions scheduled [] cs, svc, log)"]) (auto intro: alone_refl)
next
  case (Cons a as)
  let ?rs = "visit (rf_Ord rf) [''refresh'', a] (mkeys (midx scheduled a))"
  obtain ret1 svc1 cs1 log1 where r:
    "refresh_resources lib (rf_Now rf) (rf_Meta rf) (rf_Schedule rf) (rf_Actions rf) a ?rs (svc, cs, log) = (ret1, svc1, cs1, log1)"
    by (metis prod_cases4)
  have "alone (refresh_step lib rf) (RfActions scheduled (a # as) cs, svc, log)
      (if ret1 then RfEnd True cs1 else RfActions scheduled as cs1, svc1, log1)"
    by (rule alone_first) (simp add: refresh_resources_alone [OF r])
  with Cons r show ?case
    by (cases ret1) (auto intro: alone_trans)
qed

section \<open>The thread among others\<close>

text \<open>
  Others register on free keys and remove what they like; only this thread updates entries of its
  schedule, since one worker serves the controller of schedules. The last component collects the
  keys others have registered since the start.
\<close>

fun added_keys :: "'j cron_op \<Rightarrow> cron_key set" where
  "added_keys (AddOp k spec j) = {k}"
| "added_keys op = {}"

fun updates_schedule :: "string \<Rightarrow> 'j cron_op \<Rightarrow> bool" where
  "updates_schedule x (UpdateOp (a, b, c) spec) \<longleftrightarrow> a = x"
| "updates_schedule x op \<longleftrightarrow> False"

type_synonym 'c refresh_config = "refresh_point \<times> 'c shared \<times> cron_key set"

inductive refresh_among :: "('c, 'j, 's) cron_lib \<Rightarrow> schedule_refresh \<Rightarrow> 'c refresh_config \<Rightarrow> 'c refresh_config \<Rightarrow> bool"
  for lib :: "('c, 'j, 's) cron_lib" and rf :: schedule_refresh where
  Own: "refresh_step lib rf (pc, svc, log) = (pc', svc', log') \<Longrightarrow>
    refresh_among lib rf (pc, (svc, log), added) (pc', (svc', log'), added)"
| Others: "\<not> updates_schedule (rf_Schedule rf) op \<Longrightarrow> enabled (registry lib svc) op \<Longrightarrow>
    refresh_among lib rf (pc, (svc, log), added) (pc, (exec_op lib ord svc op, log @ events), added \<union> added_keys op)"

text \<open>
  The invariant: a key below the schedule that nobody has registered since the start is gone, or
  refreshed, or as it was and still to be visited.
\<close>

fun to_visit :: "refresh_point \<Rightarrow> string \<Rightarrow> string \<Rightarrow> bool" where
  "to_visit (RfList cs) b z \<longleftrightarrow> True"
| "to_visit (RfActions scheduled as cs) b z \<longleftrightarrow> b \<in> set as \<and> z \<in> set (mkeys (midx scheduled b))"
| "to_visit (RfResources scheduled a rs as cs) b z \<longleftrightarrow>
     b = a \<and> z \<in> set rs \<or> b \<in> set as \<and> z \<in> set (mkeys (midx scheduled b))"
| "to_visit (RfEnd returned cs) b z \<longleftrightarrow> returned"

definition entry_state :: "(string \<Rightarrow> go_error + 's) \<Rightarrow> schedule_refresh \<Rightarrow> string \<Rightarrow> bool \<Rightarrow> ('s \<times> 'j) option \<Rightarrow> ('s \<times> 'j) option \<Rightarrow> bool" where
  "entry_state parse rf b todo old now \<longleftrightarrow> now = None \<or> now = refreshed parse (rf_Actions rf) b old \<or> todo \<and> now = old"

lemma entry_state_visited: "entry_state parse rf b todo old now \<Longrightarrow> entry_state parse rf b todo' old (refreshed parse (rf_Actions rf) b now)"
  by (auto simp: entry_state_def)

lemma entry_state_gone: "entry_state parse rf b todo old now \<Longrightarrow> now' = now \<or> now' = None \<Longrightarrow> entry_state parse rf b todo old now'"
  by (auto simp: entry_state_def)

definition refresh_inv :: "('c, 'j, 's) cron_lib \<Rightarrow> schedule_refresh \<Rightarrow> (cron_key \<Rightarrow> ('s \<times> 'j) option) \<Rightarrow> 'c refresh_config \<Rightarrow> bool" where
  "refresh_inv lib rf R c = (case c of (pc, (svc, log), added) \<Rightarrow> svc_ok lib svc \<and>
     (\<forall>b z. (rf_Schedule rf, b, z) \<notin> added \<longrightarrow>
        entry_state (lib_ParseStandard lib) rf b (to_visit pc b z) (R (rf_Schedule rf, b, z)) (registry lib svc (rf_Schedule rf, b, z))))"

lemma refresh_inv_ok: "refresh_inv lib rf R (pc, (svc, log), added) \<Longrightarrow> svc_ok lib svc"
  by (simp add: refresh_inv_def)

text \<open>A step that leaves the service alone may drop a key that is not registered.\<close>

lemma refresh_inv_goto:
  assumes "refresh_inv lib rf R (pc, (svc, log), added)"
    and "\<And>b z. to_visit pc b z \<Longrightarrow> registry lib svc (rf_Schedule rf, b, z) \<noteq> None \<Longrightarrow> to_visit pc' b z"
  shows "refresh_inv lib rf R (pc', (svc, log'), added)"
  using assms unfolding refresh_inv_def entry_state_def by (simp del: split_paired_All not_None_eq) blast

lemma refresh_inv_update:
  assumes inv: "refresh_inv lib rf R (pc, (svc, log), added)" and ok: "svc_ok lib svc'"
    and upd: "registry lib svc' = (registry lib svc)((rf_Schedule rf, a, c) :=
      refreshed (lib_ParseStandard lib) (rf_Actions rf) a (registry lib svc (rf_Schedule rf, a, c)))"
    and pc: "\<And>b z. (b, z) \<noteq> (a, c) \<Longrightarrow> to_visit pc' b z = to_visit pc b z"
  shows "refresh_inv lib rf R (pc', (svc', log'), added)"
proof -
  have "entry_state (lib_ParseStandard lib) rf b (to_visit pc' b z) (R (rf_Schedule rf, b, z)) (registry lib svc' (rf_Schedule rf, b, z))"
    if "(rf_Schedule rf, b, z) \<notin> added" for b z
  proof -
    from inv that have "entry_state (lib_ParseStandard lib) rf b (to_visit pc b z) (R (rf_Schedule rf, b, z)) (registry lib svc (rf_Schedule rf, b, z))"
      by (simp add: refresh_inv_def)
    then show ?thesis
      using pc [of b z] by (cases "(b, z) = (a, c)") (auto simp: upd intro: entry_state_visited)
  qed
  with ok show ?thesis
    by (simp add: refresh_inv_def)
qed

lemma listed_keys:
  assumes "svc_ok lib s"
  shows "registry lib s (x, b, z) \<noteq> None \<longleftrightarrow> z \<in> set (mkeys (midx (GetActions ord s x) b))"
    and "registry lib s (x, b, z) \<noteq> None \<Longrightarrow> b \<in> set (mkeys (GetActions ord s x))"
proof -
  show *: "registry lib s (x, b, z) \<noteq> None \<longleftrightarrow> z \<in> set (mkeys (midx (GetActions ord s x) b))" for b
    unfolding mem_mkeys_iff mget_GetActions using registry_None_iff [OF assms, of "(x, b, z)"] by simp
  show "registry lib s (x, b, z) \<noteq> None \<Longrightarrow> b \<in> set (mkeys (GetActions ord s x))"
    using * [of b] unfolding mem_mkeys_iff by (cases "mget (GetActions ord s x) b") (auto simp: midx_None)
qed

lemma refresh_own_inv:
  assumes inv: "refresh_inv lib rf R (pc, (svc, log), added)" and r: "refresh_step lib rf (pc, svc, log) = (pc', svc', log')"
  shows "refresh_inv lib rf R (pc', (svc', log'), added)"
proof (cases "(lib, rf, pc, svc, log)" rule: refresh_step.cases)
  case (1 _ _ cs)
  have "svc' = svc" and pc': "pc' = RfActions (GetActions (rf_Ord rf) svc (rf_Schedule rf))
      (visit (rf_Ord rf) [''refresh''] (mkeys (GetActions (rf_Ord rf) svc (rf_Schedule rf)))) cs"
    using r 1 by (auto simp: Let_def)
  then show ?thesis
    using refresh_inv_goto [OF inv, of pc' log'] listed_keys [OF refresh_inv_ok [OF inv]]
    unfolding pc' to_visit.simps set_visit by blast
next
  case (2 _ _ scheduled cs)
  with r refresh_inv_goto [OF inv, of pc' log'] show ?thesis by auto
next
  case (3 _ _ scheduled a as cs)
  have "svc' = svc" and pc': "pc' = RfResources scheduled a (visit (rf_Ord rf) [''refresh'', a] (mkeys (midx scheduled a))) as cs"
    using r 3 by auto
  moreover have "to_visit pc' b z" if "to_visit pc b z" for b z
    using that 3 unfolding pc' by (auto simp: to_visit.simps simp del: mem_mkeys_iff)
  ultimately show ?thesis
    using refresh_inv_goto [OF inv, of pc' log'] by blast
next
  case (4 _ _ scheduled a as cs)
  with r refresh_inv_goto [OF inv, of pc' log'] show ?thesis by auto
next
  case (5 _ _ scheduled a z rs as cs)
  note ok = refresh_inv_ok [OF inv]
  show ?thesis
  proof (cases "mget (rf_Actions rf) a")
    case None
    with 5 r refresh_inv_goto [OF inv, of pc' log'] show ?thesis by (auto simp: Let_def)
  next
    case (Some c)
    obtain svc1 upd where u: "UpdateCronSpec lib svc (rf_Schedule rf) a z (sa_Cron c) = (svc1, upd)"
      by (cases "UpdateCronSpec lib svc (rf_Schedule rf) a z (sa_Cron c)")
    then have svc1: "svc1 = fst (UpdateCronSpec lib svc (rf_Schedule rf) a z (sa_Cron c))" by simp
    have "pc' = RfResources scheduled a rs as cs" and "svc' = svc1"
      using 5 r Some u by auto
    moreover have "svc_ok lib svc1"
      unfolding svc1 by (rule UpdateCronSpec_ok [OF ok])
    ultimately show ?thesis
      using refresh_inv_update [OF inv _ registry_update_refreshed [OF ok Some, of "rf_Schedule rf" z, folded svc1], of pc' log'] 5
      by auto
  qed
next
  case (6 _ _ returned cs)
  with r inv show ?thesis
    by (simp add: refresh_inv_def)
qed

lemma spec_op_registry:
  assumes "\<not> updates_schedule x op" and "(x, b, z) \<notin> added_keys op"
  shows "spec_op parse R op (x, b, z) = R (x, b, z) \<or> spec_op parse R op (x, b, z) = None"
  using assms by (cases op rule: op_resource.cases) (auto split: sum.splits option.splits)

lemma refresh_others_inv:
  assumes inv: "refresh_inv lib rf R (pc, (svc, log), added)" and "\<not> updates_schedule (rf_Schedule rf) op"
    and "enabled (registry lib svc) op"
  shows "refresh_inv lib rf R (pc, (exec_op lib ord svc op, log'), added \<union> added_keys op)"
proof -
  note ok = refresh_inv_ok [OF inv]
  have "entry_state (lib_ParseStandard lib) rf b (to_visit pc b z) (R (rf_Schedule rf, b, z))
      (registry lib (exec_op lib ord svc op) (rf_Schedule rf, b, z))"
    if "(rf_Schedule rf, b, z) \<notin> added" "(rf_Schedule rf, b, z) \<notin> added_keys op" for b z
  proof (rule entry_state_gone)
    show "entry_state (lib_ParseStandard lib) rf b (to_visit pc b z) (R (rf_Schedule rf, b, z)) (registry lib svc (rf_Schedule rf, b, z))"
      using inv that(1) by (simp add: refresh_inv_def)
    show "registry lib (exec_op lib ord svc op) (rf_Schedule rf, b, z) = registry lib svc (rf_Schedule rf, b, z) \<or>
        registry lib (exec_op lib ord svc op) (rf_Schedule rf, b, z) = None"
      using spec_op_registry [OF assms(2) that(2)] by (simp only: exec_op_refines [OF ok])
  qed
  with exec_op_ok [OF ok assms(3)] show ?thesis
    by (simp add: refresh_inv_def)
qed

lemma refresh_inv_reachable:
  assumes "(refresh_among lib rf)\<^sup>*\<^sup>* c d" and "refresh_inv lib rf R c"
  shows "refresh_inv lib rf R d"
  using assms
proof (induction rule: rtranclp_induct)
  case (step d e)
  then have "refresh_inv lib rf R d" by blast
  with step(2) show ?case
    by cases (auto intro: refresh_own_inv refresh_others_inv)
qed

section \<open>Properties\<close>

text \<open>
  Run without interruption, the thread is the refresh of the reconciler: it ends with the same
  answer, conditions, entries and log.
\<close>

theorem refresh_alone:
  "alone (refresh_step lib rf) (RfList cs, svc, log)
     (case refresh_actions lib (rf_Ord rf) (rf_Now rf) (rf_Meta rf) (rf_Schedule rf) (rf_Actions rf)
        (GetActions (rf_Ord rf) svc (rf_Schedule rf))
        (visit (rf_Ord rf) [''refresh''] (mkeys (GetActions (rf_Ord rf) svc (rf_Schedule rf)))) (svc, cs, log) of
        (returned, svc', cs', log') \<Rightarrow> (RfEnd returned cs', svc', log'))"
  by (rule alone_first) (auto simp: Let_def intro: refresh_actions_alone split: prod.splits)



end
