(* ===== verification/Spec2Isabelle.thy ===== *)
theory Spec2Isabelle
  imports Status_Types Registration Command_Line Shutdown Build_Pipeline Refresh_Interleaving
begin

text \<open>
  TimeTerra is a Kubernetes operator that runs actions on resources at scheduled times: it starts and
  stops database clusters, EC2 instances and transfer servers, scales database clusters, sets the
  replicas of workloads and the bounds of autoscalers, and creates jobs. This development models
  the operator as its source under \<^verbatim>\<open>src/\<close> has it and proves what makes it correct.

  \<^bold>\<open>How the parts interact.\<close> A \<^verbatim>\<open>Schedule\<close> names actions with cron expressions and
  periods. A resource of one of seven kinds names a schedule and actions of its own. Reconciling a
  resource registers one cron entry per action both have, under the key (schedule, action, resource).
  A firing entry reads the schedule again, decides whether the action may run now, runs the job of
  the resource's kind and sends a notice. The notice goes through a bounded channel to the recipients
  that notification policies registered for the schedule. The scale job of the database kinds only
  creates an action execution, whose own reconciler drives a machine of phases, one step per
  reconciliation. Reconciling a schedule moves the registered entries to changed expressions.

  \<^bold>\<open>Theories, from the bottom.\<close>
  \<^item> \<^verbatim>\<open>TT_Prelude\<close>: Go maps as association lists with distinct keys, the unspecified order of
    \<^verbatim>\<open>range\<close> as a parameter that permutes the keys at each site, and the locale
    \<^verbatim>\<open>step_invariant\<close> of step relations with an invariant.
  \<^item> \<^verbatim>\<open>Go_Text\<close>, \<^verbatim>\<open>Json\<close>, \<^verbatim>\<open>Go_Duration\<close>: what the code uses of the packages
    strings, errors, strconv, encoding/json and time, and \<^verbatim>\<open>internal/controller/utils.go\<close>. The
    JSON parser is recursion with fuel; \<open>2 * length + 1\<close> is enough, since a nested value consumes a
    character, and the round-trip lemmas are proved with exactly this fuel; documents without numbers
    read back.
  \<^item> \<^verbatim>\<open>Cron_Service\<close>, \<^verbatim>\<open>Cron_Registry\<close>: \<^verbatim>\<open>internal/cron/schedule_service.go\<close>. The
    state is the three-level index, the state of the cron library (a parameter with a contract, met by a
    concrete list of entries) and the gauge. The invariant is \<open>svc_inv\<close>; the abstraction is a finite
    map from keys to parsed schedule and job, and every operation refines an update of this map.
  \<^item> \<^verbatim>\<open>Api_Types\<close>, \<^verbatim>\<open>World\<close>: the types of \<^verbatim>\<open>api/v1alpha1\<close>, and the effects on the
    API server, the clouds, the recorder and the metrics as a log. Every answer from outside is a
    function of the log so far, so the theorems hold for every sequence of answers.
  \<^item> \<^verbatim>\<open>Resource_Controller\<close>, \<^verbatim>\<open>Cron_Job\<close>: \<^verbatim>\<open>reconcileResource\<close> and the closure it
    registers, which is stored as the record of what it captures and run by \<open>run_cron_job\<close>.
  \<^item> \<^verbatim>\<open>Interleaving\<close>: \<^verbatim>\<open>reconcileResource\<close> as a thread that is at one point between two
    calls of the schedule service, many threads beside each other and beside everybody else who uses the
    service. A thread knows its own resource, and what it relies on is what the others guarantee.
  \<^item> \<^verbatim>\<open>Schedule_Controller\<close>: \<^verbatim>\<open>schedule_controller.go\<close>;
    \<^verbatim>\<open>Refresh_Interleaving\<close>: its refresh of the entries as a thread among those that register
    and remove them.
  \<^item> \<^verbatim>\<open>Job_Common\<close>, \<^verbatim>\<open>Aws_Jobs\<close>, \<^verbatim>\<open>K8s_Jobs\<close>: the reconcilers and jobs of the seven
    kinds. The loops over targets share a locale that every kind interprets.
  \<^item> \<^verbatim>\<open>Cluster_Scale\<close>, \<^verbatim>\<open>Scale_Safety\<close>, \<^verbatim>\<open>Scale_Progress\<close>: \<^verbatim>\<open>internal/action\<close>.
    The phases work on a manager, whose laws are the locale \<^verbatim>\<open>cluster_manager\<close>, interpreted by
    the managers of both database services. Safety is an invariant over all runs, lost status updates
    included; progress is that seven executions finish when the cloud cooperates: one per phase.
  \<^item> \<^verbatim>\<open>Action_Execution\<close>: \<^verbatim>\<open>actionexecution_controller.go\<close> and the scale handlers.
  \<^item> \<^verbatim>\<open>Feature_Gates\<close>, \<^verbatim>\<open>Startup\<close>, \<^verbatim>\<open>Command_Line\<close>: \<^verbatim>\<open>internal/feature\<close> and
    \<^verbatim>\<open>cmd/main.go\<close>, with the parser of the package flag. The loop over the arguments ends because
    each flag takes one away.
  \<^item> \<^verbatim>\<open>Notification_Service\<close>, \<^verbatim>\<open>Notification_Policy\<close>: the package
    \<^verbatim>\<open>notification\<close> and its controller, the worker as a function.
  \<^item> \<^verbatim>\<open>Notification_Workers\<close>, \<^verbatim>\<open>Shutdown\<close>: the goroutines of \<^verbatim>\<open>Start\<close> and
    \<^verbatim>\<open>run\<close> of this service with all their interleavings, and \<^verbatim>\<open>Start\<close> of the cron service
    beside it, as step relations.
  \<^item> \<^verbatim>\<open>Go_Memory\<close>, \<^verbatim>\<open>Api_Layout\<close>, \<^verbatim>\<open>Deep_Copy\<close>: Go values in an explicit
    memory, the layout of every type of \<^verbatim>\<open>api/v1alpha1\<close>, and every function of
    \<^verbatim>\<open>zz_generated.deepcopy.go\<close>.
  \<^item> \<^verbatim>\<open>Operator\<close>: all reconcilers, firing entries and executions as one step relation over the
    shared service; the locale \<^verbatim>\<open>resource_reconciler\<close> is interpreted by the seven kinds.
  \<^item> \<^verbatim>\<open>Event_Routing\<close>: \<^verbatim>\<open>SetupWithManager\<close> of the ten reconcilers, and the cluster: objects
    with generations, the requests their events cause, and the reconcilers that serve them.
  \<^item> \<^verbatim>\<open>Registration\<close>: the \<^verbatim>\<open>init\<close> functions, which register types and collectors.
  \<^item> \<^verbatim>\<open>Status_Types\<close>: the type of the status conditions, kept by every handler in every run.
  \<^item> \<^verbatim>\<open>Build_Pipeline\<close>: \<^verbatim>\<open>dagger/\<close> and \<^verbatim>\<open>test/utils\<close>.
  \<^item> This theory: from a firing entry and a policy to the delivery.

  \<^bold>\<open>What the groups of lemmas show.\<close> The service keeps its invariant and refines the abstract
  registry; a reconciliation registers exactly the wanted entries, reports truthfully, is idempotent and
  touches no other resource, also when it is interrupted between any two of its calls by users of other
  resources; a firing runs its job exactly when the rule \<open>may_run\<close> allows it; the
  jobs act on exactly their targets and report exactly the failures; scaling never touches an instance
  out of turn and ends; executions end in time; notices are delivered once and in order, the accepted
  ones also when the operator stops; a change of a spec always reaches its reconciler; deep copies share
  no memory with their originals; settings are read as they are printed, and the start wires the parts
  as the other theories assume.

  \<^bold>\<open>Parameters.\<close> The cron library, the API server, the SDK clients, HTTP exchanges, label selectors,
  the condition helpers of apimachinery, RFC 3339 printing, the clock, the deep copies of library types,
  the event predicate, the flags libraries bind and the engine of the pipelines are arguments, with named
  contracts where a proof relies on one (\<open>cron_contract\<close>, \<open>meta_contract\<close>, \<open>meta_keyed\<close>,
  \<open>env_writes\<close>, \<open>api_lib_ok\<close>, \<open>predicate_contract\<close>).

  \<^bold>\<open>Not modelled.\<close> Log output; the context with its five-minute limit of a job; the loop of the
  cron library that fires entries, which appears as a firing at any time; interleavings inside one
  firing and inside one reconciliation of a policy or an execution, which are atomic steps (those inside
  \<^verbatim>\<open>reconcileResource\<close>, of the refresh of a schedule and of the notification service are modelled, while
  \<open>Operator\<close>, \<open>Event_Routing\<close> and \<open>Status_Types\<close> take a whole reconciliation as a step);
  that the recorder reads a finished message as a format when it is passed as one; the upper end
  of \<^verbatim>\<open>time.Since\<close>; pod and job specs, which are copied and stay opaque; the scheme and the
  registry of collectors behind the registration, and the markers in comments from which other files
  are generated.
\<close>

section \<open>From a firing job and a notification policy to the deliveries\<close>

text \<open>
  What the components above each do, put together: the log of a cron entry ends with a notice, the
  notice goes through the bounded channel of the notification service, and the worker hands it to
  the recipients that the policies registered for its schedule.
\<close>

lemma fold_add_ok: "recipients_ok s \<Longrightarrow> recipients_ok (fold (\<lambda>x s. AddRecipientToSchedule ops s x rid r) xs s)"
  by (induction xs arbitrary: s) (auto simp: AddRecipientToSchedule_ok)

lemma fold_add_frame [simp]:
  "ns_ch (fold (\<lambda>x s. AddRecipientToSchedule ops s x rid r) xs s) = ns_ch s"
  "ns_closed (fold (\<lambda>x s. AddRecipientToSchedule ops s x rid r) xs s) = ns_closed s"
  by (induction xs arbitrary: s) auto

lemma active_policy_service:
  assumes "Policy_Reconcile ops ord api meta (svc, log) name = (err, (svc', log'))"
    and "pa_GetPolicy api log name = Inr inst" and "np_Name inst = name"
    and "NotificationPolicySpec_IsActive (np_Spec inst)" and "policy_recipient (np_Spec inst) = Inr r"
  shows "svc' = fold (\<lambda>x s. AddRecipientToSchedule ops s x name r) (np_Schedules (np_Spec inst)) (RemoveRecipient ops ord svc name)"
  using assms by (auto simp: Policy_Reconcile_def reconcile_policy_def Let_def split: option.splits)

lemma drain_Suc_end: "drain ops ord (Suc n) c = case_prod (run_step ops ord) (drain ops ord n c)"
proof (induction n arbitrary: c)
  case 0
  then show ?case by (cases c) (simp split: prod.splits)
next
  case (Suc n)
  obtain s out where c: "c = (s, out)" by (cases c)
  have "drain ops ord (Suc (Suc n)) c = drain ops ord (Suc n) (run_step ops ord s out)" by (simp only: c drain.simps)
  also have "\<dots> = case_prod (run_step ops ord) (drain ops ord n (run_step ops ord s out))" by (rule Suc.IH)
  also have "\<dots> = case_prod (run_step ops ord) (drain ops ord (Suc n) c)" by (simp only: c drain.simps)
  finally show ?case .
qed

lemma run_step_frame: "fst (run_step ops ord s out) = s\<lparr>ns_ch := drop 1 (ns_ch s)\<rparr>"
  by (cases "ns_ch s") (simp_all add: run_step_def Let_def)

lemma drain_frame: "fst (drain ops ord n (s, out)) = s\<lparr>ns_ch := drop n (ns_ch s)\<rparr>"
proof (induction n arbitrary: s out)
  case (Suc n)
  obtain s' out' where r: "run_step ops ord s out = (s', out')" by (cases "run_step ops ord s out")
  then have "s' = s\<lparr>ns_ch := drop 1 (ns_ch s)\<rparr>" using run_step_frame [of ops ord s out] by simp
  with Suc.IH [of s' out'] show ?case by (simp add: r)
qed simp

text \<open>Sent on a full channel, a notice is dropped; otherwise the worker reaches it after those before it.\<close>

lemma drain_delivers:
  assumes ok: "recipients_ok s" and "\<not> ns_closed s" and "length (ns_ch s) < capacity"
    and run: "drain ops ord (Suc (length (ns_ch s))) (Send s body, out) = (s', out')"
  shows "\<exists>before ds. out' = before @ ds \<and> mset (map dl_Id ds) = mset (mkeys (midx (ns_recipients s) (nb_Schedule body))) \<and>
    (\<forall>d \<in> set ds. dl_Body d = body)"
proof -
  let ?n = "length (ns_ch s)"
  obtain t before where d: "drain ops ord ?n (Send s body, out) = (t, before)"
    by (cases "drain ops ord ?n (Send s body, out)")
  then have t: "t = (Send s body)\<lparr>ns_ch := drop ?n (ns_ch (Send s body))\<rparr>"
    using drain_frame [of ops ord ?n "Send s body" out] by simp
  with assms(2,3) have "ns_ch t = [body]" and "ns_recipients t = ns_recipients s"
    by (simp_all add: Send_def)
  moreover from this(2) ok have "recipients_ok t" by (simp add: recipients_ok_def)
  moreover have "run_step ops ord t before = (s', out')"
    using run by (simp only: drain_Suc_end d case_prod_conv)
  ultimately show ?thesis
    using run_step_spec [of t ops ord before s' out' body "[]"] by auto
qed



text \<open>
  The end of a vertical scaling is announced under the name of the action, not of the
  schedule that started it: when no policy lists a schedule that happens to have the action's name,
  the worker drops the notice, whoever listens to the schedule of the resource.
\<close>

theorem scale_notice_lost:
  assumes "op = scale_execution k operatorNamespace now ns name a act"
    and "ns_ch s = finalize_notice (op\<lparr>ae_Status := st\<rparr>) handlerErr # rest" and "mget (ns_recipients s) a = None"
  shows "run_step ops ord s out = (s\<lparr>ns_ch := rest\<rparr>, out)"
proof -
  have "nb_Schedule (finalize_notice (op\<lparr>ae_Status := st\<rparr>) handlerErr) = a"
    by (simp add: assms(1) finalize_notice_def scale_execution_def)
  moreover have "visit ord [''notify''] [] = ([] :: string list)"
    by (metis mset_visit mset_zero_iff mset.simps(1))
  ultimately show ?thesis
    using assms(2,3) by (simp add: run_step_def recipientsCopy_def Let_def)
qed

theorem scale_notice_lost_witness:
  "let s = Send (AddRecipientToSchedule demo_ops NewNotificationService ''office'' ''p'' 7)
        (finalize_notice ((scale_execution rds_kind ''op'' 0 ''ns'' ''db'' ''grow'' act)\<lparr>ae_Status := st\<rparr>) None)
   in recipient_of s ''office'' ''p'' = Some 7 \<and> snd (run_step demo_ops insertion_order s []) = []"
proof -
  let ?op = "scale_execution rds_kind ''op'' 0 ''ns'' ''db'' ''grow'' act"
  let ?s = "Send (AddRecipientToSchedule demo_ops NewNotificationService ''office'' ''p'' 7) (finalize_notice (?op\<lparr>ae_Status := st\<rparr>) None)"
  have "ns_ch ?s = finalize_notice (?op\<lparr>ae_Status := st\<rparr>) None # []"
    by (simp add: ns_ch_Send capacity_def) (simp add: NewNotificationService_def AddRecipientToSchedule_def Let_def)
  moreover have "mget (ns_recipients ?s) ''grow'' = None"
    by (simp add: AddRecipientToSchedule_def NewNotificationService_def Let_def mensure_def)
  ultimately have "run_step demo_ops insertion_order ?s [] = (?s\<lparr>ns_ch := []\<rparr>, [])"
    by (rule scale_notice_lost [OF refl])
  moreover have "recipient_of ?s ''office'' ''p'' = Some 7"
    by (simp add: recipient_of_def AddRecipientToSchedule_def NewNotificationService_def Let_def mensure_def)
  ultimately show ?thesis by simp
qed

text \<open>
  A changed policy is first taken out of all its schedules and then added again, each call under its own
  lock. A worker that reads the recipients in between does not tell the policy, which listened to the
  schedule before the change and listens to it afterwards.
\<close>

theorem policy_change_window:
  assumes "recipients_ok svc" and "ns_ch svc = body # rest" and "nb_Schedule body \<in> set (np_Schedules (np_Spec inst))"
    and "Policy_Reconcile ops ord papi meta (svc, plog) pname = (perr, (svc', plog'))"
    and "pa_GetPolicy papi plog pname = Inr inst" and "np_Name inst = pname"
    and "NotificationPolicySpec_IsActive (np_Spec inst)" and "policy_recipient (np_Spec inst) = Inr r"
  shows "\<exists>between. between = RemoveRecipient ops ord svc pname \<and>
    svc' = fold (\<lambda>x s. AddRecipientToSchedule ops s x pname r) (np_Schedules (np_Spec inst)) between \<and>
    recipient_of svc' (nb_Schedule body) pname = Some r \<and>
    pname \<notin> dl_Id ` set (snd (run_step ops ord' between []))"
proof -
  let ?between = "RemoveRecipient ops ord svc pname"
  have after: "svc' = fold (\<lambda>x s. AddRecipientToSchedule ops s x pname r) (np_Schedules (np_Spec inst)) ?between"
    by (rule active_policy_service [OF assms(4-8)])
  then have "recipient_of svc' (nb_Schedule body) pname = Some r"
    using assms(3) by (simp add: fold_add_recipient_of)
  moreover obtain t ds where r: "run_step ops ord' ?between [] = (t, ds)"
    by (metis prod.exhaust)
  have "ns_ch ?between = body # rest"
    using assms(2) by simp
  from run_step_spec [OF RemoveRecipient_ok [OF assms(1)] r this]
  have "\<forall>d \<in> set ds. \<exists>q. recipient_of ?between (nb_Schedule body) (dl_Id d) = Some q"
    by auto
  then have "pname \<notin> dl_Id ` set ds"
    by auto
  ultimately show ?thesis
    using after r by simp
qed

end
